(* ===== verification/Prelude.thy ===== *)
theory Prelude
  imports Complex_Main
begin

section \<open>Prelude: the JavaScript values and effects every component shares\<close>

text \<open>
  A JavaScript string is the list of its UTF-16 code units, so \<open>length\<close>, slicing and comparison
  are the ones of the language.  \<open>js\<close> turns an ASCII literal into such a string.  An \<open>Error\<close>
  object is its class and its message (the \<open>cause\<close> chain is not kept), a call that may throw
  returns a sum, and an operation with effects is a function from the state before to the result
  and the state after.  The collections below gather the equations that evaluate model programs.
\<close>

named_theorems js_eval \<open>equations that evaluate closed programs over strings and numbers\<close>
named_theorems io_eval \<open>equations that run the effect combinators\<close>

subsection \<open>Strings\<close>

type_synonym jsstring = "nat list"

definition js :: "string \<Rightarrow> jsstring" where
  "js s = map of_char s"

lemma js_inject [simp]: "js s = js t \<longleftrightarrow> s = t"
  by (simp add: js_def inj_map_eq_map inj_on_def)

lemma js_Nil [simp]: "js [] = []"
  by (simp add: js_def)

lemma js_eq_Nil [simp]: "js s = [] \<longleftrightarrow> s = []" "[] = js s \<longleftrightarrow> s = []"
  by (auto simp: js_def)

lemma js_append: "js (s @ t) = js s @ js t"
  by (simp add: js_def)

lemma length_js [simp]: "length (js s) = length s"
  by (simp add: js_def)

lemma js_unit: "c \<in> set (js s) \<Longrightarrow> c < 256"
  by (auto simp: js_def)

subsection \<open>Errors and results\<close>

text \<open>\<open>a ?? b\<close>\<close>

definition or_else :: "'a option \<Rightarrow> 'a \<Rightarrow> 'a" where
  "or_else a b = (case a of None \<Rightarrow> b | Some x \<Rightarrow> x)"

lemma or_else_simps [simp]: "or_else None b = b" "or_else (Some x) b = x"
  by (simp_all add: or_else_def)

datatype js_error =
    JsError jsstring
  | CommandTimeoutError jsstring
  | QueueUnknownError jsstring

primrec message :: "js_error \<Rightarrow> jsstring" where
  "message (JsError m) = m"
| "message (CommandTimeoutError m) = m"
| "message (QueueUnknownError m) = m"

type_synonym 'a result = "js_error + 'a"

definition fails :: "'a result \<Rightarrow> bool" where
  "fails r = (case r of Inl _ \<Rightarrow> True | Inr _ \<Rightarrow> False)"

lemma fails_simps [simp]: "fails (Inl e)" "\<not> fails (Inr x)"
  by (simp_all add: fails_def)

lemma not_fails_iff: "\<not> fails r \<longleftrightarrow> (\<exists>x. r = Inr x)"
  by (auto simp: fails_def split: sum.splits)

definition bindR :: "'a result \<Rightarrow> ('a \<Rightarrow> 'b result) \<Rightarrow> 'b result" where
  "bindR m f = (case m of Inl e \<Rightarrow> Inl e | Inr x \<Rightarrow> f x)"

lemma bindR_simps [simp]: "bindR (Inl e) f = Inl e" "bindR (Inr x) f = f x"
  by (simp_all add: bindR_def)

lemma bindR_eq_Inr: "bindR m f = Inr y \<longleftrightarrow> (\<exists>x. m = Inr x \<and> f x = Inr y)"
  by (cases m) auto

lemma bindR_eq_Inl: "bindR m f = Inl e \<longleftrightarrow> m = Inl e \<or> (\<exists>x. m = Inr x \<and> f x = Inl e)"
  by (cases m) auto

lemma bindR_InrE [elim]:
  assumes "bindR m f = Inr y"
  obtains x where "m = Inr x" and "f x = Inr y"
  using assms by (auto simp: bindR_eq_Inr)

lemma bindR_cong [fundef_cong]:
  "m = m' \<Longrightarrow> (\<And>x. m' = Inr x \<Longrightarrow> f x = f' x) \<Longrightarrow> bindR m f = bindR m' f'"
  by (cases m') auto

text \<open>A guard: \<open>if (bad) throw e\<close>.\<close>

definition throw_if :: "bool \<Rightarrow> js_error \<Rightarrow> unit result" where
  "throw_if b e = (if b then Inl e else Inr ())"

lemma throw_if_Inr [simp]: "throw_if b e = Inr u \<longleftrightarrow> \<not> b"
  by (simp add: throw_if_def)

lemma throw_if_eval [js_eval]: "throw_if True e = Inl e" "throw_if False e = Inr ()"
  by (simp_all add: throw_if_def)

text \<open>A loop that runs a check on every element and stops at the first throw.\<close>

fun each :: "('a \<Rightarrow> unit result) \<Rightarrow> 'a list \<Rightarrow> unit result" where
  "each f [] = Inr ()"
| "each f (x # xs) = bindR (f x) (\<lambda>_. each f xs)"

lemma each_Inr [simp]: "each f xs = Inr u \<longleftrightarrow> (\<forall>x \<in> set xs. f x = Inr ())"
  by (induction xs) (auto simp: bindR_eq_Inr)

fun mapR :: "('a \<Rightarrow> 'b result) \<Rightarrow> 'a list \<Rightarrow> 'b list result" where
  "mapR f [] = Inr []"
| "mapR f (x # xs) = bindR (f x) (\<lambda>y. bindR (mapR f xs) (\<lambda>ys. Inr (y # ys)))"

lemma mapR_Inr: "mapR f xs = Inr ys \<longleftrightarrow> list_all2 (\<lambda>x y. f x = Inr y) xs ys"
  by (induction xs arbitrary: ys) (auto simp: bindR_eq_Inr list_all2_Cons1)

text \<open>The elements of a \<open>Set\<close> made from a list: each once, in the order they first appear.\<close>

definition uniq :: "'a list \<Rightarrow> 'a list" where
  "uniq xs = rev (remdups (rev xs))"

lemma set_uniq [simp]: "set (uniq xs) = set xs"
  and distinct_uniq [simp]: "distinct (uniq xs)"
  by (simp_all add: uniq_def)

lemma uniq_Cons: "uniq (x # xs) = x # filter (\<lambda>y. y \<noteq> x) (uniq xs)"
proof -
  have "remdups (ys @ [x]) = filter (\<lambda>y. y \<noteq> x) (remdups ys) @ [x]" for ys
    by (induction ys) auto
  then show ?thesis by (simp add: uniq_def rev_filter)
qed

lemma uniq_Nil [simp]: "uniq [] = []"
  by (simp add: uniq_def)

lemma uniq_idle: "distinct xs \<Longrightarrow> uniq xs = xs"
  by (simp add: uniq_def distinct_remdups_id)

subsection \<open>Operations with effects\<close>

type_synonym ('s, 'a) io = "'s \<Rightarrow> 'a result \<times> 's"

definition returnIO :: "'a \<Rightarrow> ('s, 'a) io" where
  "returnIO x = (\<lambda>s. (Inr x, s))"

definition throwIO :: "js_error \<Rightarrow> ('s, 'a) io" where
  "throwIO e = (\<lambda>s. (Inl e, s))"

definition liftR :: "'a result \<Rightarrow> ('s, 'a) io" where
  "liftR r = (\<lambda>s. (r, s))"

definition bindIO :: "('s, 'a) io \<Rightarrow> ('a \<Rightarrow> ('s, 'b) io) \<Rightarrow> ('s, 'b) io" where
  "bindIO m f = (\<lambda>s. case m s of (Inl e, s') \<Rightarrow> (Inl e, s') | (Inr x, s') \<Rightarrow> f x s')"

definition catchIO :: "('s, 'a) io \<Rightarrow> (js_error \<Rightarrow> ('s, 'a) io) \<Rightarrow> ('s, 'a) io" where
  "catchIO m h = (\<lambda>s. case m s of (Inl e, s') \<Rightarrow> h e s' | (Inr x, s') \<Rightarrow> (Inr x, s'))"

definition getIO :: "('s \<Rightarrow> 'a) \<Rightarrow> ('s, 'a) io" where
  "getIO f = (\<lambda>s. (Inr (f s), s))"

definition updIO :: "('s \<Rightarrow> 's) \<Rightarrow> ('s, unit) io" where
  "updIO f = (\<lambda>s. (Inr (), f s))"

lemma io_run [io_eval]:
  "returnIO x s = (Inr x, s)"
  "throwIO e s = (Inl e, s)"
  "liftR r s = (r, s)"
  "getIO g s = (Inr (g s), s)"
  "updIO h s = (Inr (), h s)"
  by (simp_all add: returnIO_def throwIO_def liftR_def getIO_def updIO_def)

lemma bindIO_run [io_eval]:
  "bindIO m f s = (case m s of (Inl e, s') \<Rightarrow> (Inl e, s') | (Inr x, s') \<Rightarrow> f x s')"
  by (simp add: bindIO_def)

lemma catchIO_run [io_eval]:
  "catchIO m h s = (case m s of (Inl e, s') \<Rightarrow> h e s' | (Inr x, s') \<Rightarrow> (Inr x, s'))"
  by (simp add: catchIO_def)

lemma bindIO_eqE:
  assumes "bindIO m f s = (r, t)"
  obtains (throws) e where "m s = (Inl e, t)" and "r = Inl e"
  | (goes_on) x s' where "m s = (Inr x, s')" and "f x s' = (r, t)"
  using assms by (auto simp: bindIO_def split: prod.splits sum.splits)

lemma catchIO_eqE:
  assumes "catchIO m h s = (r, t)"
  obtains (caught) e s' where "m s = (Inl e, s')" and "h e s' = (r, t)"
  | (fine) x where "m s = (Inr x, t)" and "r = Inr x"
  using assms by (auto simp: catchIO_def split: prod.splits sum.splits)

text \<open>
  \<open>keeps P m\<close>: the operation \<open>m\<close> leads from a state of \<open>P\<close> to a state of \<open>P\<close>, however it
  ends.  The combinators keep what their parts keep, so an invariant of a component is shown
  operation by operation.
\<close>

definition keeps :: "('s \<Rightarrow> bool) \<Rightarrow> ('s, 'a) io \<Rightarrow> bool" where
  "keeps P m \<longleftrightarrow> (\<forall>s. P s \<longrightarrow> P (snd (m s)))"

lemma keepsI: "(\<And>s r t. P s \<Longrightarrow> m s = (r, t) \<Longrightarrow> P t) \<Longrightarrow> keeps P m"
  unfolding keeps_def by (metis prod.collapse)

lemma keepsD: "keeps P m \<Longrightarrow> P s \<Longrightarrow> m s = (r, t) \<Longrightarrow> P t"
  unfolding keeps_def by (metis snd_conv)

lemma keeps_basic [intro, simp]:
  "keeps P (returnIO x)" "keeps P (throwIO e)" "keeps P (liftR r)" "keeps P (getIO g)"
  by (simp_all add: keeps_def io_eval)

lemma keeps_updIO: "keeps P (updIO f) \<longleftrightarrow> (\<forall>s. P s \<longrightarrow> P (f s))"
  by (simp add: keeps_def io_eval)

lemma keeps_bindIO [intro]:
  assumes "keeps P m" and "\<And>x. keeps P (f x)"
  shows "keeps P (bindIO m f)"
proof (rule keepsI)
  fix s r t assume "P s" and "bindIO m f s = (r, t)"
  from this(2) show "P t"
    by (rule bindIO_eqE) (use assms \<open>P s\<close> in \<open>blast dest: keepsD\<close>)+
qed

lemma keeps_catchIO [intro]:
  assumes "keeps P m" and "\<And>e. keeps P (h e)"
  shows "keeps P (catchIO m h)"
proof (rule keepsI)
  fix s r t assume "P s" and "catchIO m h s = (r, t)"
  from this(2) show "P t"
    by (rule catchIO_eqE) (use assms \<open>P s\<close> in \<open>blast dest: keepsD\<close>)+
qed

subsection \<open>Triples\<close>

text \<open>
  \<open>triple P m Q E\<close>: started where \<open>P\<close> holds, \<open>m\<close> ends with a value and state of \<open>Q\<close> or with an
  error and state of \<open>E\<close>.  Operations always end, so this is total correctness.  An invariant is a
  triple with the same condition throughout (\<open>keeps\<close>), and the rules follow the code forwards.
\<close>

definition triple ::
  "('s \<Rightarrow> bool) \<Rightarrow> ('s, 'a) io \<Rightarrow> ('a \<Rightarrow> 's \<Rightarrow> bool) \<Rightarrow> (js_error \<Rightarrow> 's \<Rightarrow> bool) \<Rightarrow> bool" where
  "triple P m Q E \<longleftrightarrow> (\<forall>s. P s \<longrightarrow> (case m s of (Inl e, t) \<Rightarrow> E e t | (Inr x, t) \<Rightarrow> Q x t))"

lemma tripleI:
  assumes "\<And>s e t. P s \<Longrightarrow> m s = (Inl e, t) \<Longrightarrow> E e t" and "\<And>s x t. P s \<Longrightarrow> m s = (Inr x, t) \<Longrightarrow> Q x t"
  shows "triple P m Q E"
  unfolding triple_def using assms by (auto split: prod.split sum.split)

lemma triple_Inr: "triple P m Q E \<Longrightarrow> P s \<Longrightarrow> m s = (Inr x, t) \<Longrightarrow> Q x t"
  and triple_Inl: "triple P m Q E \<Longrightarrow> P s \<Longrightarrow> m s = (Inl e, t) \<Longrightarrow> E e t"
  unfolding triple_def by (metis (no_types, lifting) old.prod.case old.sum.simps(5,6))+

lemma keeps_triple: "keeps P m \<longleftrightarrow> triple P m (\<lambda>_. P) (\<lambda>_. P)"
proof
  assume "keeps P m"
  then show "triple P m (\<lambda>_. P) (\<lambda>_. P)" by (blast intro: tripleI dest: keepsD)
next
  assume m: "triple P m (\<lambda>_. P) (\<lambda>_. P)"
  show "keeps P m"
  proof (rule keepsI)
    fix s r t assume "P s" and "m s = (r, t)"
    with m show "P t" by (cases r) (auto dest: triple_Inr triple_Inl)
  qed
qed

lemma triple_weaken:
  assumes "triple P' m Q' E'" and "\<And>s. P s \<Longrightarrow> P' s" and "\<And>x s. Q' x s \<Longrightarrow> Q x s" and "\<And>e s. E' e s \<Longrightarrow> E e s"
  shows "triple P m Q E"
proof (rule tripleI)
  show "E e t" if "P s" "m s = (Inl e, t)" for s e t
    using triple_Inl[OF assms(1) assms(2)[OF that(1)] that(2)] by (rule assms(4))
  show "Q x t" if "P s" "m s = (Inr x, t)" for s x t
    using triple_Inr[OF assms(1) assms(2)[OF that(1)] that(2)] by (rule assms(3))
qed

lemma triple_bind:
  assumes "triple P m R E" and "\<And>x. triple (R x) (f x) Q E"
  shows "triple P (bindIO m f) Q E"
  by (rule tripleI) (use assms in \<open>auto elim!: bindIO_eqE dest: triple_Inr triple_Inl\<close>)

lemma triple_catch:
  assumes "triple P m Q R" and "\<And>e. triple (R e) (h e) Q E"
  shows "triple P (catchIO m h) Q E"
  by (rule tripleI) (use assms in \<open>auto elim!: catchIO_eqE dest: triple_Inr triple_Inl\<close>)

lemma triple_return: "(\<And>s. P s \<Longrightarrow> Q x s) \<Longrightarrow> triple P (returnIO x) Q E"
  and triple_throw: "(\<And>s. P s \<Longrightarrow> E e s) \<Longrightarrow> triple P (throwIO e) Q E"
  and triple_lift: "(\<And>s x. P s \<Longrightarrow> r = Inr x \<Longrightarrow> Q x s) \<Longrightarrow> (\<And>s e. P s \<Longrightarrow> r = Inl e \<Longrightarrow> E e s) \<Longrightarrow>
    triple P (liftR r) Q E"
  and triple_update: "(\<And>s. P s \<Longrightarrow> Q () (f s)) \<Longrightarrow> triple P (updIO f) Q E"
  and triple_get: "triple P (getIO g) (\<lambda>x s. P s \<and> x = g s) E"
  by (auto intro!: tripleI simp: io_eval)

lemma triple_if: "(b \<Longrightarrow> triple P m Q E) \<Longrightarrow> (\<not> b \<Longrightarrow> triple P m' Q E) \<Longrightarrow> triple P (if b then m else m') Q E"
  by simp

lemma triple_option:
  "(x = None \<Longrightarrow> triple P m Q E) \<Longrightarrow> (\<And>y. x = Some y \<Longrightarrow> triple P (f y) Q E) \<Longrightarrow>
     triple P (case x of None \<Rightarrow> m | Some y \<Rightarrow> f y) Q E"
  by (cases x) auto

text \<open>What holds of nothing but the value read holds throughout.\<close>

lemma triple_assume: "(\<And>s. P s \<Longrightarrow> a) \<Longrightarrow> (a \<Longrightarrow> triple P m Q E) \<Longrightarrow> triple P m Q E"
  unfolding triple_def by auto

end
