(* ===== verification/JsText.thy ===== *)
theory JsText
  imports Prelude "HOL-Library.Sublist"
begin

section \<open>Strings of the language: the methods the sources call\<close>

text \<open>
  \<open>trim\<close>, \<open>split\<close> and \<open>indexOf\<close> on a one-character separator, \<open>slice\<close> (\<open>drop\<close> and \<open>take\<close>),
  \<open>startsWith\<close>, \<open>includes\<close>, \<open>replaceAll\<close>, \<open>toUpperCase\<close>, \<open>Array.join\<close> and the printing of
  whole numbers, on UTF-16 code units.  \<open>toUpperCase\<close> knows the letters up to U+00FF and leaves
  others alone; the sources apply it to GPU types.  The regular expressions of the sources are
  values of \<open>regex\<close>, matched against a whole string (all of them are anchored at both ends).
\<close>

subsection \<open>White space\<close>

definition is_space :: "nat \<Rightarrow> bool" where
  "is_space c \<longleftrightarrow> (9 \<le> c \<and> c \<le> 13) \<or> c = 32 \<or> c = 160 \<or> c = 5760 \<or> (8192 \<le> c \<and> c \<le> 8202)
     \<or> c = 8232 \<or> c = 8233 \<or> c = 8239 \<or> c = 8287 \<or> c = 12288 \<or> c = 65279"

definition trim :: "jsstring \<Rightarrow> jsstring" where
  "trim s = rev (dropWhile is_space (rev (dropWhile is_space s)))"

definition blank :: "jsstring \<Rightarrow> bool" where
  "blank s \<longleftrightarrow> trim s = []"

lemma blank_iff: "blank s \<longleftrightarrow> (\<forall>c \<in> set s. is_space c)"
proof -
  have "(\<forall>c \<in> set (dropWhile is_space s). is_space c) \<longleftrightarrow> (\<forall>c \<in> set s. is_space c)"
    by (metis dropWhile_eq_Nil_conv hd_dropWhile hd_in_set list.set_cases set_dropWhileD)
  then show ?thesis
    by (auto simp: blank_def trim_def dropWhile_eq_Nil_conv dest: set_dropWhileD)
qed

lemma set_trim_subset: "c \<in> set (trim s) \<Longrightarrow> c \<in> set s"
  unfolding trim_def by (metis set_dropWhileD set_rev)

lemma length_trim: "length (trim s) \<le> length s"
  unfolding trim_def by (metis length_dropWhile_le length_rev order_trans)

text \<open>What \<open>trim\<close> leaves is the middle of the string between two runs of white space.\<close>

lemma trim_middle: "\<exists>l r. s = l @ trim s @ r \<and> (\<forall>c \<in> set l. is_space c) \<and> (\<forall>c \<in> set r. is_space c)"
proof -
  let ?d = "dropWhile is_space s"
  have "s = takeWhile is_space s @ ?d"
    by simp
  moreover have "?d = trim s @ rev (takeWhile is_space (rev ?d))"
    unfolding trim_def by (metis rev_append rev_rev_ident takeWhile_dropWhile_id)
  ultimately have "s = takeWhile is_space s @ trim s @ rev (takeWhile is_space (rev ?d))"
    by simp
  then show ?thesis
    by (metis set_rev set_takeWhileD)
qed

lemma trim_no_space [simp]: "(\<forall>c \<in> set s. \<not> is_space c) \<Longrightarrow> trim s = s"
proof -
  assume a: "\<forall>c \<in> set s. \<not> is_space c"
  then have "dropWhile is_space s = s" and "dropWhile is_space (rev s) = rev s"
    by (auto simp: dropWhile_eq_self_iff hd_rev)
  then show "trim s = s" by (simp add: trim_def)
qed

subsection \<open>Searching and cutting\<close>

definition startsWith :: "jsstring \<Rightarrow> jsstring \<Rightarrow> bool" where
  "startsWith p s \<longleftrightarrow> take (length p) s = p"

lemma startsWith_iff: "startsWith p s \<longleftrightarrow> (\<exists>r. s = p @ r)"
  by (auto simp: startsWith_def) (metis append_take_drop_id)

lemma startsWith_append [simp]: "startsWith p (p @ r)"
  by (simp add: startsWith_def)

fun contains :: "jsstring \<Rightarrow> jsstring \<Rightarrow> bool" where
  "contains p [] \<longleftrightarrow> p = []"
| "contains p (c # s) \<longleftrightarrow> startsWith p (c # s) \<or> contains p s"

lemma contains_iff: "contains p s \<longleftrightarrow> (\<exists>l r. s = l @ p @ r)"
proof (induction s)
  case Nil
  then show ?case by auto
next
  case (Cons c s)
  show ?case
  proof
    assume "contains p (c # s)"
    then consider "startsWith p (c # s)" | "contains p s" by auto
    then show "\<exists>l r. c # s = l @ p @ r"
      by cases (metis append_Nil startsWith_iff, metis Cons.IH append_Cons)
  next
    assume "\<exists>l r. c # s = l @ p @ r"
    then obtain l r where lr: "c # s = l @ p @ r" by blast
    show "contains p (c # s)"
    proof (cases l)
      case Nil
      with lr have "startsWith p (c # s)" by simp
      then show ?thesis by simp
    next
      case (Cons a l')
      with lr have "s = l' @ p @ r" by simp
      then show ?thesis using Cons.IH by auto
    qed
  qed
qed

text \<open>\<open>indexOf\<close> and \<open>lastIndexOf\<close> of one character, \<open>-1\<close> when there is none.\<close>

fun indexOf :: "nat \<Rightarrow> jsstring \<Rightarrow> int" where
  "indexOf c [] = -1"
| "indexOf c (x # s) = (if x = c then 0 else if indexOf c s < 0 then -1 else indexOf c s + 1)"

fun lastIndexOf :: "nat \<Rightarrow> jsstring \<Rightarrow> int" where
  "lastIndexOf c [] = -1"
| "lastIndexOf c (x # s) =
     (if 0 \<le> lastIndexOf c s then lastIndexOf c s + 1 else if x = c then 0 else -1)"

definition slice_from :: "int \<Rightarrow> jsstring \<Rightarrow> jsstring" where
  "slice_from i s = drop (nat i) s"

definition slice_to :: "int \<Rightarrow> jsstring \<Rightarrow> jsstring" where
  "slice_to i s = take (nat i) s"

lemma indexOf_none: "indexOf c s = -1 \<longleftrightarrow> c \<notin> set s"
  and indexOf_ge: "-1 \<le> indexOf c s"
  by (induction s) auto

lemma lastIndexOf_ge: "-1 \<le> lastIndexOf c s"
  by (induction s) auto

lemma lastIndexOf_none [simp]: "lastIndexOf c s = -1 \<longleftrightarrow> c \<notin> set s"
  using lastIndexOf_ge by (induction s) (auto, smt (verit) lastIndexOf_ge)

lemma lastIndexOf_append: "c \<notin> set r \<Longrightarrow> lastIndexOf c (l @ c # r) = int (length l)"
  by (induction l) (auto simp: not_le, smt (verit) lastIndexOf_none)

text \<open>Cutting behind the last separator: the part before it and the part after it.\<close>

lemma lastIndexOf_split:
  assumes "c \<in> set s"
  obtains l r where "s = l @ c # r" and "c \<notin> set r" and "slice_to (lastIndexOf c s) s = l"
    and "slice_from (lastIndexOf c s + 1) s = r"
proof -
  from split_list_last[OF assms] obtain l r where lr: "s = l @ c # r" "c \<notin> set r" by blast
  then have "lastIndexOf c s = int (length l)" by (simp add: lastIndexOf_append)
  with lr that show thesis
    by (simp add: slice_to_def slice_from_def nat_add_distrib)
qed

subsection \<open>Splitting and joining\<close>

fun splitOn :: "nat \<Rightarrow> jsstring \<Rightarrow> jsstring list" where
  "splitOn c [] = [[]]"
| "splitOn c (x # s) =
     (if x = c then [] # splitOn c s else (x # hd (splitOn c s)) # tl (splitOn c s))"

fun join :: "jsstring \<Rightarrow> jsstring list \<Rightarrow> jsstring" where
  "join sep [] = []"
| "join sep [x] = x"
| "join sep (x # y # xs) = x @ sep @ join sep (y # xs)"

lemma join_Cons: "xs \<noteq> [] \<Longrightarrow> join sep (x # xs) = x @ sep @ join sep xs"
  by (cases xs) auto

lemma splitOn_not_Nil [simp]: "splitOn c s \<noteq> []"
  by (cases s) auto

lemma join_splitOn: "join [c] (splitOn c s) = s"
proof (induction s)
  case Nil
  then show ?case by simp
next
  case (Cons x s)
  then show ?case
    by (cases "splitOn c s"; cases "tl (splitOn c s)") (auto simp: join_Cons)
qed

lemma splitOn_no_sep: "w \<in> set (splitOn c s) \<Longrightarrow> c \<notin> set w"
proof (induction s arbitrary: w)
  case Nil
  then show ?case by simp
next
  case (Cons x s)
  then show ?case
    by (cases "splitOn c s") (auto split: if_splits)
qed

lemma splitOn_word: "c \<notin> set w \<Longrightarrow> splitOn c w = [w]"
  by (induction w) auto

lemma splitOn_append: "c \<notin> set w \<Longrightarrow> splitOn c (w @ c # s) = w # splitOn c s"
  by (induction w) auto

lemma splitOn_join:
  "ws \<noteq> [] \<Longrightarrow> \<forall>w \<in> set ws. c \<notin> set w \<Longrightarrow> splitOn c (join [c] ws) = ws"
  by (induction ws rule: induct_list012) (auto simp: splitOn_word splitOn_append)

subsection \<open>Replacing\<close>

text \<open>
  \<open>replaceAll\<close> with a string pattern: left to right, without overlap.  An empty pattern matches
  between any two characters.  The replacement texts of the sources hold no dollar sign, which
  would be a pattern of its own.
\<close>

function replace_from :: "jsstring \<Rightarrow> jsstring \<Rightarrow> jsstring \<Rightarrow> jsstring" where
  "replace_from p q s =
     (if s = [] \<or> p = [] then s
      else if startsWith p s then q @ replace_from p q (drop (length p) s)
      else hd s # replace_from p q (tl s))"
  by pat_completeness auto
termination
  by (relation "measure (\<lambda>(p, q, s). length s)") auto

declare replace_from.simps [simp del]

definition replaceAll :: "jsstring \<Rightarrow> jsstring \<Rightarrow> jsstring \<Rightarrow> jsstring" where
  "replaceAll p q s =
     (if p = [] then q @ concat (map (\<lambda>c. c # q) s) else replace_from p q s)"

lemma replace_from_Nil [simp]: "replace_from p q [] = []"
  by (simp add: replace_from.simps)

lemma replaceAll_char: "replaceAll [c] q s = concat (map (\<lambda>x. if x = c then q else [x]) s)"
proof -
  have "replace_from [c] q s = concat (map (\<lambda>x. if x = c then q else [x]) s)"
    by (induction s) (simp_all add: replace_from.simps startsWith_def)
  then show ?thesis by (simp add: replaceAll_def)
qed

subsection \<open>Letters\<close>

definition upper_unit :: "nat \<Rightarrow> jsstring" where
  "upper_unit c =
     (if 97 \<le> c \<and> c \<le> 122 then [c - 32]
      else if c = 181 then [924]
      else if c = 223 then [83, 83]
      else if 224 \<le> c \<and> c \<le> 254 \<and> c \<noteq> 247 then [c - 32]
      else if c = 255 then [376]
      else [c])"

definition toUpperCase :: "jsstring \<Rightarrow> jsstring" where
  "toUpperCase s = concat (map upper_unit s)"

lemma toUpperCase_idem [simp]: "toUpperCase (toUpperCase s) = toUpperCase s"
  by (induction s) (auto simp: toUpperCase_def upper_unit_def)

subsection \<open>Printing whole numbers\<close>

fun show_nat :: "nat \<Rightarrow> jsstring" where
  "show_nat n = (if n < 10 then [48 + n] else show_nat (n div 10) @ [48 + n mod 10])"

declare show_nat.simps [simp del]

definition show_int :: "int \<Rightarrow> jsstring" where
  "show_int i = (if i < 0 then 45 # show_nat (nat (- i)) else show_nat (nat i))"

definition is_digit :: "nat \<Rightarrow> bool" where
  "is_digit c \<longleftrightarrow> 48 \<le> c \<and> c \<le> 57"

definition digits_val :: "jsstring \<Rightarrow> nat" where
  "digits_val ds = foldl (\<lambda>a d. 10 * a + (d - 48)) 0 ds"

lemma show_nat_digits: "\<forall>c \<in> set (show_nat n). is_digit c"
proof (induction n rule: show_nat.induct)
  case (1 n)
  show ?case
  proof (cases "n < 10")
    case True
    then show ?thesis by (simp add: show_nat.simps[of n] is_digit_def)
  next
    case False
    with 1 show ?thesis by (simp add: show_nat.simps[of n] is_digit_def)
  qed
qed

lemma show_nat_not_Nil [simp]: "show_nat n \<noteq> []"
  by (subst show_nat.simps) simp

lemma digits_val_snoc [simp]: "digits_val (ds @ [d]) = 10 * digits_val ds + (d - 48)"
  by (simp add: digits_val_def)

lemma digits_val_show_nat [simp]: "digits_val (show_nat n) = n"
proof (induction n rule: show_nat.induct)
  case (1 n)
  show ?case
  proof (cases "n < 10")
    case True
    then show ?thesis by (simp add: show_nat.simps[of n] digits_val_def)
  next
    case False
    with 1 show ?thesis by (simp add: show_nat.simps[of n])
  qed
qed

lemma show_nat_inj [simp]: "show_nat m = show_nat n \<longleftrightarrow> m = n"
  by (metis digits_val_show_nat)

lemma show_int_inj [simp]: "show_int i = show_int j \<longleftrightarrow> i = j"
proof -
  have "45 \<noteq> hd (show_nat n)" for n
    using bspec[OF show_nat_digits[of n] hd_in_set[OF show_nat_not_Nil[of n]]]
    by (auto simp: is_digit_def)
  then have "45 # x \<noteq> show_nat n" for x n
    by (metis list.sel(1))
  then show ?thesis
    by (auto simp: show_int_def dest: sym split: if_splits)
qed

subsection \<open>Regular expressions\<close>

datatype regex =
    One_of "(nat \<times> nat) list"    \<comment> \<open>a character class, as ranges\<close>
  | Seq regex regex
  | Alt regex regex
  | Opt regex
  | Star regex
  | Upto nat regex                \<comment> \<open>\<open>{0,n}\<close>\<close>

definition in_class :: "(nat \<times> nat) list \<Rightarrow> nat \<Rightarrow> bool" where
  "in_class rs c \<longleftrightarrow> (\<exists>(a, b) \<in> set rs. a \<le> c \<and> c \<le> b)"

primrec lang :: "regex \<Rightarrow> jsstring set" where
  "lang (One_of rs) = {[c] | c. in_class rs c}"
| "lang (Seq r s) = {x @ y | x y. x \<in> lang r \<and> y \<in> lang s}"
| "lang (Alt r s) = lang r \<union> lang s"
| "lang (Opt r) = insert [] (lang r)"
| "lang (Star r) = {concat ws | ws. set ws \<subseteq> lang r}"
| "lang (Upto n r) = {concat ws | ws. set ws \<subseteq> lang r \<and> length ws \<le> n}"

text \<open>
  \<open>regex_test\<close> runs the expression over the string: the rests that are left after a match of a
  prefix, and a match of the whole string when one of them is empty.  A repetition gives up on a
  round that consumes nothing.
\<close>

fun rounds :: "nat \<Rightarrow> (jsstring \<Rightarrow> jsstring list) \<Rightarrow> jsstring \<Rightarrow> jsstring list" where
  "rounds 0 m s = [s]"
| "rounds (Suc n) m s =
     s # concat (map (rounds n m) (filter (\<lambda>t. length t < length s) (m s)))"

primrec rests :: "regex \<Rightarrow> jsstring \<Rightarrow> jsstring list" where
  "rests (One_of rs) s = (case s of [] \<Rightarrow> [] | c # t \<Rightarrow> if in_class rs c then [t] else [])"
| "rests (Seq r q) s = remdups (concat (map (rests q) (rests r s)))"
| "rests (Alt r q) s = remdups (rests r s @ rests q s)"
| "rests (Opt r) s = s # rests r s"
| "rests (Star r) s = remdups (rounds (length s) (rests r) s)"
| "rests (Upto n r) s = remdups (rounds n (rests r) s)"

definition regex_test :: "regex \<Rightarrow> jsstring \<Rightarrow> bool" where
  "regex_test r s \<longleftrightarrow> [] \<in> set (rests r s)"

text \<open>The matcher decides the language of the expression.\<close>

lemma set_rounds:
  assumes "\<And>s. set (m s) = {t. \<exists>x \<in> L. s = x @ t}"
  shows "set (rounds n m s) =
    {t. \<exists>ws. s = concat ws @ t \<and> set ws \<subseteq> L - {[]} \<and> length ws \<le> n}"
proof (induction n arbitrary: s)
  case 0
  then show ?case by auto
next
  case (Suc n)
  have "t \<in> set (rounds (Suc n) m s) \<longleftrightarrow>
      t = s \<or> (\<exists>x \<in> L - {[]}. \<exists>u. s = x @ u \<and> t \<in> set (rounds n m u))" for t
    using assms by auto
  also have "\<dots> t \<longleftrightarrow>
      (\<exists>ws. s = concat ws @ t \<and> set ws \<subseteq> L - {[]} \<and> length ws \<le> Suc n)" for t
  proof
    assume "t = s \<or> (\<exists>x \<in> L - {[]}. \<exists>u. s = x @ u \<and> t \<in> set (rounds n m u))"
    then show "\<exists>ws. s = concat ws @ t \<and> set ws \<subseteq> L - {[]} \<and> length ws \<le> Suc n"
    proof
      assume "t = s"
      then show ?thesis by (intro exI[of _ "[]"]) simp
    next
      assume "\<exists>x \<in> L - {[]}. \<exists>u. s = x @ u \<and> t \<in> set (rounds n m u)"
      then obtain x u ws where "x \<in> L - {[]}" "s = x @ u" "u = concat ws @ t"
        "set ws \<subseteq> L - {[]}" "length ws \<le> n"
        using Suc.IH by auto
      then show ?thesis by (intro exI[of _ "x # ws"]) simp
    qed
  next
    assume "\<exists>ws. s = concat ws @ t \<and> set ws \<subseteq> L - {[]} \<and> length ws \<le> Suc n"
    then obtain ws where ws: "s = concat ws @ t" "set ws \<subseteq> L - {[]}" "length ws \<le> Suc n"
      by blast
    show "t = s \<or> (\<exists>x \<in> L - {[]}. \<exists>u. s = x @ u \<and> t \<in> set (rounds n m u))"
    proof (cases ws)
      case Nil
      with ws show ?thesis by simp
    next
      case (Cons x vs)
      with ws have "t \<in> set (rounds n m (concat vs @ t))"
        unfolding Suc.IH by auto
      with ws Cons show ?thesis by auto
    qed
  qed
  finally show ?case by blast
qed

lemma concat_filter_nonempty: "concat (filter (\<lambda>w. w \<noteq> []) ws) = concat ws"
  by (induction ws) auto

lemma length_le_concat: "\<forall>w \<in> set ws. w \<noteq> [] \<Longrightarrow> length ws \<le> length (concat ws)"
proof (induction ws)
  case (Cons w ws)
  then show ?case by (cases w) auto
qed simp

lemma set_rests: "set (rests r s) = {t. \<exists>x \<in> lang r. s = x @ t}"
proof (induction r arbitrary: s)
  case (One_of rs)
  then show ?case by (cases s) auto
next
  case (Seq r1 r2)
  then show ?case by (auto; metis append_assoc)
next
  case (Alt r1 r2)
  then show ?case by auto
next
  case (Opt r)
  then show ?case by auto
next
  case (Star r)
  have "(\<exists>ws. s = concat ws @ t \<and> set ws \<subseteq> lang r - {[]} \<and> length ws \<le> length s) \<longleftrightarrow>
      (\<exists>ws. s = concat ws @ t \<and> set ws \<subseteq> lang r)" for t
  proof
    assume "\<exists>ws. s = concat ws @ t \<and> set ws \<subseteq> lang r"
    then obtain ws where ws: "s = concat ws @ t" "set ws \<subseteq> lang r" by blast
    let ?vs = "filter (\<lambda>w. w \<noteq> []) ws"
    have "length ?vs \<le> length (concat ?vs)" by (rule length_le_concat) simp
    then have "length ?vs \<le> length s" using ws by (simp add: concat_filter_nonempty)
    then show "\<exists>ws. s = concat ws @ t \<and> set ws \<subseteq> lang r - {[]} \<and> length ws \<le> length s"
      using ws by (intro exI[of _ ?vs]) (auto simp: concat_filter_nonempty)
  qed auto
  then show ?case by (auto simp: set_rounds[OF Star.IH])
next
  case (Upto n r)
  have "(\<exists>ws. s = concat ws @ t \<and> set ws \<subseteq> lang r - {[]} \<and> length ws \<le> n) \<longleftrightarrow>
      (\<exists>ws. s = concat ws @ t \<and> set ws \<subseteq> lang r \<and> length ws \<le> n)" for t
  proof
    assume "\<exists>ws. s = concat ws @ t \<and> set ws \<subseteq> lang r \<and> length ws \<le> n"
    then obtain ws where ws: "s = concat ws @ t" "set ws \<subseteq> lang r" "length ws \<le> n" by blast
    then show "\<exists>ws. s = concat ws @ t \<and> set ws \<subseteq> lang r - {[]} \<and> length ws \<le> n"
      by (intro exI[of _ "filter (\<lambda>w. w \<noteq> []) ws"])
        (auto simp: concat_filter_nonempty intro: order_trans[OF length_filter_le])
  qed auto
  then show ?case by (auto simp: set_rounds[OF Upto.IH])
qed

lemma regex_test_iff: "regex_test r s \<longleftrightarrow> s \<in> lang r"
  by (auto simp: regex_test_def set_rests)

text \<open>A repeated character class is a bound on the characters, and on the length.\<close>

lemma concat_singles: "(\<exists>ws. t = concat ws \<and> set ws \<subseteq> {[c] | c. P c} \<and> length ws \<le> n) \<longleftrightarrow>
    (\<forall>c \<in> set t. P c) \<and> length t \<le> n"
proof
  assume "\<exists>ws. t = concat ws \<and> set ws \<subseteq> {[c] | c. P c} \<and> length ws \<le> n"
  then obtain ws where ws: "t = concat ws" "set ws \<subseteq> {[c] | c. P c}" "length ws \<le> n" by blast
  from ws(2) have "(\<forall>c \<in> set (concat ws). P c) \<and> length (concat ws) = length ws"
    by (induction ws) auto
  with ws show "(\<forall>c \<in> set t. P c) \<and> length t \<le> n" by simp
next
  assume "(\<forall>c \<in> set t. P c) \<and> length t \<le> n"
  then show "\<exists>ws. t = concat ws \<and> set ws \<subseteq> {[c] | c. P c} \<and> length ws \<le> n"
    by (intro exI[of _ "map (\<lambda>c. [c]) t"]) auto
qed

lemma lang_Upto_class: "lang (Upto n (One_of rs)) = {t. (\<forall>c \<in> set t. in_class rs c) \<and> length t \<le> n}"
  using concat_singles[of _ "in_class rs" n] by auto

lemma lang_Star_class: "lang (Star (One_of rs)) = {t. \<forall>c \<in> set t. in_class rs c}"
proof -
  have "t \<in> lang (Star (One_of rs)) \<longleftrightarrow> (\<forall>c \<in> set t. in_class rs c)" for t
  proof
    assume "t \<in> lang (Star (One_of rs))"
    then obtain ws where "t = concat ws" "set ws \<subseteq> {[c] | c. in_class rs c}" by auto
    then show "\<forall>c \<in> set t. in_class rs c"
      using concat_singles[of t "in_class rs" "length ws"] by blast
  next
    assume "\<forall>c \<in> set t. in_class rs c"
    then show "t \<in> lang (Star (One_of rs))"
      using concat_singles[of t "in_class rs" "length t"] by auto
  qed
  then show ?thesis by blast
qed

lemma lang_Seq_head: "lang (Seq (One_of A) r) = {c # t | c t. in_class A c \<and> t \<in> lang r}"
proof -
  have "c # t \<in> lang (Seq (One_of A) r)" if "in_class A c" "t \<in> lang r" for c t
    unfolding lang.simps using that by (intro CollectI exI[of _ "[c]"] exI[of _ t]) simp
  then show ?thesis by (intro set_eqI iffI) auto
qed

lemma lang_Seq_last: "lang (Seq r (One_of A)) = {t @ [d] | t d. t \<in> lang r \<and> in_class A d}"
  by (rule set_eqI) auto

lemma join_Nil [simp]: "join [] xs = concat xs"
  by (induction "[] :: jsstring" xs rule: join.induct) auto

end
