(* ===== verification/JsNumber.thy ===== *)
theory JsNumber
  imports JsText
begin

section \<open>Numbers of the language\<close>

text \<open>
  A number is \<open>NaN\<close>, an infinity or a finite value.  Finite values are exact rationals: literals and
  sums are not rounded to 53 bits, so the model and the program agree on every value a double
  represents, and on decimals of up to fifteen digits.  \<open>Number\<close> is the conversion of a string,
  with its decimal, hexadecimal, octal and binary forms; \<open>num_String\<close> is \<open>String(n)\<close> for numbers
  printed without an exponent.
\<close>

datatype jsnum = NaN | PosInf | NegInf | Fin rat

definition of_whole :: "int \<Rightarrow> jsnum" where
  "of_whole i = Fin (of_int i)"

definition isFinite :: "jsnum \<Rightarrow> bool" where
  "isFinite n = (case n of Fin _ \<Rightarrow> True | _ \<Rightarrow> False)"

text \<open>\<open>Number.isInteger\<close>, with the integer it found.\<close>

definition integer_of :: "jsnum \<Rightarrow> int option" where
  "integer_of n = (case n of Fin r \<Rightarrow> if of_int \<lfloor>r\<rfloor> = r then Some \<lfloor>r\<rfloor> else None | _ \<Rightarrow> None)"

definition isInteger :: "jsnum \<Rightarrow> bool" where
  "isInteger n \<longleftrightarrow> integer_of n \<noteq> None"

definition isSafeInteger :: "jsnum \<Rightarrow> bool" where
  "isSafeInteger n = (case integer_of n of None \<Rightarrow> False | Some i \<Rightarrow> \<bar>i\<bar> \<le> 2 ^ 53 - 1)"

lemma integer_of_Some: "integer_of n = Some i \<longleftrightarrow> n = of_whole i"
  by (auto simp: integer_of_def of_whole_def split: jsnum.splits)

lemma integer_of_whole [simp]: "integer_of (of_whole i) = Some i"
  by (simp add: integer_of_Some)

lemma of_whole_inject [simp]: "of_whole i = of_whole j \<longleftrightarrow> i = j"
  by (simp add: of_whole_def)

text \<open>Comparisons and sums: every comparison with \<open>NaN\<close> is false.\<close>

fun num_le :: "jsnum \<Rightarrow> jsnum \<Rightarrow> bool" where
  "num_le (Fin a) (Fin b) \<longleftrightarrow> a \<le> b"
| "num_le NaN _ \<longleftrightarrow> False"
| "num_le _ NaN \<longleftrightarrow> False"
| "num_le NegInf _ \<longleftrightarrow> True"
| "num_le _ PosInf \<longleftrightarrow> True"
| "num_le _ _ \<longleftrightarrow> False"

fun num_less :: "jsnum \<Rightarrow> jsnum \<Rightarrow> bool" where
  "num_less (Fin a) (Fin b) \<longleftrightarrow> a < b"
| "num_less NaN _ \<longleftrightarrow> False"
| "num_less _ NaN \<longleftrightarrow> False"
| "num_less NegInf NegInf \<longleftrightarrow> False"
| "num_less NegInf _ \<longleftrightarrow> True"
| "num_less PosInf _ \<longleftrightarrow> False"
| "num_less _ PosInf \<longleftrightarrow> True"
| "num_less _ NegInf \<longleftrightarrow> False"

fun num_add :: "jsnum \<Rightarrow> jsnum \<Rightarrow> jsnum" where
  "num_add (Fin a) (Fin b) = Fin (a + b)"
| "num_add NaN _ = NaN"
| "num_add _ NaN = NaN"
| "num_add PosInf NegInf = NaN"
| "num_add NegInf PosInf = NaN"
| "num_add PosInf _ = PosInf"
| "num_add _ PosInf = PosInf"
| "num_add NegInf _ = NegInf"
| "num_add _ NegInf = NegInf"

definition num_ceil :: "jsnum \<Rightarrow> jsnum" where
  "num_ceil n = (case n of Fin r \<Rightarrow> of_whole \<lceil>r\<rceil> | _ \<Rightarrow> n)"

text \<open>\<open>Math.min\<close>: \<open>NaN\<close> wins.\<close>

definition num_min :: "jsnum \<Rightarrow> jsnum \<Rightarrow> jsnum" where
  "num_min a b = (if a = NaN \<or> b = NaN then NaN else if num_le a b then a else b)"

subsection \<open>Reading a number\<close>

definition ten_to :: "int \<Rightarrow> rat" where
  "ten_to e = (if 0 \<le> e then 10 ^ nat e else 1 / 10 ^ nat (- e))"

text \<open>An exponent part, which may be absent: \<open>e\<close> or \<open>E\<close>, an optional sign, digits to the end.\<close>

definition read_exponent :: "jsstring \<Rightarrow> int option" where
  "read_exponent s =
     (case s of
        [] \<Rightarrow> Some 0
      | c # r \<Rightarrow>
          if c \<noteq> 101 \<and> c \<noteq> 69 then None
          else
            (let neg = (r \<noteq> [] \<and> hd r = 45);
                 ds = (if r \<noteq> [] \<and> (hd r = 45 \<or> hd r = 43) then tl r else r)
             in if ds = [] \<or> \<not> list_all is_digit ds then None
                else Some (if neg then - int (digits_val ds) else int (digits_val ds))))"

definition read_decimal :: "jsstring \<Rightarrow> rat option" where
  "read_decimal s =
     (let whole = takeWhile is_digit s;
          r1 = dropWhile is_digit s;
          dot = (r1 \<noteq> [] \<and> hd r1 = 46);
          frac = (if dot then takeWhile is_digit (tl r1) else []);
          r2 = (if dot then dropWhile is_digit (tl r1) else r1)
      in if whole = [] \<and> frac = [] then None
         else map_option
           (\<lambda>e. of_nat (digits_val (whole @ frac)) * ten_to (e - int (length frac)))
           (read_exponent r2))"

definition digit_of :: "nat \<Rightarrow> nat option" where
  "digit_of c =
     (if 48 \<le> c \<and> c \<le> 57 then Some (c - 48)
      else if 97 \<le> c \<and> c \<le> 102 then Some (c - 87)
      else if 65 \<le> c \<and> c \<le> 70 then Some (c - 55)
      else None)"

fun read_radix :: "nat \<Rightarrow> nat \<Rightarrow> jsstring \<Rightarrow> nat option" where
  "read_radix b a [] = Some a"
| "read_radix b a (c # s) =
     (case digit_of c of
        None \<Rightarrow> None
      | Some d \<Rightarrow> if d < b then read_radix b (b * a + d) s else None)"

definition read_prefixed :: "nat \<Rightarrow> jsstring \<Rightarrow> jsnum" where
  "read_prefixed b s =
     (if s = [] then NaN
      else case read_radix b 0 s of None \<Rightarrow> NaN | Some n \<Rightarrow> Fin (of_nat n))"

definition read_signed :: "jsstring \<Rightarrow> jsnum" where
  "read_signed t =
     (let neg = (t \<noteq> [] \<and> hd t = 45);
          u = (if t \<noteq> [] \<and> (hd t = 45 \<or> hd t = 43) then tl t else t)
      in if u = js ''Infinity'' then (if neg then NegInf else PosInf)
         else case read_decimal u of
                None \<Rightarrow> NaN
              | Some r \<Rightarrow> Fin (if neg then - r else r))"

definition js_Number :: "jsstring \<Rightarrow> jsnum" where
  "js_Number s =
     (let t = trim s in
      if t = [] then Fin 0
      else if startsWith (js ''0x'') t \<or> startsWith (js ''0X'') t then read_prefixed 16 (drop 2 t)
      else if startsWith (js ''0o'') t \<or> startsWith (js ''0O'') t then read_prefixed 8 (drop 2 t)
      else if startsWith (js ''0b'') t \<or> startsWith (js ''0B'') t then read_prefixed 2 (drop 2 t)
      else read_signed t)"

subsection \<open>Printing a number\<close>

fun frac_digits :: "nat \<Rightarrow> rat \<Rightarrow> jsstring" where
  "frac_digits 0 r = []"
| "frac_digits (Suc n) r =
     (if r = 0 then [] else (48 + nat \<lfloor>10 * r\<rfloor>) # frac_digits n (10 * r - of_int \<lfloor>10 * r\<rfloor>))"

definition show_rat :: "rat \<Rightarrow> jsstring" where
  "show_rat r =
     (let a = \<bar>r\<bar> in
      (if r < 0 then [45] else []) @ show_nat (nat \<lfloor>a\<rfloor>)
        @ (if of_int \<lfloor>a\<rfloor> = a then [] else 46 # frac_digits 17 (a - of_int \<lfloor>a\<rfloor>)))"

definition num_String :: "jsnum \<Rightarrow> jsstring" where
  "num_String n =
     (case n of NaN \<Rightarrow> js ''NaN'' | PosInf \<Rightarrow> js ''Infinity'' | NegInf \<Rightarrow> js ''-Infinity''
      | Fin r \<Rightarrow> show_rat r)"

lemma num_String_whole: "num_String (of_whole i) = show_int i"
  by (auto simp: num_String_def of_whole_def show_rat_def show_int_def Let_def
      simp flip: of_int_minus)

text \<open>
  Reading back what was printed: \<open>Number(String(i))\<close> is \<open>i\<close> for every whole number, so a port or
  a count survives its trip through text.
\<close>

lemma digits_not_space: "is_digit c \<Longrightarrow> \<not> is_space c"
  by (auto simp: is_digit_def is_space_def)

lemma read_decimal_digits:
  assumes "ds \<noteq> []" and "\<forall>c \<in> set ds. is_digit c"
  shows "read_decimal ds = Some (of_nat (digits_val ds))"
proof -
  have tw: "takeWhile is_digit ds = ds" and dw: "dropWhile is_digit ds = []"
    using assms by (auto simp: takeWhile_eq_all_conv dropWhile_eq_Nil_conv)
  show ?thesis
    using assms(1) by (simp add: tw dw read_decimal_def read_exponent_def ten_to_def Let_def)
qed

lemma no_radix_prefix:
  assumes "\<forall>c \<in> set t. is_digit c \<or> c = 45"
  shows "\<not> startsWith (js ''0x'') t" "\<not> startsWith (js ''0X'') t"
    "\<not> startsWith (js ''0o'') t" "\<not> startsWith (js ''0O'') t"
    "\<not> startsWith (js ''0b'') t" "\<not> startsWith (js ''0B'') t"
  using assms by (auto simp: startsWith_iff js_def is_digit_def)

lemma Number_show_nat: "js_Number (show_nat n) = Fin (of_nat n)"
proof -
  have d: "\<forall>c \<in> set (show_nat n). is_digit c" by (rule show_nat_digits)
  then have t: "trim (show_nat n) = show_nat n" using digits_not_space by simp
  have h: "is_digit (hd (show_nat n))" using d by simp
  then have "hd (show_nat n) \<noteq> 45" "hd (show_nat n) \<noteq> 43" by (auto simp: is_digit_def)
  moreover have "show_nat n \<noteq> js ''Infinity''"
    using d by (auto simp: js_def is_digit_def)
  ultimately show ?thesis
    using d by (simp add: js_Number_def Let_def t no_radix_prefix read_signed_def
        read_decimal_digits)
qed

lemma Number_show_int [simp]: "js_Number (show_int i) = of_whole i"
proof (cases "i < 0")
  case False
  then show ?thesis by (simp add: show_int_def Number_show_nat of_whole_def)
next
  case True
  let ?n = "nat (- i)"
  let ?t = "45 # show_nat ?n"
  have d: "\<forall>c \<in> set (show_nat ?n). is_digit c" by (rule show_nat_digits)
  moreover have "\<not> is_space 45" by (simp add: is_space_def)
  ultimately have "\<forall>c \<in> set ?t. \<not> is_space c" using digits_not_space by auto
  then have t: "trim ?t = ?t" by (rule trim_no_space)
  have "show_nat ?n \<noteq> js ''Infinity''"
    using d by (auto simp: js_def is_digit_def)
  moreover have "\<forall>c \<in> set ?t. is_digit c \<or> c = 45" using d by simp
  ultimately have "js_Number ?t = Fin (- of_nat ?n)"
    using d by (simp add: js_Number_def Let_def t no_radix_prefix read_signed_def
        read_decimal_digits)
  moreover have "of_nat ?n = (- of_int i :: rat)" using True by simp
  ultimately show ?thesis using True by (simp add: show_int_def of_whole_def)
qed

end
