(* ===== verification/Utf8.thy ===== *)
theory Utf8
  imports JsText "HOL-Library.Word"
begin

section \<open>UTF-8\<close>

text \<open>
  A \<open>Uint8Array\<close> is a list of bytes.  The decoder is the state machine of the Encoding Standard:
  a state, a step per byte, and the code points each step puts out, None standing for a
  malformed sequence.  The decoders the sources use run it in three ways: fatal (a malformed
  sequence fails the whole text), replacing (U+FFFD) over a complete body, and replacing over a
  stream of chunks, where the state carries over from chunk to chunk and a byte order mark at the
  start is dropped.  \<open>utf8_bytes\<close> encodes a string, and \<open>utf8_fatal_bytes\<close> is the
  round trip the session capture depends on.
\<close>

type_synonym byte = "8 word"

datatype utf8_state =
    Start
  | More nat nat nat nat    \<comment> \<open>bytes to come, bits so far, least and greatest next byte\<close>

definition utf8_lead :: "nat \<Rightarrow> utf8_state \<times> nat option list" where
  "utf8_lead b =
     (if b \<le> 127 then (Start, [Some b])
      else if 194 \<le> b \<and> b \<le> 223 then (More 1 (b - 192) 128 191, [])
      else if 224 \<le> b \<and> b \<le> 239 then
        (More 2 (b - 224) (if b = 224 then 160 else 128) (if b = 237 then 159 else 191), [])
      else if 240 \<le> b \<and> b \<le> 244 then
        (More 3 (b - 240) (if b = 240 then 144 else 128) (if b = 244 then 143 else 191), [])
      else (Start, [None]))"

fun utf8_step :: "utf8_state \<Rightarrow> nat \<Rightarrow> utf8_state \<times> nat option list" where
  "utf8_step Start b = utf8_lead b"
| "utf8_step (More n cp lo hi) b =
     (if lo \<le> b \<and> b \<le> hi then
        (if n = 1 then (Start, [Some (64 * cp + (b - 128))])
         else (More (n - 1) (64 * cp + (b - 128)) 128 191, []))
      else (fst (utf8_lead b), None # snd (utf8_lead b)))"

fun utf8_run :: "utf8_state \<Rightarrow> byte list \<Rightarrow> utf8_state \<times> nat option list" where
  "utf8_run st [] = (st, [])"
| "utf8_run st (b # bs) =
     (let (st1, out1) = utf8_step st (unat b); (st2, out2) = utf8_run st1 bs in (st2, out1 @ out2))"

text \<open>A chunk boundary changes nothing: the machine run over two chunks is its run over both.\<close>

lemma utf8_run_append:
  "utf8_run st (bs @ cs) =
     (fst (utf8_run (fst (utf8_run st bs)) cs),
      snd (utf8_run st bs) @ snd (utf8_run (fst (utf8_run st bs)) cs))"
  by (induction bs arbitrary: st) (simp_all add: case_prod_beta Let_def)

subsection \<open>Code points and code units\<close>

definition utf16 :: "nat \<Rightarrow> jsstring" where
  "utf16 cp =
     (if cp < 65536 then [cp]
      else [55296 + (cp - 65536) div 1024, 56320 + (cp - 65536) mod 1024])"

definition is_high :: "nat \<Rightarrow> bool" where "is_high u \<longleftrightarrow> 55296 \<le> u \<and> u \<le> 56319"
definition is_low :: "nat \<Rightarrow> bool" where "is_low u \<longleftrightarrow> 56320 \<le> u \<and> u \<le> 57343"

text \<open>The code points of a string; a surrogate without its partner has none.\<close>

fun code_points :: "jsstring \<Rightarrow> nat option list" where
  "code_points [] = []"
| "code_points [u] = [if is_high u \<or> is_low u then None else Some u]"
| "code_points (u # v # s) =
     (if is_high u \<and> is_low v then Some (65536 + 1024 * (u - 55296) + (v - 56320)) # code_points s
      else (if is_high u \<or> is_low u then None else Some u) # code_points (v # s))"

definition scalar :: "nat \<Rightarrow> bool" where
  "scalar cp \<longleftrightarrow> cp < 55296 \<or> (57344 \<le> cp \<and> cp < 1114112)"

lemma code_points_utf16: "scalar cp \<Longrightarrow> code_points (utf16 cp @ s) = Some cp # code_points s"
proof (cases "cp < 65536")
  case True
  assume "scalar cp"
  with True show ?thesis
    by (cases s) (auto simp: utf16_def scalar_def is_high_def is_low_def)
next
  case False
  assume "scalar cp"
  then have "(cp - 65536) div 1024 < 1024" and m: "(cp - 65536) mod 1024 < 1024"
    by (auto simp: scalar_def div_less_iff_less_mult)
  then have "is_high (55296 + (cp - 65536) div 1024)" and "is_low (56320 + (cp - 65536) mod 1024)"
    by (auto simp: is_high_def is_low_def)
  moreover have "65536 + (1024 * ((cp - 65536) div 1024) + (cp - 65536) mod 1024) = cp"
    using False by (subst mult_div_mod_eq) simp
  ultimately show ?thesis using False by (simp add: utf16_def)
qed

lemma code_points_concat: "\<forall>cp \<in> set cps. scalar cp \<Longrightarrow> code_points (concat (map utf16 cps)) = map Some cps"
  by (induction cps) (simp_all add: code_points_utf16)

subsection \<open>Encoding\<close>

definition utf8_encode :: "nat \<Rightarrow> nat list" where
  "utf8_encode cp =
     (if cp < 128 then [cp]
      else if cp < 2048 then [192 + cp div 64, 128 + cp mod 64]
      else if cp < 65536 then [224 + cp div 4096, 128 + cp div 64 mod 64, 128 + cp mod 64]
      else [240 + cp div 262144, 128 + cp div 4096 mod 64, 128 + cp div 64 mod 64, 128 + cp mod 64])"

text \<open>\<open>Buffer.from(s, 'utf8')\<close>: a lone surrogate is encoded as U+FFFD.\<close>

definition replacement :: "nat option \<Rightarrow> nat" where
  "replacement c = (case c of None \<Rightarrow> 65533 | Some cp \<Rightarrow> cp)"

definition utf8_bytes :: "jsstring \<Rightarrow> byte list" where
  "utf8_bytes s = map of_nat (concat (map (utf8_encode \<circ> replacement) (code_points s)))"

subsection \<open>The decoders\<close>

definition utf8_flush :: "utf8_state \<Rightarrow> nat option list" where
  "utf8_flush st = (case st of Start \<Rightarrow> [] | More _ _ _ _ \<Rightarrow> [None])"

definition utf8_points :: "byte list \<Rightarrow> nat option list" where
  "utf8_points bs = (let (st, out) = utf8_run Start bs in out @ utf8_flush st)"

text \<open>\<open>new TextDecoder('utf-8', {fatal: true, ignoreBOM: true}).decode\<close>; None is its throw.\<close>

definition utf8_fatal :: "byte list \<Rightarrow> jsstring option" where
  "utf8_fatal bs =
     (if None \<in> set (utf8_points bs) then None
      else Some (concat (map (utf16 \<circ> replacement) (utf8_points bs))))"

text \<open>\<open>Buffer.toString('utf8')\<close>, which keeps a byte order mark.\<close>

definition buffer_text :: "byte list \<Rightarrow> jsstring" where
  "buffer_text bs = concat (map (utf16 \<circ> replacement) (utf8_points bs))"

text \<open>\<open>response.text()\<close>, which drops one.\<close>

definition drop_bom :: "jsstring \<Rightarrow> jsstring" where
  "drop_bom s = (if s \<noteq> [] \<and> hd s = 65279 then tl s else s)"

definition body_text :: "byte list \<Rightarrow> jsstring" where
  "body_text bs = drop_bom (buffer_text bs)"

subsection \<open>Decoding, then encoding\<close>

text \<open>
  The bytes a state has consumed can be read off its bits; \<open>st_ok\<close> is what the machine keeps true
  of them.
\<close>

fun st_ok :: "utf8_state \<Rightarrow> bool" where
  "st_ok Start \<longleftrightarrow> True"
| "st_ok (More n cp lo hi) \<longleftrightarrow>
     (n = 1 \<and> 2 \<le> cp \<and> cp < 17408 \<and> \<not> (864 \<le> cp \<and> cp < 896) \<and> lo = 128 \<and> hi = 191) \<or>
     (n = 2 \<and> cp < 16 \<and> lo = (if cp = 0 then 160 else 128) \<and> hi = (if cp = 13 then 159 else 191)) \<or>
     (n = 2 \<and> 16 \<le> cp \<and> cp < 272 \<and> lo = 128 \<and> hi = 191) \<or>
     (n = 3 \<and> cp < 5 \<and> lo = (if cp = 0 then 144 else 128) \<and> hi = (if cp = 4 then 143 else 191))"

fun consumed :: "utf8_state \<Rightarrow> nat list" where
  "consumed Start = []"
| "consumed (More n cp lo hi) =
     (if n = 1 then
        (if cp < 32 then [192 + cp]
         else if cp < 1024 then [224 + cp div 64, 128 + cp mod 64]
         else [240 + cp div 4096, 128 + cp div 64 mod 64, 128 + cp mod 64])
      else if n = 2 then
        (if cp < 16 then [224 + cp] else [240 + cp div 64, 128 + cp mod 64])
      else [240 + cp])"

lemma utf8_lead_ok:
  "b < 256 \<Longrightarrow> st_ok (fst (utf8_lead b))"
  "snd (utf8_lead b) = [] \<Longrightarrow> consumed (fst (utf8_lead b)) = [b]"
  "snd (utf8_lead b) = [Some c] \<Longrightarrow> fst (utf8_lead b) = Start \<and> utf8_encode c = [b] \<and> scalar c"
  by (auto simp: utf8_lead_def utf8_encode_def scalar_def split: if_splits)

lemma sixty_four: "(64 * a + d) div 64 = a" "(64 * a + d) mod 64 = d" if "d < 64" for a d :: nat
  using that by auto

lemma cont_step:
  assumes ok: "st_ok (More n cp lo hi)" and b: "lo \<le> b" "b \<le> hi" "b < 256"
    and st': "utf8_step (More n cp lo hi) b = (st', out)"
  shows "st_ok st'" and "out = [] \<Longrightarrow> consumed st' = consumed (More n cp lo hi) @ [b]"
    and "out = [Some c] \<Longrightarrow> st' = Start \<and> utf8_encode c = consumed (More n cp lo hi) @ [b] \<and> scalar c"
proof -
  define d where "d = b - 128"
  have d: "b = 128 + d" "d < 64"
    using ok b by (auto simp: d_def split: if_splits)
  have quarter: "(64 * cp + d) div 4096 = cp div 64" "(64 * cp + d) div 64 mod 64 = cp mod 64"
    "(64 * cp + d) div 4096 mod 64 = cp div 64 mod 64" "(64 * cp + d) div 262144 = cp div 4096"
    using d(2) div_mult2_eq[of "64 * cp + d" 64 64] div_mult2_eq[of "64 * cp + d" 64 4096]
    by (simp_all add: sixty_four)
  have bounds: "(832 + d) div 64 = 13" "(832 + d) mod 64 = d" "(256 + d) div 64 = 4"
    "(256 + d) mod 64 = d"
    using sixty_four[OF d(2), of 13] sixty_four[OF d(2), of 4] by simp_all
  consider (one) "n = 1" | (two) "n = 2" | (three) "n = 3"
    using ok by auto
  note cases = this
  show "st_ok st'"
    using cases ok b st' by cases (auto simp: d split: if_splits)
  show "out = [] \<Longrightarrow> consumed st' = consumed (More n cp lo hi) @ [b]"
    using cases ok b st'
    by cases (auto simp: d sixty_four quarter bounds split: if_splits)
  show "out = [Some c] \<Longrightarrow> st' = Start \<and> utf8_encode c = consumed (More n cp lo hi) @ [b] \<and> scalar c"
    using cases ok b st'
    by cases (auto simp: d sixty_four quarter utf8_encode_def scalar_def split: if_splits)
qed

lemma utf8_step_ok:
  assumes "st_ok st" and "b < 256" and step: "utf8_step st b = (st', out)" and "None \<notin> set out"
  shows "st_ok st'" and "(out = [] \<and> consumed st' = consumed st @ [b]) \<or>
    (\<exists>c. out = [Some c] \<and> st' = Start \<and> utf8_encode c = consumed st @ [b] \<and> scalar c)"
proof -
  have lead: "st_ok (fst (utf8_lead b))"
    "(snd (utf8_lead b) = [] \<and> consumed (fst (utf8_lead b)) = [b]) \<or>
     (\<exists>c. snd (utf8_lead b) = [Some c]) \<or> snd (utf8_lead b) = [None]"
    using utf8_lead_ok(1)[OF assms(2)] by (auto simp: utf8_lead_def split: if_splits)
  show "st_ok st'"
  proof (cases st)
    case Start
    with step lead show ?thesis by (metis fst_conv utf8_step.simps(1))
  next
    case (More n cp lo hi)
    with assms show ?thesis using cont_step(1)[of n cp lo hi b st' out]
      by (auto split: if_splits simp del: st_ok.simps)
  qed
  show "(out = [] \<and> consumed st' = consumed st @ [b]) \<or>
    (\<exists>c. out = [Some c] \<and> st' = Start \<and> utf8_encode c = consumed st @ [b] \<and> scalar c)"
  proof (cases st)
    case Start
    with step have "utf8_lead b = (st', out)" by simp
    with Start lead(2) utf8_lead_ok(3)[of b] assms(4) show ?thesis by fastforce
  next
    case (More n cp lo hi)
    with assms(4) step have r: "lo \<le> b" "b \<le> hi" by (auto split: if_splits)
    moreover have "out = [] \<or> (\<exists>c. out = [Some c])"
      using step More r by (auto split: if_splits)
    ultimately show ?thesis
      using cont_step(2,3)[OF assms(1)[unfolded More] r assms(2) step[unfolded More]] More by blast
  qed
qed

lemma utf8_run_encode:
  assumes "st_ok st" and "utf8_run st bs = (Start, out)" and "None \<notin> set out"
  shows "\<exists>cps. out = map Some cps \<and> (\<forall>c \<in> set cps. scalar c) \<and>
    consumed st @ map unat bs = concat (map utf8_encode cps)"
  using assms
proof (induction bs arbitrary: st out)
  case Nil
  then show ?case by (intro exI[of _ "[]"]) auto
next
  case (Cons b bs)
  obtain st1 out1 where step: "utf8_step st (unat b) = (st1, out1)" by fastforce
  then obtain out2 where run: "utf8_run st1 bs = (Start, out2)" and out: "out = out1 @ out2"
    using Cons.prems(2) by (auto simp: Let_def split: prod.splits)
  have b: "unat b < 256" using unsigned_less[of b] by simp
  have none: "None \<notin> set out1" "None \<notin> set out2" using Cons.prems(3) out by auto
  note ok = utf8_step_ok[OF Cons.prems(1) b step none(1)]
  obtain cps where cps: "out2 = map Some cps" "\<forall>c \<in> set cps. scalar c"
    "consumed st1 @ map unat bs = concat (map utf8_encode cps)"
    using Cons.IH[OF ok(1) run none(2)] by blast
  from ok(2) show ?case
  proof
    assume "out1 = [] \<and> consumed st1 = consumed st @ [unat b]"
    with cps out show ?thesis by (intro exI[of _ cps]) auto
  next
    assume "\<exists>c. out1 = [Some c] \<and> st1 = Start \<and> utf8_encode c = consumed st @ [unat b] \<and> scalar c"
    then obtain c where "out1 = [Some c]" "st1 = Start" "utf8_encode c = consumed st @ [unat b]" "scalar c"
      by blast
    with cps out show ?thesis by (intro exI[of _ "c # cps"]) auto
  qed
qed

text \<open>A text decoded without a malformed sequence encodes back to the bytes it came from.\<close>

lemma utf8_fatal_bytes:
  assumes "utf8_fatal bs = Some t"
  shows "utf8_bytes t = bs"
proof -
  obtain st out where run: "utf8_run Start bs = (st, out)" by fastforce
  with assms have "st = Start" "None \<notin> set out" and t: "t = concat (map (utf16 \<circ> replacement) out)"
    by (auto simp: utf8_fatal_def utf8_points_def utf8_flush_def split: if_splits utf8_state.splits)
  then obtain cps where cps: "out = map Some cps" "\<forall>c \<in> set cps. scalar c"
    "map unat bs = concat (map utf8_encode cps)"
    using utf8_run_encode[of Start bs out] run by auto
  then have "t = concat (map utf16 cps)" by (simp add: t replacement_def comp_def)
  then have "utf8_bytes t = map of_nat (map unat bs)"
    using cps by (simp add: utf8_bytes_def code_points_concat replacement_def comp_def)
  then show ?thesis by (simp add: comp_def)
qed

subsection \<open>Encoding, then decoding\<close>

lemma utf8_run_Cons: "b < 256 \<Longrightarrow> utf8_run st (of_nat b # bs) =
   (fst (utf8_run (fst (utf8_step st b)) bs), snd (utf8_step st b) @ snd (utf8_run (fst (utf8_step st b)) bs))"
  by (simp add: Let_def case_prod_beta unat_of_nat take_bit_nat_def)

lemma utf8_run_scalar:
  assumes "scalar cp"
  shows "utf8_run Start (map of_nat (utf8_encode cp)) = (Start, [Some cp])"
proof -
  define d m n q where "d = cp mod 64" and "m = cp div 64 mod 64" and "n = cp div 4096 mod 64" and "q = cp div 262144"
  have d: "d < 64" and m: "m < 64" and n: "n < 64" by (simp_all add: d_def m_def n_def)
  have parts: "cp = 64 * (64 * (64 * q + n) + m) + d" "cp div 4096 = 64 * q + n" "cp div 64 = 64 * (64 * q + n) + m"
  proof -
    have a: "cp = 64 * (cp div 64) + d" by (simp add: d_def)
    have b: "cp div 64 = 64 * (cp div 4096) + m" unfolding m_def
      using div_mult2_eq[of cp 64 64] mult_div_mod_eq[of 64 "cp div 64"] by simp
    have c: "cp div 4096 = 64 * q + n" unfolding n_def q_def
      using div_mult2_eq[of cp 4096 64] mult_div_mod_eq[of 64 "cp div 4096"] by simp
    from a b c show "cp = 64 * (64 * (64 * q + n) + m) + d" "cp div 4096 = 64 * q + n"
      "cp div 64 = 64 * (64 * q + n) + m" by simp_all
  qed
  have flat: "cp = 262144 * q + 4096 * n + 64 * m + d" using parts(1) by simp
  have cp: "cp < 1114112" "cp < 55296 \<or> 57344 \<le> cp" using assms by (auto simp: scalar_def)
  consider (a) "cp < 128" | (b) "128 \<le> cp" "cp < 2048" | (c) "2048 \<le> cp" "cp < 65536" | (d) "65536 \<le> cp" by linarith
  then show ?thesis
  proof cases
    case a then show ?thesis by (simp add: utf8_encode_def utf8_run_Cons utf8_lead_def del: utf8_run.simps(2))
  next
    case b
    have "q < 1" using b flat by linarith
    moreover have "n < 1" using b flat by linarith
    moreover have "m < 32" "2 \<le> m" using b flat d calculation by linarith+
    ultimately have "q = 0" "n = 0" "m < 32" "2 \<le> m" by simp_all
    moreover have "cp div 64 = m" using parts(3) calculation by simp
    ultimately have "utf8_encode cp = [192 + m, 128 + d]"
      using b by (simp add: utf8_encode_def d_def[symmetric])
    moreover have "cp = 64 * m + d" using flat \<open>q = 0\<close> \<open>n = 0\<close> by simp
    ultimately have enc: "utf8_encode cp = [192 + m, 128 + d]" "cp = 64 * m + d" by simp_all
    have "2 \<le> m" "m < 32" using b enc(2) d by linarith+
    with enc d show ?thesis
      by (simp add: utf8_run_Cons utf8_lead_def del: utf8_run.simps(2) of_nat_add)
  next
    case c
    have "q < 1" using c flat by linarith
    moreover have "n < 16" using c flat by linarith
    ultimately have "q = 0" "n < 16" by simp_all
    moreover have "cp div 4096 = n" using parts(2) calculation by simp
    ultimately have "utf8_encode cp = [224 + n, 128 + m, 128 + d]"
      using c by (simp add: utf8_encode_def d_def[symmetric] m_def[symmetric])
    moreover have "cp = 64 * (64 * n + m) + d" using flat \<open>q = 0\<close> by simp
    ultimately have enc: "utf8_encode cp = [224 + n, 128 + m, 128 + d]" "cp = 64 * (64 * n + m) + d" by simp_all
    have "n = 0 \<Longrightarrow> 32 \<le> m" "n = 13 \<Longrightarrow> m \<le> 31" using flat \<open>q = 0\<close> c cp d m by linarith+
    with enc \<open>n < 16\<close> d m show ?thesis
      by (auto simp: utf8_run_Cons utf8_lead_def simp del: utf8_run.simps(2) of_nat_add)
  next
    case d
    then have "q < 5" using flat cp by linarith
    have enc: "utf8_encode cp = [240 + q, 128 + n, 128 + m, 128 + d]"
      using d by (simp add: utf8_encode_def d_def[symmetric] m_def[symmetric] n_def[symmetric] q_def[symmetric])
    have "q = 0 \<Longrightarrow> 16 \<le> n" "q = 4 \<Longrightarrow> n \<le> 15" using flat d cp \<open>d < 64\<close> m n by linarith+
    with enc parts(1) \<open>q < 5\<close> \<open>d < 64\<close> m n show ?thesis
      by (auto simp: utf8_run_Cons utf8_lead_def simp del: utf8_run.simps(2) of_nat_add)
  qed
qed

lemma utf8_run_scalars:
  "\<forall>c \<in> set cps. scalar c \<Longrightarrow> utf8_run Start (map of_nat (concat (map utf8_encode cps))) = (Start, map Some cps)"
  by (induction cps) (simp_all add: utf8_run_append utf8_run_scalar)

definition well_formed :: "jsstring \<Rightarrow> bool" where
  "well_formed s \<longleftrightarrow> None \<notin> set (code_points s) \<and> list_all (\<lambda>u. u < 65536) s"

lemma well_formed_points:
  "well_formed s \<Longrightarrow> \<exists>cps. code_points s = map Some cps \<and> (\<forall>c \<in> set cps. scalar c) \<and> concat (map utf16 cps) = s"
proof (induction s rule: code_points.induct)
  case 1 then show ?case by simp
next
  case (2 u)
  then show ?case
    by (intro exI[of _ "[u]"]) (auto simp: well_formed_def scalar_def is_high_def is_low_def utf16_def split: if_splits)
next
  case (3 u v s)
  show ?case
  proof (cases "is_high u \<and> is_low v")
    case True
    with 3(1,3) obtain cps where cps: "code_points s = map Some cps" "\<forall>c \<in> set cps. scalar c" "concat (map utf16 cps) = s"
      by (auto simp: well_formed_def)
    let ?c = "65536 + 1024 * (u - 55296) + (v - 56320)"
    have uv: "u - 55296 < 1024" "v - 56320 < 1024" "55296 + (u - 55296) = u" "56320 + (v - 56320) = v"
      using True by (auto simp: is_high_def is_low_def)
    have "(1024 * (u - 55296) + (v - 56320)) div 1024 = u - 55296" "(1024 * (u - 55296) + (v - 56320)) mod 1024 = v - 56320"
      using uv(2) by simp_all
    then have "utf16 ?c = [u, v]" using uv by (simp add: utf16_def)
    moreover have "scalar ?c" using uv by (simp add: scalar_def)
    ultimately show ?thesis using True cps by (intro exI[of _ "?c # cps"]) simp
  next
    case False
    with 3(2,3) obtain cps where "code_points (v # s) = map Some cps" "\<forall>c \<in> set cps. scalar c" "concat (map utf16 cps) = v # s"
      by (auto simp: well_formed_def)
    moreover have "scalar u" "utf16 u = [u]" "\<not> is_high u \<and> \<not> is_low u"
      using False 3(3) by (auto simp: well_formed_def scalar_def is_high_def is_low_def utf16_def split: if_splits)
    ultimately show ?thesis using False by (intro exI[of _ "u # cps"]) simp
  qed
qed

text \<open>Encoding, then decoding, gives a well-formed text back.\<close>

lemma utf8_fatal_utf8_bytes: "well_formed s \<Longrightarrow> utf8_fatal (utf8_bytes s) = Some s"
  using well_formed_points[of s] utf8_run_scalars
  by (auto simp: utf8_fatal_def utf8_points_def utf8_bytes_def replacement_def comp_def utf8_flush_def)

end
