(* ===== verification/Json.thy ===== *)
theory Json
  imports JsNumber Utf8
begin

section \<open>JSON values, \<open>JSON.parse\<close> and \<open>JSON.stringify\<close>\<close>

text \<open>
  A parsed value is a \<open>json\<close>; an object is the list of its members in the order their keys first
  appear, a repeated key keeping its place and taking the last value.  Keys that look like array
  indices are not moved to the front, which only shows in the order of an enumeration.
  \<open>JSON_parse\<close> reads a whole text and is None where the host throws; the texts of its errors
  are the host's.  The reader takes fuel: twice the length of its input and two is always enough
  (\<open>JSON_parse_fuel\<close>).
\<close>

datatype json =
    JNull
  | JBool bool
  | JNum jsnum
  | JStr jsstring
  | JArr "json list"
  | JObj "(jsstring \<times> json) list"

subsection \<open>Objects\<close>

type_synonym 'v obj = "(jsstring \<times> 'v) list"

fun obj_set :: "jsstring \<Rightarrow> 'v \<Rightarrow> 'v obj \<Rightarrow> 'v obj" where
  "obj_set k v [] = [(k, v)]"
| "obj_set k v ((a, b) # m) = (if a = k then (k, v) # m else (a, b) # obj_set k v m)"

definition obj_spread :: "'v obj \<Rightarrow> 'v obj \<Rightarrow> 'v obj" where
  "obj_spread a b = fold (\<lambda>(k, v). obj_set k v) b a"

definition obj_get :: "'v obj \<Rightarrow> jsstring \<Rightarrow> 'v option" where
  "obj_get m k = map_of m k"

definition obj_keys :: "'v obj \<Rightarrow> jsstring list" where
  "obj_keys m = map fst m"

definition obj_values :: "'v obj \<Rightarrow> 'v list" where
  "obj_values m = map snd m"

definition obj_wf :: "'v obj \<Rightarrow> bool" where
  "obj_wf m \<longleftrightarrow> distinct (map fst m)"

lemma obj_get_set [simp]: "obj_get (obj_set k v m) = (obj_get m)(k \<mapsto> v)"
proof (induction m)
  case (Cons p m)
  then show ?case by (cases p) (auto simp: obj_get_def fun_eq_iff)
qed (auto simp: obj_get_def)

lemma keys_obj_set: "fst ` set (obj_set k v m) = insert k (fst ` set m)"
proof -
  have "dom (map_of (obj_set k v m)) = insert k (dom (map_of m))"
    using obj_get_set[of k v m] unfolding obj_get_def by (metis dom_fun_upd option.distinct(1))
  then show ?thesis by (simp add: dom_map_of_conv_image_fst)
qed

lemma obj_wf_set [simp]: "obj_wf m \<Longrightarrow> obj_wf (obj_set k v m)"
proof (induction m)
  case (Cons p m)
  then show ?case by (cases p) (auto simp: obj_wf_def keys_obj_set)
qed (simp add: obj_wf_def)

lemma obj_wf_Nil [simp]: "obj_wf []"
  by (simp add: obj_wf_def)

lemma obj_get_Nil [simp]: "obj_get [] k = None"
  by (simp add: obj_get_def)

lemma obj_get_Cons [simp]: "obj_get ((i, x) # m) k = (if i = k then Some x else obj_get m k)"
  by (simp add: obj_get_def)

lemma obj_wf_Cons: "obj_wf ((i, x) # m) \<longleftrightarrow> obj_get m i = None \<and> obj_wf m"
  by (auto simp: obj_wf_def obj_get_def map_of_eq_None_iff)

lemma obj_set_not_Nil [simp]: "obj_set k v m \<noteq> []"
  by (induction k v m rule: obj_set.induct) auto

lemma obj_set_values: "x \<in> set (obj_set k v m) \<Longrightarrow> x = (k, v) \<or> x \<in> set m"
  by (induction m) (auto split: if_splits)

lemma obj_set_new: "k \<notin> set (map fst m) \<Longrightarrow> obj_set k v m = m @ [(k, v)]"
  by (induction m) auto

lemma obj_spread_Nil [simp]: "obj_spread a [] = a"
  by (simp add: obj_spread_def)

lemma obj_spread_Cons [simp]: "obj_spread a ((k, v) # b) = obj_spread (obj_set k v a) b"
  by (simp add: obj_spread_def)

lemma obj_wf_spread [simp]: "obj_wf a \<Longrightarrow> obj_wf (obj_spread a b)"
  by (induction b arbitrary: a) auto

text \<open>Spreading: the right object wins key by key.\<close>

lemma obj_get_spread:
  "obj_wf b \<Longrightarrow> obj_get (obj_spread a b) k = (case obj_get b k of Some v \<Rightarrow> Some v | None \<Rightarrow> obj_get a k)"
proof (induction b arbitrary: a)
  case Nil
  then show ?case by (simp add: obj_get_def)
next
  case (Cons p b)
  obtain i x where p: "p = (i, x)" by fastforce
  then have "obj_wf b" and "obj_get b i = None"
    using Cons.prems by (auto simp: obj_wf_def obj_get_def map_of_eq_None_iff)
  then show ?case
    using Cons.IH[of "obj_set i x a"] p
    by (auto simp: obj_get_def fun_eq_iff split: option.splits)
qed

lemma obj_spread_empty: "obj_wf b \<Longrightarrow> obj_spread [] b = b"
proof -
  have "obj_wf (a @ b) \<Longrightarrow> obj_spread a b = a @ b" for a
  proof (induction b arbitrary: a)
    case (Cons p b)
    then show ?case
      by (cases p) (simp add: obj_wf_def obj_set_new)
  qed simp
  then show "obj_wf b \<Longrightarrow> obj_spread [] b = b" by simp
qed

subsection \<open>Reading\<close>

definition json_space :: "nat \<Rightarrow> bool" where
  "json_space c \<longleftrightarrow> c = 32 \<or> c = 9 \<or> c = 10 \<or> c = 13"

definition skip_ws :: "jsstring \<Rightarrow> jsstring" where
  "skip_ws s = dropWhile json_space s"

definition eat :: "nat \<Rightarrow> jsstring \<Rightarrow> jsstring option" where
  "eat c s = (case skip_ws s of [] \<Rightarrow> None | x # r \<Rightarrow> if x = c then Some r else None)"

definition escape_unit :: "nat \<Rightarrow> nat option" where
  "escape_unit e =
     (if e = 34 \<or> e = 92 \<or> e = 47 then Some e
      else if e = 98 then Some 8 else if e = 102 then Some 12 else if e = 110 then Some 10
      else if e = 114 then Some 13 else if e = 116 then Some 9 else None)"

definition read_hex4 :: "jsstring \<Rightarrow> (nat \<times> jsstring) option" where
  "read_hex4 s =
     (if length s < 4 then None
      else map_option (\<lambda>u. (u, drop 4 s)) (read_radix 16 0 (take 4 s)))"

text \<open>The characters of a string literal, after its opening quote.\<close>

function read_string :: "jsstring \<Rightarrow> (jsstring \<times> jsstring) option" where
  "read_string [] = None"
| "read_string (c # s) =
     (if c = 34 then Some ([], s)
      else if c < 32 then None
      else if c \<noteq> 92 then map_option (\<lambda>(t, r). (c # t, r)) (read_string s)
      else case s of
             [] \<Rightarrow> None
           | e # s' \<Rightarrow>
               (case (if e = 117 then read_hex4 s' else map_option (\<lambda>u. (u, s')) (escape_unit e)) of
                  None \<Rightarrow> None
                | Some (u, s'') \<Rightarrow> map_option (\<lambda>(t, r). (u # t, r)) (read_string s'')))"
  by pat_completeness auto
termination
  by (relation "measure length") (auto simp: read_hex4_def split: if_splits)

text \<open>The text of a number: an optional minus, no leading zero, digits on both sides of the dot.\<close>

definition number_regex :: regex where
  "number_regex =
     Seq (Opt (One_of [(45, 45)]))
    (Seq (Alt (One_of [(48, 48)]) (Seq (One_of [(49, 57)]) (Star (One_of [(48, 57)]))))
    (Seq (Opt (Seq (One_of [(46, 46)]) (Seq (One_of [(48, 57)]) (Star (One_of [(48, 57)])))))
         (Opt (Seq (One_of [(69, 69), (101, 101)])
              (Seq (Opt (One_of [(43, 43), (45, 45)]))
                   (Seq (One_of [(48, 57)]) (Star (One_of [(48, 57)]))))))))"

definition number_unit :: "nat \<Rightarrow> bool" where
  "number_unit c \<longleftrightarrow> is_digit c \<or> c = 43 \<or> c = 45 \<or> c = 46 \<or> c = 69 \<or> c = 101"

definition read_number :: "jsstring \<Rightarrow> (json \<times> jsstring) option" where
  "read_number s =
     (let t = takeWhile number_unit s in
      if regex_test number_regex t then Some (JNum (read_signed t), dropWhile number_unit s) else None)"

definition read_literal :: "jsstring \<Rightarrow> (json \<times> jsstring) option" where
  "read_literal s =
     (if startsWith (js ''true'') s then Some (JBool True, drop 4 s)
      else if startsWith (js ''false'') s then Some (JBool False, drop 5 s)
      else if startsWith (js ''null'') s then Some (JNull, drop 4 s)
      else read_number s)"

fun read_value :: "nat \<Rightarrow> jsstring \<Rightarrow> (json \<times> jsstring) option"
  and read_elements :: "nat \<Rightarrow> json list \<Rightarrow> jsstring \<Rightarrow> (json \<times> jsstring) option"
  and read_members :: "nat \<Rightarrow> json obj \<Rightarrow> jsstring \<Rightarrow> (json \<times> jsstring) option" where
  "read_value 0 s = None"
| "read_value (Suc n) s =
     (case skip_ws s of
        [] \<Rightarrow> None
      | c # r \<Rightarrow>
          if c = 34 then map_option (\<lambda>(t, r'). (JStr t, r')) (read_string r)
          else if c = 91 then
            (case eat 93 r of Some r' \<Rightarrow> Some (JArr [], r') | None \<Rightarrow> read_elements n [] r)
          else if c = 123 then
            (case eat 125 r of Some r' \<Rightarrow> Some (JObj [], r') | None \<Rightarrow> read_members n [] r)
          else read_literal (c # r))"
| "read_elements 0 acc s = None"
| "read_elements (Suc n) acc s =
     (case read_value n s of
        None \<Rightarrow> None
      | Some (v, r) \<Rightarrow>
          (case eat 44 r of
             Some r' \<Rightarrow> read_elements n (acc @ [v]) r'
           | None \<Rightarrow> map_option (\<lambda>r'. (JArr (acc @ [v]), r')) (eat 93 r)))"
| "read_members 0 acc s = None"
| "read_members (Suc n) acc s =
     (case Option.bind (eat 34 s) read_string of
        None \<Rightarrow> None
      | Some (k, r) \<Rightarrow>
          (case eat 58 r of
             None \<Rightarrow> None
           | Some r1 \<Rightarrow>
               (case read_value n r1 of
                  None \<Rightarrow> None
                | Some (v, r2) \<Rightarrow>
                    (case eat 44 r2 of
                       Some r3 \<Rightarrow> read_members n (obj_set k v acc) r3
                     | None \<Rightarrow> map_option (\<lambda>r'. (JObj (obj_set k v acc), r')) (eat 125 r2)))))"

definition JSON_parse :: "jsstring \<Rightarrow> json option" where
  "JSON_parse s =
     (case read_value (2 * length s + 2) s of
        Some (v, r) \<Rightarrow> if skip_ws r = [] then Some v else None
      | None \<Rightarrow> None)"

subsection \<open>The fuel is enough\<close>

lemma length_skip_ws: "length (skip_ws s) \<le> length s"
  by (simp add: skip_ws_def length_dropWhile_le)

lemma eat_shorter: "eat c s = Some r \<Longrightarrow> length r < length s"
  using length_skip_ws[of s] by (auto simp: eat_def split: list.splits if_splits)

lemma read_hex4_shorter: "read_hex4 s = Some (u, r) \<Longrightarrow> length r < length s"
  by (auto simp: read_hex4_def split: if_splits)

lemma read_string_shorter: "read_string s = Some (t, r) \<Longrightarrow> length r < length s"
proof (induction s arbitrary: t r rule: read_string.induct)
  case (2 c s)
  then show ?case
    by (fastforce split: if_splits list.splits option.splits dest: read_hex4_shorter)
qed simp

lemma read_literal_shorter: "s \<noteq> [] \<Longrightarrow> read_literal s = Some (v, r) \<Longrightarrow> length r < length s"
proof -
  assume s: "s \<noteq> []" and r: "read_literal s = Some (v, r)"
  have "\<not> regex_test number_regex []" by code_simp
  moreover have "length (takeWhile number_unit s) + length (dropWhile number_unit s) = length s"
    by (metis length_append takeWhile_dropWhile_id)
  ultimately have "read_number s = Some (v, r) \<Longrightarrow> length r < length s"
    by (cases "takeWhile number_unit s") (auto simp: read_number_def Let_def split: if_splits)
  with s r show ?thesis by (auto simp: read_literal_def split: if_splits)
qed

lemma read_shorter:
  "read_value n s = Some (v, r) \<Longrightarrow> length r < length s"
  "read_elements n vs s = Some (v, r) \<Longrightarrow> length r < length s"
  "read_members n ms s = Some (v, r) \<Longrightarrow> length r < length s"
proof (induction n s and n vs s and n ms s arbitrary: v r and v r and v r
    rule: read_value_read_elements_read_members.induct)
  case (2 n s)
  show ?case
  proof (cases "skip_ws s")
    case (Cons c t)
    then have "length t < length s" using length_skip_ws[of s] by simp
    moreover have "read_literal (c # t) = Some (v, r) \<Longrightarrow> length r < length s"
      using read_literal_shorter[of "c # t" v r] length_skip_ws[of s] Cons by simp
    ultimately show ?thesis
      using 2 Cons by (fastforce split: if_splits option.splits dest: eat_shorter read_string_shorter)
  qed (use 2 in simp)
next
  case (4 n acc s)
  then show ?case
    by (fastforce split: option.splits dest: eat_shorter)
next
  case (6 n acc s)
  then show ?case
    by (fastforce split: option.splits dest: eat_shorter read_string_shorter
        simp: bind_eq_Some_conv)
qed auto

lemma read_more_fuel:
  "2 * length s + 2 \<le> n \<Longrightarrow> read_value (Suc n) s = read_value n s"
  "2 * length s + 3 \<le> n \<Longrightarrow> read_elements (Suc n) vs s = read_elements n vs s"
  "2 * length s + 3 \<le> n \<Longrightarrow> read_members (Suc n) ms s = read_members n ms s"
proof (induction n s and n vs s and n ms s rule: read_value_read_elements_read_members.induct)
  case (2 n s)
  show ?case
  proof (cases "skip_ws s")
    case (Cons c t)
    then have "length t < length s" using length_skip_ws[of s] by simp
    then show ?thesis
      using 2 Cons by (auto split: option.splits simp del: read_elements.simps read_members.simps)
  qed simp
next
  case (4 n acc s)
  have "eat 44 r = Some r' \<Longrightarrow> read_value n s = Some (v, r) \<Longrightarrow> 2 * length r' + 3 \<le> n" for v r r'
    using 4(3) by (auto dest!: eat_shorter read_shorter)
  then show ?case
    using 4 by (auto split: option.splits)
next
  case (6 n acc s)
  have key: "length r1 < length s"
    if "Option.bind (eat 34 s) read_string = Some (k, r)" "eat 58 r = Some r1" for k r r1
    using that by (auto simp: bind_eq_Some_conv dest!: eat_shorter read_string_shorter)
  have rest: "length r3 < length s"
    if "Option.bind (eat 34 s) read_string = Some (k, r)" "eat 58 r = Some r1"
      "read_value n r1 = Some (v, r2)" "eat 44 r2 = Some r3" for k r r1 v r2 r3
    using key[OF that(1,2)] read_shorter(1)[OF that(3)] eat_shorter[OF that(4)] by simp
  have V: "read_value (Suc n) r1 = read_value n r1"
    if "Option.bind (eat 34 s) read_string = Some (k, r)" "eat 58 r = Some r1" for k r r1
    using 6(1)[OF that(1) refl that(2)] key[OF that] 6(3) by simp
  have M: "read_members (Suc n) (obj_set k v acc) r3 = read_members n (obj_set k v acc) r3"
    if "Option.bind (eat 34 s) read_string = Some (k, r)" "eat 58 r = Some r1"
      "read_value n r1 = Some (v, r2)" "eat 44 r2 = Some r3" for k r r1 v r2 r3
    using 6(2)[OF that(1) refl that(2) that(3) refl that(4)] rest[OF that] 6(3) by simp
  show ?case
    by (simp only: read_members.simps(2)[of "Suc n"] read_members.simps(2)[of n])
      (auto split: option.split simp: V M simp del: read_value.simps read_members.simps)
qed auto

lemma read_value_fuel: "2 * length s + 2 \<le> n \<Longrightarrow> read_value n s = read_value (2 * length s + 2) s"
  by (induction n rule: dec_induct) (simp_all del: read_value.simps add: read_more_fuel)

text \<open>More fuel than \<open>JSON_parse\<close> gives its reader never changes the value it returns.\<close>

lemma JSON_parse_fuel:
  assumes "2 * length s + 2 \<le> n"
  shows "JSON_parse s = (case read_value n s of
    Some (v, r) \<Rightarrow> if skip_ws r = [] then Some v else None | None \<Rightarrow> None)"
  using read_value_fuel[OF assms] by (simp add: JSON_parse_def del: read_value.simps)

subsection \<open>Writing\<close>

definition hex_digit :: "nat \<Rightarrow> nat" where
  "hex_digit n = (if n < 10 then 48 + n else 87 + n)"

definition u_escape :: "nat \<Rightarrow> jsstring" where
  "u_escape u = [92, 117, hex_digit (u div 4096), hex_digit (u div 256 mod 16),
     hex_digit (u div 16 mod 16), hex_digit (u mod 16)]"

definition quote_unit :: "nat \<Rightarrow> jsstring" where
  "quote_unit u =
     (if u = 34 \<or> u = 92 then [92, u]
      else if u = 8 then [92, 98] else if u = 12 then [92, 102] else if u = 10 then [92, 110]
      else if u = 13 then [92, 114] else if u = 9 then [92, 116]
      else if u < 32 \<or> is_high u \<or> is_low u then u_escape u
      else [u])"

text \<open>Only a surrogate without its partner is escaped.\<close>

fun quote_units :: "jsstring \<Rightarrow> jsstring" where
  "quote_units [] = []"
| "quote_units [u] = quote_unit u"
| "quote_units (u # v # s) =
     (if is_high u \<and> is_low v then u # v # quote_units s else quote_unit u @ quote_units (v # s))"

definition quote_string :: "jsstring \<Rightarrow> jsstring" where
  "quote_string s = 34 # quote_units s @ [34]"

primrec JSON_stringify :: "json \<Rightarrow> jsstring" where
  "JSON_stringify JNull = js ''null''"
| "JSON_stringify (JBool b) = (if b then js ''true'' else js ''false'')"
| "JSON_stringify (JNum n) = (if isFinite n then num_String n else js ''null'')"
| "JSON_stringify (JStr s) = quote_string s"
| "JSON_stringify (JArr vs) = 91 # join [44] (map JSON_stringify vs) @ [93]"
| "JSON_stringify (JObj ms) =
     123 # join [44] (map (\<lambda>(k, t). quote_string k @ 58 # t) (map (map_prod id JSON_stringify) ms)) @ [125]"

end
