(* ===== verification/HubTypes.thy ===== *)
theory HubTypes
  imports Json
begin

section \<open>The types of the host's port (\<open>src/types.ts\<close>)\<close>

text \<open>
  The values marimohub and the adapter exchange, as \<open>src/types.ts\<close> transcribes them.  An
  optional member is an option, a \<open>Record\<close> is an object of the language, and a number the host
  chooses freely is a \<open>jsnum\<close>.  The failure codes of the three result types are one enumeration.
\<close>

type_synonym SandboxId = jsstring

datatype error_code =
  COMMAND_FAILED | SPAWN_FAILED | BACKEND_ERROR | NOT_FOUND | READ_FAILED | NOT_A_DIRECTORY | LIST_FAILED

datatype ExecResult =
    ExecSuccess (exec_stdout: jsstring) (exec_stderr: jsstring)
  | ExecFailure (exec_stdout: jsstring) (exec_stderr: jsstring) (exec_error: error_code)

datatype text_encoding = UTF_8 | BASE64

datatype ReadFileResult =
    ReadFileSuccess (content: jsstring) (encoding: text_encoding)
  | ReadFileFailure (read_error: error_code)

record BoundedReadOptions =
  maxBytes :: jsnum
  timeoutMs :: jsnum

datatype file_type = RegularFile | Directory | Symlink | OtherFile

record FileInfo =
  fi_name :: jsstring
  fi_absolutePath :: jsstring
  fi_relativePath :: jsstring
  fi_type :: file_type
  fi_size :: jsnum

datatype ListFilesResult =
    ListFilesSuccess "FileInfo list"
  | ListFilesFailure error_code

record ListFilesOptions =
  recursive :: "bool option"
  includeHidden :: "bool option"

datatype probe_mode = Http | Tcp

record WaitForPortOptions =
  wait_mode :: "probe_mode option"
  wait_path :: "jsstring option"
  wait_timeout :: "jsnum option"

record StartProcessOptions =
  start_processId :: "jsstring option"
  start_cwd :: "jsstring option"
  start_env :: "(jsstring option) obj option"

datatype file_content = TextContent jsstring | BytesContent "byte list"

record SandboxFileWrite =
  fw_path :: jsstring
  fw_content :: file_content

record ActiveSandbox =
  as_id :: SandboxId
  as_createdAt :: "jsstring option"

record ComputeResources =
  res_cpu :: "jsnum option"
  res_memoryBytes :: "jsnum option"
  res_gpu :: "jsstring option"

record SandboxOwner =
  projectId :: jsstring
  userId :: "jsstring option"

record CreateSandboxOptions =
  opt_image :: "jsstring option"
  opt_resources :: "ComputeResources option"
  opt_owner :: "SandboxOwner option"

record compute_context =
  sessionMaxLifetimeSeconds :: "jsnum option"
  sessionIdleTimeoutMs :: "jsnum option"

end
