(* ===== verification/Config.thy ===== *)
theory Config
  imports HubTypes
begin

section \<open>Configuration (\<open>src/config.ts\<close>)\<close>

text \<open>
  \<open>readConfig\<close> turns the environment into an \<open>ArmadaConfig\<close> or stops startup with the message of
  the first check that fails, in the order the source evaluates its fields and its checks.  The
  environment is a partial function; the two questions the source asks of the platform are the
  fields of \<open>host\<close>: the scheme of a URL that parses (\<open>URL.canParse\<close>, \<open>new URL(..).protocol\<close>), and
  the contents of a file that can be read.  Nothing is assumed about either.
\<close>

subsection \<open>Types\<close>

datatype ArmadaAuth =
    Anonymous
  | Basic jsstring jsstring
  | Bearer jsstring
  | BearerFile jsstring

datatype Exposure =
    NodePort
  | Ingress (ingress_tls: bool) (ingress_certName: "jsstring option") (ingress_annotations: "jsstring obj")

record ArmadaConfig =
  cfg_url :: jsstring
  cfg_expose :: Exposure
  cfg_queue :: jsstring
  cfg_queueByUser :: "jsstring obj"
  cfg_queueByProject :: "jsstring obj"
  cfg_namespace :: jsstring
  cfg_priorityClassName :: "jsstring option"
  cfg_image :: jsstring
  cfg_sandboxHostname :: "jsstring option"
  cfg_port :: int
  cfg_agentImage :: jsstring
  cfg_agentPort :: int
  cfg_agentTokenSecret :: jsstring
  cfg_imagePullSecrets :: "jsstring list"
  cfg_runAsUser :: "int option"
  cfg_runAsGroup :: "int option"
  cfg_fsGroup :: "int option"
  cfg_surfacePorts :: "int list"
  cfg_gpuNodeSelectors :: "jsstring obj obj"
  cfg_podLabels :: "jsstring obj"
  cfg_podAnnotations :: "jsstring obj"
  cfg_lookoutUrl :: "jsstring option"
  cfg_maxLifetimeSeconds :: jsnum
  cfg_commandMaxSeconds :: int
  cfg_auth :: ArmadaAuth

type_synonym env = "jsstring \<Rightarrow> jsstring option"

record host =
  url_protocol :: "jsstring \<Rightarrow> jsstring option"
  read_file :: "jsstring \<Rightarrow> jsstring option"

text \<open>A template string thrown as an error.\<close>

definition err :: "jsstring list \<Rightarrow> js_error" where
  "err parts = JsError (concat parts)"

subsection \<open>Single variables\<close>

definition required :: "env \<Rightarrow> jsstring \<Rightarrow> jsstring result" where
  "required env name =
     (case env name of
        None \<Rightarrow> Inl (err [js ''Missing required env var: '', name])
      | Some value \<Rightarrow>
          if value = [] then Inl (err [js ''Missing required env var: '', name]) else Inr value)"

definition MIN_TOKEN_SECRET_LENGTH :: nat where "MIN_TOKEN_SECRET_LENGTH = 32"

definition readTokenSecret :: "env \<Rightarrow> jsstring result" where
  "readTokenSecret env =
     bindR (required env (js ''ARMADA_AGENT_TOKEN_SECRET'')) (\<lambda>secret.
       if length secret < MIN_TOKEN_SECRET_LENGTH then
         Inl (err [js ''ARMADA_AGENT_TOKEN_SECRET must be at least '', show_nat MIN_TOKEN_SECRET_LENGTH,
           js '' characters; generate one with `openssl rand -hex 32`''])
       else Inr secret)"

definition requiredUrl :: "host \<Rightarrow> env \<Rightarrow> jsstring \<Rightarrow> jsstring result" where
  "requiredUrl h env name =
     bindR (required env name) (\<lambda>value.
       let parsed = url_protocol h value in
       if parsed \<noteq> Some (js ''http:'') \<and> parsed \<noteq> Some (js ''https:'') then
         Inl (err [name, js '' must be an http(s) URL, got: '', value])
       else Inr value)"

definition optionalUrl :: "host \<Rightarrow> env \<Rightarrow> jsstring \<Rightarrow> jsstring option result" where
  "optionalUrl h env name =
     (if env name = None then Inr None else bindR (requiredUrl h env name) (\<lambda>v. Inr (Some v)))"

definition optionalPort :: "env \<Rightarrow> jsstring \<Rightarrow> int \<Rightarrow> int result" where
  "optionalPort env name fallback =
     (case env name of
        None \<Rightarrow> Inr fallback
      | Some raw \<Rightarrow>
          (case integer_of (js_Number raw) of
             Some value \<Rightarrow>
               if value < 1 \<or> 65535 < value then
                 Inl (err [name, js '' must be a port number between 1 and 65535, got: '', raw])
               else Inr value
           | None \<Rightarrow> Inl (err [name, js '' must be a port number between 1 and 65535, got: '', raw])))"

definition optionalSeconds :: "env \<Rightarrow> jsstring \<Rightarrow> int \<Rightarrow> int \<Rightarrow> int result" where
  "optionalSeconds env name fallback least =
     (case env name of
        None \<Rightarrow> Inr fallback
      | Some raw \<Rightarrow>
          (case integer_of (js_Number raw) of
             Some value \<Rightarrow>
               if value < least then
                 Inl (err [name, js '' must be a whole number of seconds, got: '', raw])
               else Inr value
           | None \<Rightarrow> Inl (err [name, js '' must be a whole number of seconds, got: '', raw])))"

definition optionalId :: "env \<Rightarrow> jsstring \<Rightarrow> int option result" where
  "optionalId env name =
     (case env name of
        None \<Rightarrow> Inr None
      | Some raw \<Rightarrow>
          (let value = (if trim raw = [] then NaN else js_Number raw) in
           case integer_of value of
             Some i \<Rightarrow>
               if i < 0 then Inl (err [name, js '' must be a whole number, got: '', raw])
               else Inr (Some i)
           | None \<Rightarrow> Inl (err [name, js '' must be a whole number, got: '', raw])))"

definition comma_list :: "jsstring \<Rightarrow> jsstring list" where
  "comma_list raw = filter (\<lambda>name. name \<noteq> []) (map trim (splitOn 44 raw))"

definition readImagePullSecrets :: "env \<Rightarrow> jsstring list result" where
  "readImagePullSecrets env =
     (case env (js ''ARMADA_IMAGE_PULL_SECRETS'') of
        None \<Rightarrow> Inr []
      | Some raw \<Rightarrow>
          (let names = comma_list raw in
           if names = [] then Inl (err [js ''ARMADA_IMAGE_PULL_SECRETS must name at least one secret''])
           else Inr names))"

subsection \<open>Authentication\<close>

definition readAuth :: "host \<Rightarrow> env \<Rightarrow> ArmadaAuth result" where
  "readAuth h env =
     (let username = env (js ''ARMADA_AUTH_USERNAME'');
          password = env (js ''ARMADA_AUTH_PASSWORD'');
          token = env (js ''ARMADA_AUTH_TOKEN'');
          tokenFile = env (js ''ARMADA_AUTH_TOKEN_FILE'');
          configured =
            (if username \<noteq> None \<or> password \<noteq> None then [js ''ARMADA_AUTH_USERNAME/PASSWORD''] else [])
            @ (if token \<noteq> None then [js ''ARMADA_AUTH_TOKEN''] else [])
            @ (if tokenFile \<noteq> None then [js ''ARMADA_AUTH_TOKEN_FILE''] else [])
      in if 1 < length configured then
           Inl (err [js ''Configure one Armada auth mechanism, found: '', join (js '', '') configured])
         else if username \<noteq> None \<or> password \<noteq> None then
           (let u = or_else username []; p = or_else password [] in
            if u = [] \<or> p = [] then
              Inl (err [js ''ARMADA_AUTH_USERNAME and ARMADA_AUTH_PASSWORD must be set together''])
            else Inr (Basic u p))
         else
           (case token of
              Some t \<Rightarrow>
                if trim t = [] then Inl (err [js ''ARMADA_AUTH_TOKEN is empty''])
                else Inr (Bearer (trim t))
            | None \<Rightarrow>
                (case tokenFile of
                   Some f \<Rightarrow>
                     (case read_file h f of
                        None \<Rightarrow> Inl (err [js ''ARMADA_AUTH_TOKEN_FILE cannot be read: '', f])
                      | Some contents \<Rightarrow>
                          if trim contents = [] then
                            Inl (err [js ''ARMADA_AUTH_TOKEN_FILE is empty: '', f])
                          else Inr (BearerFile f))
                 | None \<Rightarrow> Inr Anonymous)))"

subsection \<open>JSON-valued variables\<close>

text \<open>
  Assigning \<open>map[key] = value\<close> on an ordinary object: a string assigned to \<open>__proto__\<close> is ignored.
\<close>

definition obj_assign :: "jsstring \<Rightarrow> 'v \<Rightarrow> 'v obj \<Rightarrow> 'v obj" where
  "obj_assign k v m = (if k = js ''__proto__'' then m else obj_set k v m)"

definition parse_object :: "jsstring \<Rightarrow> jsstring \<Rightarrow> json obj result" where
  "parse_object name raw =
     (case JSON_parse raw of
        Some (JObj ms) \<Rightarrow> Inr ms
      | _ \<Rightarrow> Inl (err [name, js '' must be a JSON object, got: '', raw]))"

fun read_entries :: "jsstring \<Rightarrow> bool \<Rightarrow> jsstring obj \<Rightarrow> json obj \<Rightarrow> jsstring obj result" where
  "read_entries name allowEmpty acc [] = Inr acc"
| "read_entries name allowEmpty acc ((key, value) # rest) =
     (case value of
        JStr v \<Rightarrow>
          if \<not> allowEmpty \<and> trim v = [] then
            Inl (err [name, js '': '', key, js '' must be a non-empty string''])
          else read_entries name allowEmpty (obj_assign key v acc) rest
      | _ \<Rightarrow>
          Inl (err [name, js '': '', key, js '' must be a '',
            (if allowEmpty then [] else js ''non-empty ''), js ''string'']))"

definition readStringMap :: "env \<Rightarrow> jsstring \<Rightarrow> bool \<Rightarrow> jsstring obj result" where
  "readStringMap env name allowEmpty =
     (case env name of
        None \<Rightarrow> Inr []
      | Some raw \<Rightarrow> bindR (parse_object name raw) (read_entries name allowEmpty []))"

subsection \<open>Exposure\<close>

definition readExposure :: "env \<Rightarrow> Exposure result" where
  "readExposure env =
     (let kind = or_else (env (js ''ARMADA_EXPOSE'')) (js ''nodeport'');
          ingressVars = filter (\<lambda>name. env name \<noteq> None)
            [js ''ARMADA_INGRESS_TLS'', js ''ARMADA_INGRESS_CERT_NAME'', js ''ARMADA_INGRESS_ANNOTATIONS'']
      in if kind = js ''nodeport'' then
           (if ingressVars \<noteq> [] then
              Inl (err [join (js '', '') ingressVars,
                js '' only apply with ARMADA_EXPOSE=ingress, and ARMADA_EXPOSE is nodeport''])
            else Inr NodePort)
         else if kind \<noteq> js ''ingress'' then
           Inl (err [js ''ARMADA_EXPOSE must be nodeport or ingress, got: '', kind])
         else
           (let tlsRaw = or_else (env (js ''ARMADA_INGRESS_TLS'')) (js ''true'');
                certName = env (js ''ARMADA_INGRESS_CERT_NAME'')
            in if tlsRaw \<noteq> js ''true'' \<and> tlsRaw \<noteq> js ''false'' then
                 Inl (err [js ''ARMADA_INGRESS_TLS must be true or false, got: '', tlsRaw])
               else if certName \<noteq> None \<and> trim (or_else certName []) = [] then
                 Inl (err [js ''ARMADA_INGRESS_CERT_NAME is empty''])
               else
                 bindR (readStringMap env (js ''ARMADA_INGRESS_ANNOTATIONS'') False) (\<lambda>annotations.
                   Inr (Ingress (tlsRaw = js ''true'') certName annotations))))"

subsection \<open>Surfaces\<close>

record surface =
  surface_id :: jsstring
  surface_variable :: jsstring
  surface_defaultPort :: int

definition SURFACES :: "surface list" where
  "SURFACES =
     [\<lparr>surface_id = js ''vscode'', surface_variable = js ''MARIMOHUB_SURFACE_VSCODE_PORT'',
       surface_defaultPort = 8443\<rparr>,
      \<lparr>surface_id = js ''opencode'', surface_variable = js ''MARIMOHUB_SURFACE_OPENCODE_PORT'',
       surface_defaultPort = 4096\<rparr>]"

definition PRIMARY_SURFACE :: jsstring where "PRIMARY_SURFACE = js ''marimo''"

definition readSurfacePorts :: "env \<Rightarrow> int list result" where
  "readSurfacePorts env =
     (let enabled = uniq (comma_list (or_else (env (js ''MARIMOHUB_SURFACES'')) PRIMARY_SURFACE)) in
      bindR
        (each (\<lambda>id. throw_if (id \<noteq> PRIMARY_SURFACE \<and> id \<notin> set (map surface_id SURFACES))
            (err [js ''MARIMOHUB_SURFACES names '', [34], id, [34],
              js '', a surface this adapter does not know; it knows '',
              join (js '', '') (map surface_id SURFACES)]))
          enabled)
        (\<lambda>_. mapR (\<lambda>s. optionalPort env (surface_variable s) (surface_defaultPort s))
           (filter (\<lambda>s. surface_id s \<in> set enabled) SURFACES)))"

subsection \<open>GPU node selectors\<close>

fun read_labels :: "js_error \<Rightarrow> jsstring obj \<Rightarrow> json obj \<Rightarrow> jsstring obj result" where
  "read_labels invalid labels [] = Inr labels"
| "read_labels invalid labels ((label, value) # rest) =
     (case value of
        JStr v \<Rightarrow>
          if trim label = [] \<or> trim v = [] then Inl invalid
          else read_labels invalid (obj_assign label v labels) rest
      | _ \<Rightarrow> Inl invalid)"

fun read_selectors :: "jsstring \<Rightarrow> jsstring obj obj \<Rightarrow> json obj \<Rightarrow> jsstring obj obj result" where
  "read_selectors name selectors [] = Inr selectors"
| "read_selectors name selectors ((type, selector) # rest) =
     (let invalid = err [name, js '': '', type, js '' must be an object of node label to value, like {'',
            [34], js ''nvidia.com/gpu.product'', [34], js '': '', [34], js ''NVIDIA-A100-SXM4-80GB'', [34],
            js ''}'']
      in case selector of
           JObj ms \<Rightarrow>
             bindR (read_labels invalid [] ms) (\<lambda>labels.
               if labels = [] then Inl invalid
               else read_selectors name (obj_set (toUpperCase type) labels selectors) rest)
         | _ \<Rightarrow> Inl invalid)"

definition readGpuNodeSelectors :: "env \<Rightarrow> jsstring obj obj result" where
  "readGpuNodeSelectors env =
     (let name = js ''ARMADA_GPU_NODE_SELECTORS'' in
      case env name of
        None \<Rightarrow> Inr []
      | Some raw \<Rightarrow>
          bindR (parse_object name raw) (\<lambda>ms.
          bindR (read_selectors name [] ms) (\<lambda>selectors.
            if selectors = [] then Inl (err [name, js '' must map at least one GPU type''])
            else Inr selectors)))"

subsection \<open>Pod labels and annotations\<close>

definition alnum :: "(nat \<times> nat) list" where
  "alnum = [(65, 90), (97, 122), (48, 57)]"

definition K8S_NAME :: regex where
  "K8S_NAME =
     Seq (One_of alnum)
         (Opt (Seq (Upto 61 (One_of ([(45, 45), (95, 95), (46, 46)] @ alnum))) (One_of alnum)))"

definition lower_alnum :: "(nat \<times> nat) list" where
  "lower_alnum = [(97, 122), (48, 57)]"

definition K8S_LABEL :: regex where
  "K8S_LABEL =
     Seq (One_of lower_alnum)
         (Opt (Seq (Star (One_of ((45, 45) # lower_alnum))) (One_of lower_alnum)))"

definition K8S_PREFIX :: regex where
  "K8S_PREFIX = Seq K8S_LABEL (Star (Seq (One_of [(46, 46)]) K8S_LABEL))"

definition isQualifiedName :: "jsstring \<Rightarrow> bool" where
  "isQualifiedName key =
     (let slash = lastIndexOf 47 key in
      if slash = -1 then regex_test K8S_NAME key
      else
        (let prefix = slice_to slash key in
         length prefix \<le> 253 \<and> regex_test K8S_PREFIX prefix
           \<and> regex_test K8S_NAME (slice_from (slash + 1) key)))"

text \<open>The annotation that marks a job as this installation's (\<open>src/armada.ts\<close>).\<close>

definition SANDBOX_MARK :: jsstring where "SANDBOX_MARK = js ''marimohub/sandbox''"

definition isReservedKey :: "jsstring \<Rightarrow> bool" where
  "isReservedKey key \<longleftrightarrow>
     startsWith (js ''armada_'') key \<or> startsWith (js ''armadaproject.io/'') key \<or> key = SANDBOX_MARK"

datatype metadata_kind = Label | Annotation

definition kind_text :: "metadata_kind \<Rightarrow> jsstring" where
  "kind_text kind = (case kind of Label \<Rightarrow> js ''label'' | Annotation \<Rightarrow> js ''annotation'')"

definition check_metadata :: "jsstring \<Rightarrow> metadata_kind \<Rightarrow> jsstring \<times> jsstring \<Rightarrow> unit result" where
  "check_metadata name kind kv =
     (let (key, value) = kv in
      if \<not> isQualifiedName key then
        Inl (err [name, js '': '', key, js '' is not a valid '', kind_text kind,
          js '' key, which is an optional DNS subdomain prefix and a slash, then up to 63 letters, digits, '',
          [39, 45, 39], js '', '', [39, 95, 39], js '' or '', [39, 46, 39]])
      else if isReservedKey key then
        Inl (err [name, js '': '', key, js '' is reserved for Armada or for the adapter itself''])
      else if kind = Label \<and> value \<noteq> [] \<and> \<not> regex_test K8S_NAME value then
        Inl (err [name, js '': the value of '', key,
          js '' is not a valid label value, which is empty or up to 63 letters, digits, '',
          [39, 45, 39], js '', '', [39, 95, 39], js '' or '', [39, 46, 39],
          js '', starting and ending with a letter or digit''])
      else Inr ())"

definition readPodMetadata :: "env \<Rightarrow> jsstring \<Rightarrow> metadata_kind \<Rightarrow> jsstring obj result" where
  "readPodMetadata env name kind =
     bindR (readStringMap env name True) (\<lambda>map.
     bindR (each (check_metadata name kind) map) (\<lambda>_. Inr map))"

subsection \<open>Compute profiles\<close>

definition PROFILE_VARIABLES :: "jsstring list" where
  "PROFILE_VARIABLES = [js ''MARIMOHUB_COMPUTE_PROFILES'', js ''MARIMOHUB_COMPUTE_APP_PROFILES'']"

text \<open>One \<open>key=value\<close> pair of a profile: the GPU type it names, when its key is \<open>gpu\<close>.\<close>

definition pair_gpu_types :: "jsstring \<Rightarrow> jsstring list" where
  "pair_gpu_types pair =
     (let parts = splitOn 61 pair;
          key = hd parts;
          value = (if 1 < length parts then parts ! 1 else [])
      in if trim key \<noteq> js ''gpu'' then []
         else
           (let type = toUpperCase (trim (hd (splitOn 58 value)))
            in if type \<noteq> [] then [type] else []))"

definition profileGpuTypes :: "jsstring option \<Rightarrow> jsstring list" where
  "profileGpuTypes profiles =
     concat (map (\<lambda>profile.
         concat (map pair_gpu_types (splitOn 59 (slice_from (indexOf 58 profile + 1) profile))))
       (splitOn 44 (or_else profiles [])))"

subsection \<open>The whole configuration\<close>

definition DEFAULT_MAX_LIFETIME_SECONDS :: int where "DEFAULT_MAX_LIFETIME_SECONDS = 24 * 60 * 60"
definition DEFAULT_COMMAND_MAX_SECONDS :: int where "DEFAULT_COMMAND_MAX_SECONDS = 6 * 60 * 60"

definition DEFAULT_IMAGE :: jsstring where
  "DEFAULT_IMAGE = js ''ghcr.io/marimo-team/marimo-sandbox:latest''"

definition kernel_image :: "env \<Rightarrow> jsstring result" where
  "kernel_image env =
     (let image =
        (case env (js ''MARIMOHUB_COMPUTE_IMAGE'') of
           None \<Rightarrow> DEFAULT_IMAGE
         | Some list \<Rightarrow> trim (hd (splitOn 44 list)))
      in if image = [] then Inl (err [js ''MARIMOHUB_COMPUTE_IMAGE must contain at least one image''])
         else Inr image)"

definition max_lifetime :: "env \<Rightarrow> compute_context option \<Rightarrow> jsnum result" where
  "max_lifetime env compute =
     (case Option.bind compute sessionMaxLifetimeSeconds of
        Some n \<Rightarrow> Inr n
      | None \<Rightarrow>
          bindR (optionalSeconds env (js ''ARMADA_KERNEL_MAX_LIFETIME_SECONDS'')
            DEFAULT_MAX_LIFETIME_SECONDS 1) (\<lambda>i. Inr (of_whole i)))"

text \<open>The object literal of \<open>readConfig\<close>, its fields in the order they are evaluated.\<close>

definition read_fields ::
  "host \<Rightarrow> env \<Rightarrow> compute_context option \<Rightarrow> jsstring \<Rightarrow> ArmadaConfig result" where
  "read_fields h env compute img =
     bindR (requiredUrl h env (js ''ARMADA_URL'')) (\<lambda>url.
     bindR (readExposure env) (\<lambda>expose.
     bindR (required env (js ''ARMADA_QUEUE'')) (\<lambda>queue.
     bindR (readStringMap env (js ''ARMADA_QUEUE_BY_USER'') False) (\<lambda>queueByUser.
     bindR (readStringMap env (js ''ARMADA_QUEUE_BY_PROJECT'') False) (\<lambda>queueByProject.
     bindR (optionalPort env (js ''ARMADA_KERNEL_PORT'') 2718) (\<lambda>port.
     bindR (required env (js ''ARMADA_AGENT_IMAGE'')) (\<lambda>agentImage.
     bindR (optionalPort env (js ''ARMADA_AGENT_PORT'') 8718) (\<lambda>agentPort.
     bindR (readTokenSecret env) (\<lambda>agentTokenSecret.
     bindR (readImagePullSecrets env) (\<lambda>imagePullSecrets.
     bindR (optionalId env (js ''ARMADA_RUN_AS_USER'')) (\<lambda>runAsUser.
     bindR (optionalId env (js ''ARMADA_RUN_AS_GROUP'')) (\<lambda>runAsGroup.
     bindR (optionalId env (js ''ARMADA_FS_GROUP'')) (\<lambda>fsGroup.
     bindR (readSurfacePorts env) (\<lambda>surfacePorts.
     bindR (readGpuNodeSelectors env) (\<lambda>gpuNodeSelectors.
     bindR (readPodMetadata env (js ''ARMADA_POD_LABELS'') Label) (\<lambda>podLabels.
     bindR (readPodMetadata env (js ''ARMADA_POD_ANNOTATIONS'') Annotation) (\<lambda>podAnnotations.
     bindR (optionalUrl h env (js ''ARMADA_LOOKOUT_URL'')) (\<lambda>lookoutUrl.
     bindR (max_lifetime env compute) (\<lambda>maxLifetimeSeconds.
     bindR (optionalSeconds env (js ''ARMADA_COMMAND_MAX_SECONDS'') DEFAULT_COMMAND_MAX_SECONDS 0)
       (\<lambda>commandMaxSeconds.
     bindR (readAuth h env) (\<lambda>auth.
       Inr \<lparr>cfg_url = url, cfg_expose = expose, cfg_queue = queue, cfg_queueByUser = queueByUser,
         cfg_queueByProject = queueByProject,
         cfg_namespace = or_else (env (js ''ARMADA_NAMESPACE'')) (js ''default''),
         cfg_priorityClassName = env (js ''ARMADA_PRIORITY_CLASS''),
         cfg_image = img,
         cfg_sandboxHostname = env (js ''MARIMOHUB_COMPUTE_SANDBOX_HOSTNAME''),
         cfg_port = port, cfg_agentImage = agentImage, cfg_agentPort = agentPort,
         cfg_agentTokenSecret = agentTokenSecret, cfg_imagePullSecrets = imagePullSecrets,
         cfg_runAsUser = runAsUser, cfg_runAsGroup = runAsGroup, cfg_fsGroup = fsGroup,
         cfg_surfacePorts = surfacePorts, cfg_gpuNodeSelectors = gpuNodeSelectors,
         cfg_podLabels = podLabels, cfg_podAnnotations = podAnnotations,
         cfg_lookoutUrl = lookoutUrl, cfg_maxLifetimeSeconds = maxLifetimeSeconds,
         cfg_commandMaxSeconds = commandMaxSeconds, cfg_auth = auth\<rparr>)))))))))))))))))))))"

text \<open>The checks that compare fields with each other, in the order of the source.\<close>

definition check_ports :: "ArmadaConfig \<Rightarrow> unit result" where
  "check_ports config =
     bindR (throw_if (cfg_agentPort config = cfg_port config)
       (err [js ''ARMADA_AGENT_PORT and ARMADA_KERNEL_PORT are both '', show_int (cfg_port config),
         js ''; the agent and the kernel each need a port''])) (\<lambda>_.
     each (\<lambda>port. throw_if (port = cfg_agentPort config \<or> port = cfg_port config)
         (err [js ''A surface port (MARIMOHUB_SURFACE_*_PORT) is '', show_int port, js '', which is the '',
           (if port = cfg_port config then js ''kernel'' else js ''agent''), js '' port; each needs its own'']))
       (cfg_surfacePorts config))"

definition unmapped_types :: "env \<Rightarrow> ArmadaConfig \<Rightarrow> jsstring \<Rightarrow> jsstring list" where
  "unmapped_types env config variable =
     filter (\<lambda>type. obj_get (cfg_gpuNodeSelectors config) type = None) (profileGpuTypes (env variable))"

definition check_profiles :: "env \<Rightarrow> ArmadaConfig \<Rightarrow> unit result" where
  "check_profiles env config =
     (if cfg_gpuNodeSelectors config = [] then Inr ()
      else each (\<lambda>variable. throw_if (unmapped_types env config variable \<noteq> [])
          (err [variable, js '' names GPU type '', join (js '', '') (uniq (unmapped_types env config variable)),
            js '', which ARMADA_GPU_NODE_SELECTORS does not map; it maps '',
            join (js '', '') (obj_keys (cfg_gpuNodeSelectors config))]))
        PROFILE_VARIABLES)"

definition mapped_queues :: "ArmadaConfig \<Rightarrow> jsstring list" where
  "mapped_queues config =
     filter (\<lambda>queue. queue \<noteq> cfg_queue config)
       (obj_values (cfg_queueByUser config) @ obj_values (cfg_queueByProject config))"

definition check_queues :: "ArmadaConfig \<Rightarrow> unit result" where
  "check_queues config =
     throw_if (mapped_queues config \<noteq> [] \<and> cfg_lookoutUrl config = None)
       (err [js ''ARMADA_QUEUE_BY_USER / ARMADA_QUEUE_BY_PROJECT name queues other than ARMADA_QUEUE, which '',
         js ''needs ARMADA_LOOKOUT_URL: a sandbox addressed by id alone can only be placed through Lookout''])"

definition readConfig :: "host \<Rightarrow> env \<Rightarrow> compute_context option \<Rightarrow> ArmadaConfig result" where
  "readConfig h env compute =
     bindR (kernel_image env) (\<lambda>img.
     bindR (read_fields h env compute img) (\<lambda>config.
     bindR (check_ports config) (\<lambda>_.
     bindR (check_profiles env config) (\<lambda>_.
     bindR (check_queues config) (\<lambda>_. Inr config)))))"

subsection \<open>What each reader guarantees\<close>

lemma required_Inr [simp]: "required env name = Inr v \<longleftrightarrow> env name = Some v \<and> v \<noteq> []"
  by (auto simp: required_def split: option.splits)

lemma readTokenSecret_Inr [simp]:
  "readTokenSecret env = Inr s \<longleftrightarrow> env (js ''ARMADA_AGENT_TOKEN_SECRET'') = Some s \<and> 32 \<le> length s"
  by (cases "s = []") (auto simp: readTokenSecret_def bindR_eq_Inr MIN_TOKEN_SECRET_LENGTH_def not_less)

definition http_url :: "host \<Rightarrow> jsstring \<Rightarrow> bool" where
  "http_url h u \<longleftrightarrow> url_protocol h u = Some (js ''http:'') \<or> url_protocol h u = Some (js ''https:'')"

lemma requiredUrl_Inr [simp]:
  "requiredUrl h env name = Inr v \<longleftrightarrow> env name = Some v \<and> v \<noteq> [] \<and> http_url h v"
  by (auto simp: requiredUrl_def bindR_eq_Inr http_url_def Let_def)

lemma optionalUrl_Inr [simp]:
  "optionalUrl h env name = Inr v \<longleftrightarrow>
     (case v of None \<Rightarrow> env name = None | Some u \<Rightarrow> env name = Some u \<and> u \<noteq> [] \<and> http_url h u)"
  by (auto simp: optionalUrl_def bindR_eq_Inr split: option.splits)

definition is_port :: "int \<Rightarrow> bool" where
  "is_port p \<longleftrightarrow> 1 \<le> p \<and> p \<le> 65535"

lemma optionalPort_Inr: "optionalPort env name d = Inr p \<longleftrightarrow>
    (case env name of None \<Rightarrow> p = d | Some raw \<Rightarrow> js_Number raw = of_whole p \<and> is_port p)"
  by (auto simp: optionalPort_def is_port_def integer_of_Some split: option.splits)

lemma optionalPort_range: "optionalPort env name d = Inr p \<Longrightarrow> is_port d \<Longrightarrow> is_port p"
  by (auto simp: optionalPort_Inr split: option.splits)

lemma optionalSeconds_Inr: "optionalSeconds env name d least = Inr n \<longleftrightarrow>
    (case env name of None \<Rightarrow> n = d | Some raw \<Rightarrow> js_Number raw = of_whole n \<and> least \<le> n)"
  by (auto simp: optionalSeconds_def integer_of_Some split: option.splits)

lemma optionalId_Inr: "optionalId env name = Inr i \<longleftrightarrow>
    (case env name of
       None \<Rightarrow> i = None
     | Some raw \<Rightarrow> trim raw \<noteq> [] \<and> (\<exists>n. i = Some n \<and> js_Number raw = of_whole n \<and> 0 \<le> n))"
  by (auto simp: optionalId_def integer_of_Some Let_def integer_of_def[of NaN] split: option.splits)

lemma comma_list_no_Nil: "[] \<notin> set (comma_list raw)"
  by (simp add: comma_list_def)

lemma readImagePullSecrets_Inr: "readImagePullSecrets env = Inr ns \<Longrightarrow> [] \<notin> set ns"
  by (auto simp: readImagePullSecrets_def Let_def comma_list_no_Nil split: option.splits if_splits)

lemma read_entries_wf: "read_entries name b acc ms = Inr m \<Longrightarrow> obj_wf acc \<Longrightarrow> obj_wf m"
  by (induction name b acc ms rule: read_entries.induct)
    (auto simp: obj_assign_def split: json.splits if_splits)

lemma read_entries_nonblank:
  "read_entries name False acc ms = Inr m \<Longrightarrow> list_all (\<lambda>kv. trim (snd kv) \<noteq> []) acc \<Longrightarrow>
     list_all (\<lambda>kv. trim (snd kv) \<noteq> []) m"
proof (induction name False acc ms rule: read_entries.induct)
  case (2 name acc key "value" rest)
  have "list_all (\<lambda>kv. trim (snd kv) \<noteq> []) (obj_set key v acc)" if "trim v \<noteq> []" for v
    using that 2(3) by (auto simp: list_all_iff dest!: obj_set_values)
  with 2 show ?case
    by (auto simp: obj_assign_def split: json.splits if_splits)
qed simp

lemma readStringMap_wf [simp]: "readStringMap env name b = Inr m \<Longrightarrow> obj_wf m"
  by (auto simp: readStringMap_def bindR_eq_Inr split: option.splits dest: read_entries_wf)

lemma readStringMap_nonblank:
  "readStringMap env name False = Inr m \<Longrightarrow> list_all (\<lambda>kv. trim (snd kv) \<noteq> []) m"
  by (auto simp: readStringMap_def bindR_eq_Inr split: option.splits dest: read_entries_nonblank)

text \<open>The names Kubernetes accepts, said without a regular expression.\<close>

definition k8s_name :: "jsstring \<Rightarrow> bool" where
  "k8s_name s \<longleftrightarrow> s \<noteq> [] \<and> length s \<le> 63 \<and> in_class alnum (hd s) \<and> in_class alnum (last s)
     \<and> list_all (in_class ([(45, 45), (95, 95), (46, 46)] @ alnum)) s"

definition k8s_label :: "jsstring \<Rightarrow> bool" where
  "k8s_label s \<longleftrightarrow> s \<noteq> [] \<and> in_class lower_alnum (hd s) \<and> in_class lower_alnum (last s)
     \<and> list_all (in_class ((45, 45) # lower_alnum)) s"

lemma in_class_append: "in_class (rs @ qs) c \<longleftrightarrow> in_class rs c \<or> in_class qs c"
  by (auto simp: in_class_def)

lemma in_class_Cons: "in_class (r # qs) c \<longleftrightarrow> in_class [r] c \<or> in_class qs c"
  by (auto simp: in_class_def)

lemma edge_cases: "s \<noteq> [] \<longleftrightarrow> (\<exists>c. s = [c]) \<or> (\<exists>c m d. s = c # m @ [d])"
  by (cases s; cases "tl s" rule: rev_cases) auto

lemma lang_edged:
  "s \<in> lang (Seq (One_of A) (Opt (Seq r (One_of A)))) \<longleftrightarrow>
     s \<noteq> [] \<and> in_class A (hd s) \<and> in_class A (last s)
       \<and> (tl s = [] \<or> butlast (tl s) \<in> lang r)"
proof (cases s)
  case (Cons c t)
  have "s \<in> lang (Seq (One_of A) (Opt (Seq r (One_of A)))) \<longleftrightarrow>
      in_class A c \<and> (t = [] \<or> t \<in> lang (Seq r (One_of A)))"
    unfolding lang_Seq_head Cons by (simp del: lang.simps(2))
  then show ?thesis
    unfolding lang_Seq_last Cons by (cases t rule: rev_cases) auto
qed (auto simp: lang_Seq_head simp del: lang.simps(2))

lemma edges_list_all:
  assumes "\<And>c. P c \<Longrightarrow> Q c"
  shows "s \<noteq> [] \<and> P (hd s) \<and> P (last s) \<and> (tl s = [] \<or> list_all Q (butlast (tl s)) \<and> length (butlast (tl s)) \<le> n)
    \<longleftrightarrow> s \<noteq> [] \<and> P (hd s) \<and> P (last s) \<and> list_all Q s \<and> length s \<le> n + 2" (is "?A \<longleftrightarrow> ?B")
proof (cases s)
  case (Cons c t)
  then show ?thesis
    by (cases t rule: rev_cases) (use assms in auto)
qed simp

lemma K8S_NAME_iff: "regex_test K8S_NAME s \<longleftrightarrow> k8s_name s"
proof -
  have sub: "in_class alnum c \<Longrightarrow> in_class ([(45, 45), (95, 95), (46, 46)] @ alnum) c" for c
    by (simp add: in_class_append del: append_Cons)
  show ?thesis
    using edges_list_all[where s = s and n = 61 and P = "in_class alnum"
        and Q = "in_class ([(45, 45), (95, 95), (46, 46)] @ alnum)", OF sub]
    unfolding regex_test_iff K8S_NAME_def lang_edged lang_Upto_class k8s_name_def
    by (simp only: list_all_iff mem_Collect_eq) auto
qed

lemma K8S_LABEL_iff: "s \<in> lang K8S_LABEL \<longleftrightarrow> k8s_label s"
proof -
  have sub: "in_class lower_alnum c \<Longrightarrow> in_class ((45, 45) # lower_alnum) c" for c
    by (subst in_class_Cons) simp
  show ?thesis
    using edges_list_all[where s = s and n = "length s" and P = "in_class lower_alnum"
        and Q = "in_class ((45, 45) # lower_alnum)", OF sub]
    unfolding K8S_LABEL_def lang_edged lang_Star_class k8s_label_def
    by (simp only: list_all_iff mem_Collect_eq) auto
qed

text \<open>A DNS subdomain is a list of labels joined by dots.\<close>

lemma concat_dotted: "l @ concat (map (\<lambda>w. 46 # w) ls) = join [46] (l # ls)"
proof (induction ls arbitrary: l)
  case (Cons a ls)
  from Cons[of a] show ?case by simp
qed simp

lemma label_no_dot: "k8s_label l \<Longrightarrow> 46 \<notin> set l"
  by (auto simp: k8s_label_def list_all_iff in_class_def lower_alnum_def)

lemma K8S_PREFIX_iff: "regex_test K8S_PREFIX s \<longleftrightarrow> list_all k8s_label (splitOn 46 s)"
proof -
  have dot: "lang (Seq (One_of [(46, 46)]) K8S_LABEL) = (\<lambda>w. 46 # w) ` {w. k8s_label w}"
    by (auto simp: lang_Seq_head K8S_LABEL_iff in_class_def simp del: lang.simps(2))
  have "regex_test K8S_PREFIX s \<longleftrightarrow>
      (\<exists>l vs. s = l @ concat vs \<and> k8s_label l \<and> set vs \<subseteq> (\<lambda>w. 46 # w) ` {w. k8s_label w})"
    unfolding regex_test_iff K8S_PREFIX_def lang.simps(2)[of K8S_LABEL] lang.simps(5) dot
    by (auto simp: K8S_LABEL_iff)
  also have "\<dots> \<longleftrightarrow> (\<exists>l ls. s = join [46] (l # ls) \<and> list_all k8s_label (l # ls))"
    (is "?A \<longleftrightarrow> ?B")
  proof
    assume ?A
    then obtain l vs where A: "s = l @ concat vs" "k8s_label l" "set vs \<subseteq> (\<lambda>w. 46 # w) ` {w. k8s_label w}"
      by blast
    from A(3) have "vs = map (\<lambda>w. 46 # w) (map tl vs) \<and> list_all k8s_label (map tl vs)"
      by (induction vs) auto
    with A concat_dotted[of l "map tl vs"] show ?B
      by (intro exI[of _ l] exI[of _ "map tl vs"]) auto
  next
    assume ?B
    then obtain l ls where B: "s = join [46] (l # ls)" "list_all k8s_label (l # ls)" by blast
    then show ?A
      by (intro exI[of _ l] exI[of _ "map (\<lambda>w. 46 # w) ls"]) (auto simp: concat_dotted list_all_iff)
  qed
  also have "\<dots> \<longleftrightarrow> list_all k8s_label (splitOn 46 s)"
  proof
    assume "\<exists>l ls. s = join [46] (l # ls) \<and> list_all k8s_label (l # ls)"
    then obtain l ls where B: "s = join [46] (l # ls)" "list_all k8s_label (l # ls)" by blast
    then have "splitOn 46 s = l # ls"
      using splitOn_join[of "l # ls" 46] label_no_dot by (auto simp: list_all_iff)
    with B show "list_all k8s_label (splitOn 46 s)" by simp
  next
    assume "list_all k8s_label (splitOn 46 s)"
    then show "\<exists>l ls. s = join [46] (l # ls) \<and> list_all k8s_label (l # ls)"
      by (metis join_splitOn neq_Nil_conv splitOn_not_Nil)
  qed
  finally show ?thesis .
qed

text \<open>A qualified name: a name, with a DNS subdomain and a slash before it or not.\<close>

definition qualified_name :: "jsstring \<Rightarrow> bool" where
  "qualified_name key \<longleftrightarrow>
     k8s_name key \<or>
     (\<exists>prefix name. key = prefix @ [47] @ name \<and> length prefix \<le> 253
        \<and> list_all k8s_label (splitOn 46 prefix) \<and> k8s_name name)"

lemma k8s_name_no_slash: "k8s_name s \<Longrightarrow> 47 \<notin> set s"
  by (auto simp: k8s_name_def list_all_iff in_class_def alnum_def)

lemma split_last_unique:
  fixes c :: nat
  assumes "l @ c # r = l' @ c # r'" and "c \<notin> set r" and "c \<notin> set r'"
  shows "l = l' \<and> r = r'"
proof -
  have "lastIndexOf c (l @ c # r) = int (length l)" "lastIndexOf c (l' @ c # r') = int (length l')"
    using assms(2,3) by (simp_all add: lastIndexOf_append)
  with assms(1) show ?thesis by auto
qed

lemma isQualifiedName_qualified: "isQualifiedName key \<longleftrightarrow> qualified_name key"
proof (cases "47 \<in> set key")
  case False
  then show ?thesis
    by (auto simp: isQualifiedName_def qualified_name_def K8S_NAME_iff)
next
  case True
  then have "lastIndexOf 47 key \<noteq> -1" by simp
  with True obtain l r where key: "key = l @ 47 # r" "47 \<notin> set r"
      "slice_to (lastIndexOf 47 key) key = l" "slice_from (lastIndexOf 47 key + 1) key = r"
    by (blast elim: lastIndexOf_split)
  then have "isQualifiedName key \<longleftrightarrow>
      length l \<le> 253 \<and> list_all k8s_label (splitOn 46 l) \<and> k8s_name r"
    using \<open>lastIndexOf 47 key \<noteq> -1\<close>
    by (simp add: isQualifiedName_def K8S_NAME_iff K8S_PREFIX_iff Let_def)
  also have "\<dots> \<longleftrightarrow> qualified_name key"
    unfolding qualified_name_def
    using key k8s_name_no_slash[of r] k8s_name_no_slash[of key] split_last_unique[of l 47 r]
      k8s_name_no_slash True
    by (metis append_Cons append_Nil)
  finally show ?thesis .
qed

definition valid_metadata :: "metadata_kind \<Rightarrow> jsstring obj \<Rightarrow> bool" where
  "valid_metadata kind m \<longleftrightarrow> obj_wf m \<and>
     list_all (\<lambda>kv. qualified_name (fst kv) \<and> \<not> isReservedKey (fst kv)
       \<and> (kind = Label \<longrightarrow> snd kv = [] \<or> k8s_name (snd kv))) m"

lemma check_metadata_Inr:
  "check_metadata name kind kv = Inr u \<longleftrightarrow>
     qualified_name (fst kv) \<and> \<not> isReservedKey (fst kv)
       \<and> (kind = Label \<longrightarrow> snd kv = [] \<or> k8s_name (snd kv))"
  by (cases kv) (auto simp: check_metadata_def isQualifiedName_qualified K8S_NAME_iff)

lemma readPodMetadata_valid: "readPodMetadata env name kind = Inr m \<Longrightarrow> valid_metadata kind m"
  by (auto simp: readPodMetadata_def valid_metadata_def bindR_eq_Inr list_all_iff check_metadata_Inr)

lemma read_labels_spec:
  "read_labels e acc ms = Inr m \<Longrightarrow> obj_wf acc \<Longrightarrow> obj_wf m"
  by (induction e acc ms rule: read_labels.induct)
    (auto simp: obj_assign_def split: json.splits if_splits)

definition valid_selectors :: "jsstring obj obj \<Rightarrow> bool" where
  "valid_selectors ss \<longleftrightarrow> obj_wf ss \<and>
     list_all (\<lambda>tl. toUpperCase (fst tl) = fst tl \<and> snd tl \<noteq> [] \<and> obj_wf (snd tl)) ss"

lemma read_selectors_valid:
  "read_selectors name acc ms = Inr ss \<Longrightarrow> valid_selectors acc \<Longrightarrow> valid_selectors ss"
proof (induction ms arbitrary: acc)
  case (Cons p ms)
  obtain type selector where p: "p = (type, selector)" by fastforce
  from Cons.prems(1) obtain labels e ls where "read_labels e [] ls = Inr labels" "labels \<noteq> []"
    and rest: "read_selectors name (obj_set (toUpperCase type) labels acc) ms = Inr ss"
    by (auto simp: p Let_def bindR_eq_Inr split: json.splits if_splits)
  then have "valid_selectors (obj_set (toUpperCase type) labels acc)"
    using Cons.prems(2) read_labels_spec
    by (auto simp: valid_selectors_def list_all_iff dest!: obj_set_values)
  from Cons.IH[OF rest this] show ?case .
qed simp

lemma readGpuNodeSelectors_valid: "readGpuNodeSelectors env = Inr ss \<Longrightarrow> valid_selectors ss"
  by (auto simp: readGpuNodeSelectors_def Let_def bindR_eq_Inr valid_selectors_def[of "[]"]
      split: option.splits if_splits dest!: read_selectors_valid)

lemma list_all2_list_all:
  "list_all2 R xs ys \<Longrightarrow> (\<And>x y. x \<in> set xs \<Longrightarrow> R x y \<Longrightarrow> P y) \<Longrightarrow> list_all P ys"
  by (induction xs ys rule: list_all2_induct) auto

lemma surface_defaults: "s \<in> set SURFACES \<Longrightarrow> is_port (surface_defaultPort s)"
  by (auto simp: SURFACES_def is_port_def)

lemma readSurfacePorts_range:
  assumes "readSurfacePorts env = Inr ps"
  shows "list_all is_port ps"
proof -
  from assms obtain P where
    "list_all2 (\<lambda>s p. optionalPort env (surface_variable s) (surface_defaultPort s) = Inr p)
       (filter P SURFACES) ps"
    unfolding readSurfacePorts_def Let_def by (elim bindR_InrE) (simp only: mapR_Inr)
  then show ?thesis
    by (rule list_all2_list_all) (auto elim!: optionalPort_range intro: surface_defaults)
qed

subsection \<open>What the whole configuration guarantees\<close>

definition valid_auth :: "ArmadaAuth \<Rightarrow> bool" where
  "valid_auth a \<longleftrightarrow>
     (case a of Anonymous \<Rightarrow> True | Basic u p \<Rightarrow> u \<noteq> [] \<and> p \<noteq> [] | Bearer t \<Rightarrow> t \<noteq> [] | BearerFile f \<Rightarrow> True)"

definition valid_ports :: "ArmadaConfig \<Rightarrow> bool" where
  "valid_ports c \<longleftrightarrow>
     list_all is_port (cfg_port c # cfg_agentPort c # cfg_surfacePorts c)
     \<and> cfg_port c \<noteq> cfg_agentPort c
     \<and> cfg_port c \<notin> set (cfg_surfacePorts c) \<and> cfg_agentPort c \<notin> set (cfg_surfacePorts c)"

definition nonblank :: "jsstring obj \<Rightarrow> bool" where
  "nonblank m \<longleftrightarrow> obj_wf m \<and> list_all (\<lambda>kv. trim (snd kv) \<noteq> []) m"

definition valid_queues :: "ArmadaConfig \<Rightarrow> bool" where
  "valid_queues c \<longleftrightarrow>
     cfg_queue c \<noteq> [] \<and> nonblank (cfg_queueByUser c) \<and> nonblank (cfg_queueByProject c)
     \<and> (cfg_lookoutUrl c = None \<longrightarrow>
          list_all (\<lambda>q. q = cfg_queue c)
            (obj_values (cfg_queueByUser c) @ obj_values (cfg_queueByProject c)))"

definition valid_gpus :: "env \<Rightarrow> ArmadaConfig \<Rightarrow> bool" where
  "valid_gpus env c \<longleftrightarrow>
     valid_selectors (cfg_gpuNodeSelectors c)
     \<and> (cfg_gpuNodeSelectors c \<noteq> [] \<longrightarrow>
          list_all (\<lambda>v. list_all (\<lambda>t. obj_get (cfg_gpuNodeSelectors c) t \<noteq> None) (profileGpuTypes (env v)))
            PROFILE_VARIABLES)"

definition nonneg :: "int option \<Rightarrow> bool" where
  "nonneg i \<longleftrightarrow> (case i of None \<Rightarrow> True | Some n \<Rightarrow> 0 \<le> n)"

definition valid_config :: "host \<Rightarrow> env \<Rightarrow> ArmadaConfig \<Rightarrow> bool" where
  "valid_config h env c \<longleftrightarrow>
     http_url h (cfg_url c) \<and> cfg_image c \<noteq> [] \<and> cfg_agentImage c \<noteq> []
     \<and> 32 \<le> length (cfg_agentTokenSecret c) \<and> [] \<notin> set (cfg_imagePullSecrets c)
     \<and> nonneg (cfg_runAsUser c) \<and> nonneg (cfg_runAsGroup c) \<and> nonneg (cfg_fsGroup c)
     \<and> 0 \<le> cfg_commandMaxSeconds c
     \<and> (case cfg_lookoutUrl c of None \<Rightarrow> True | Some u \<Rightarrow> http_url h u)
     \<and> (case cfg_expose c of NodePort \<Rightarrow> True | Ingress tls cert anns \<Rightarrow> nonblank anns)
     \<and> valid_metadata Label (cfg_podLabels c) \<and> valid_metadata Annotation (cfg_podAnnotations c)
     \<and> valid_auth (cfg_auth c) \<and> valid_ports c \<and> valid_queues c \<and> valid_gpus env c"

lemma readStringMap_valid: "readStringMap env name False = Inr m \<Longrightarrow> nonblank m"
  by (simp add: nonblank_def readStringMap_nonblank)

lemma readAuth_valid: "readAuth h env = Inr a \<Longrightarrow> valid_auth a"
  by (auto simp: readAuth_def valid_auth_def Let_def split: if_splits option.splits)

lemma readExposure_valid:
  "readExposure env = Inr x \<Longrightarrow> (case x of NodePort \<Rightarrow> True | Ingress tls cert anns \<Rightarrow> nonblank anns)"
  by (auto simp: readExposure_def Let_def bindR_eq_Inr dest: readStringMap_valid split: if_splits)

lemma optionalId_nonneg: "optionalId env name = Inr i \<Longrightarrow> nonneg i"
  by (auto simp: optionalId_Inr nonneg_def split: option.splits)

lemma optionalSeconds_least: "optionalSeconds env name d least = Inr n \<Longrightarrow> least \<le> d \<Longrightarrow> least \<le> n"
  by (auto simp: optionalSeconds_Inr split: option.splits)

lemma kernel_image_Inr: "kernel_image env = Inr i \<Longrightarrow> i \<noteq> []"
  by (auto simp: kernel_image_def Let_def split: if_splits)

lemma optionalUrl_valid:
  "optionalUrl h env name = Inr v \<Longrightarrow> (case v of None \<Rightarrow> True | Some u \<Rightarrow> http_url h u)"
  by (auto split: option.splits)

lemma default_ports:
  "optionalPort env name 2718 = Inr p \<Longrightarrow> is_port p" "optionalPort env name 8718 = Inr p \<Longrightarrow> is_port p"
  by (erule optionalPort_range, simp add: is_port_def)+

lemma command_seconds: "optionalSeconds env name DEFAULT_COMMAND_MAX_SECONDS 0 = Inr n \<Longrightarrow> 0 \<le> n"
  by (erule optionalSeconds_least) (simp add: DEFAULT_COMMAND_MAX_SECONDS_def)

lemma required_nonempty: "required env name = Inr v \<Longrightarrow> v \<noteq> []"
  and readTokenSecret_length: "readTokenSecret env = Inr v \<Longrightarrow> 32 \<le> length v"
  and requiredUrl_http: "requiredUrl h env name = Inr v \<Longrightarrow> http_url h v"
  by simp_all

lemmas reader_facts =
  readStringMap_valid readAuth_valid readExposure_valid optionalId_nonneg readImagePullSecrets_Inr
  readSurfacePorts_range readGpuNodeSelectors_valid readPodMetadata_valid optionalUrl_valid
  default_ports command_seconds required_nonempty readTokenSecret_length requiredUrl_http

text \<open>What the fields of a configuration satisfy before they are compared with each other.\<close>

definition valid_fields :: "host \<Rightarrow> ArmadaConfig \<Rightarrow> bool" where
  "valid_fields h c \<longleftrightarrow>
     http_url h (cfg_url c) \<and> cfg_agentImage c \<noteq> []
     \<and> 32 \<le> length (cfg_agentTokenSecret c) \<and> [] \<notin> set (cfg_imagePullSecrets c)
     \<and> nonneg (cfg_runAsUser c) \<and> nonneg (cfg_runAsGroup c) \<and> nonneg (cfg_fsGroup c)
     \<and> 0 \<le> cfg_commandMaxSeconds c
     \<and> (case cfg_lookoutUrl c of None \<Rightarrow> True | Some u \<Rightarrow> http_url h u)
     \<and> (case cfg_expose c of NodePort \<Rightarrow> True | Ingress tls cert anns \<Rightarrow> nonblank anns)
     \<and> valid_metadata Label (cfg_podLabels c) \<and> valid_metadata Annotation (cfg_podAnnotations c)
     \<and> valid_auth (cfg_auth c)
     \<and> list_all is_port (cfg_port c # cfg_agentPort c # cfg_surfacePorts c)
     \<and> cfg_queue c \<noteq> [] \<and> nonblank (cfg_queueByUser c) \<and> nonblank (cfg_queueByProject c)
     \<and> valid_selectors (cfg_gpuNodeSelectors c)"

lemma read_fields_valid:
  "read_fields h env compute img = Inr c \<Longrightarrow> valid_fields h c \<and> cfg_image c = img"
  unfolding read_fields_def valid_fields_def
  by (elim bindR_InrE, drule sum.inject(2)[THEN iffD1], hypsubst,
      simp only: ArmadaConfig.select_convs list.pred_inject,
      intro conjI; (rule TrueI | rule refl | erule reader_facts))

lemma readConfig_valid:
  assumes "readConfig h env compute = Inr c"
  shows "valid_config h env c"
proof -
  from assms obtain img where img: "kernel_image env = Inr img"
    and c: "read_fields h env compute img = Inr c" and checks:
      "check_ports c = Inr ()" "check_profiles env c = Inr ()" "check_queues c = Inr ()"
    by (auto simp: readConfig_def bindR_eq_Inr)
  from read_fields_valid[OF c] have "valid_fields h c" "cfg_image c = img" by simp_all
  moreover have "valid_ports c"
    using checks(1) \<open>valid_fields h c\<close>
    by (auto simp: check_ports_def valid_ports_def valid_fields_def bindR_eq_Inr)
  moreover have "valid_queues c"
    using checks(3) \<open>valid_fields h c\<close>
    by (auto simp: check_queues_def mapped_queues_def valid_queues_def valid_fields_def
        list_all_iff filter_empty_conv)
  moreover have "valid_gpus env c"
    using checks(2) \<open>valid_fields h c\<close>
    by (auto simp: check_profiles_def unmapped_types_def valid_gpus_def valid_fields_def
        list_all_iff filter_empty_conv split: if_splits)
  ultimately show ?thesis
    using kernel_image_Inr[OF img] by (simp add: valid_config_def valid_fields_def)
qed

text \<open>C1: A configuration that startup accepts satisfies everything the rest of the adapter relies on:
  the URLs are http(s), the secret has at least 32 characters, every port is a port number and the
  kernel, the agent and the surfaces share none, every pod label and annotation is one Kubernetes
  accepts and none is reserved, queues other than the default are only mapped with a Lookout to find
  them, and once a GPU mapping exists it names every GPU type of the compute profiles.\<close>

theorem readConfig_sound:
  assumes "readConfig h env compute = Inr c"
  shows "valid_config h env c"
  using assms by (rule readConfig_valid)

text \<open>The equations that run \<open>readConfig\<close> on a concrete environment.\<close>

lemmas config_eval =
  readConfig_def read_fields_def kernel_image_def requiredUrl_def required_def readExposure_def
  readStringMap_def optionalPort_def readTokenSecret_def readImagePullSecrets_def optionalId_def
  readSurfacePorts_def readGpuNodeSelectors_def readPodMetadata_def optionalUrl_def max_lifetime_def
  optionalSeconds_def readAuth_def check_ports_def check_profiles_def check_queues_def
  mapped_queues_def MIN_TOKEN_SECRET_LENGTH_def obj_values_def DEFAULT_IMAGE_def throw_if_eval

definition minimal_env :: "jsstring \<Rightarrow> jsstring \<Rightarrow> jsstring \<Rightarrow> jsstring \<Rightarrow> env" where
  "minimal_env url queue agent secret =
     map_of [(js ''ARMADA_URL'', url), (js ''ARMADA_QUEUE'', queue), (js ''ARMADA_AGENT_IMAGE'', agent),
       (js ''ARMADA_AGENT_TOKEN_SECRET'', secret)]"

lemma marimo_only: "comma_list PRIMARY_SURFACE = [PRIMARY_SURFACE]"
  by (simp add: comma_list_def PRIMARY_SURFACE_def js_def trim_no_space is_space_def)

lemma surfaces_default: "filter (\<lambda>s. surface_id s = PRIMARY_SURFACE) SURFACES = []"
  by (simp add: SURFACES_def PRIMARY_SURFACE_def)

text \<open>Note: The four required variables are enough: with a URL the platform parses as http(s), a queue, an
  agent image and a secret of 32 characters, startup succeeds and every other field has its
  documented default.\<close>

theorem readConfig_defaults:
  assumes "http_url h url" and "url \<noteq> []" and "queue \<noteq> []" and "agent \<noteq> []" and "32 \<le> length secret"
  shows "readConfig h (minimal_env url queue agent secret) None =
    Inr \<lparr>cfg_url = url, cfg_expose = NodePort, cfg_queue = queue, cfg_queueByUser = [],
      cfg_queueByProject = [], cfg_namespace = js ''default'', cfg_priorityClassName = None,
      cfg_image = js ''ghcr.io/marimo-team/marimo-sandbox:latest'', cfg_sandboxHostname = None,
      cfg_port = 2718, cfg_agentImage = agent, cfg_agentPort = 8718, cfg_agentTokenSecret = secret,
      cfg_imagePullSecrets = [], cfg_runAsUser = None, cfg_runAsGroup = None, cfg_fsGroup = None,
      cfg_surfacePorts = [], cfg_gpuNodeSelectors = [], cfg_podLabels = [], cfg_podAnnotations = [],
      cfg_lookoutUrl = None, cfg_maxLifetimeSeconds = of_whole 86400, cfg_commandMaxSeconds = 21600,
      cfg_auth = Anonymous\<rparr>"
proof -
  from assms have "secret \<noteq> []" "\<not> length secret < 32" by auto
  moreover from assms(1) have "\<not> (url_protocol h url \<noteq> Some (js ''http:'') \<and> url_protocol h url \<noteq> Some (js ''https:''))"
    by (simp add: http_url_def)
  ultimately show ?thesis
    using assms(2-4)
    by (simp add: config_eval minimal_env_def Let_def marimo_only uniq_idle surfaces_default
        DEFAULT_MAX_LIFETIME_SECONDS_def DEFAULT_COMMAND_MAX_SECONDS_def)
qed

definition demo_host :: host where
  "demo_host = \<lparr>url_protocol = (\<lambda>u. if startsWith (js ''https://'') u then Some (js ''https:'') else None),
     read_file = (\<lambda>_. None)\<rparr>"

definition demo_env :: env where
  "demo_env = minimal_env (js ''https://a'') (js ''q'') (js ''agent'') (replicate 32 120)"

lemma demo_url: "http_url demo_host (js ''https://a'')"
  by (simp add: demo_host_def http_url_def js_def startsWith_def)

lemma readConfig_defaults_witness:
  "\<not> fails (readConfig demo_host demo_env None)"
  unfolding demo_env_def
  by (subst readConfig_defaults) (simp_all add: demo_url)

lemma readConfig_sound_witness:
  "\<exists>c. readConfig demo_host demo_env None = Inr c \<and> valid_config demo_host demo_env c"
proof -
  have "url_protocol demo_host (js ''https://a'') = Some (js ''https:'')"
    by (simp add: demo_host_def js_def startsWith_def)
  then have "\<exists>c. readConfig demo_host demo_env None = Inr c"
    by (simp add: config_eval minimal_env_def demo_env_def Let_def marimo_only uniq_idle surfaces_default)
  then show ?thesis using readConfig_sound by blast
qed

subsection \<open>Reading the parts\<close>

text \<open>Note: The test of a label or annotation key accepts exactly the qualified names of Kubernetes: up to 63
  letters, digits, dashes, underscores and dots that start and end with a letter or digit, with an
  optional prefix of dot-separated lower-case DNS labels, at most 253 characters, and a slash.\<close>

theorem isQualifiedName_iff:
  "isQualifiedName key \<longleftrightarrow>
     k8s_name key \<or>
     (\<exists>prefix name. key = prefix @ [47] @ name \<and> length prefix \<le> 253
        \<and> list_all k8s_label (splitOn 46 prefix) \<and> k8s_name name)"
  using isQualifiedName_qualified by (simp add: qualified_name_def)

text \<open>Note: Authentication is settled by exactly one mechanism: each kind is chosen if and only if its
  variables alone are set and usable, so nothing configured is ever ignored.\<close>

theorem readAuth_iff:
  "readAuth h env = Inr a \<longleftrightarrow>
     (let username = env (js ''ARMADA_AUTH_USERNAME''); password = env (js ''ARMADA_AUTH_PASSWORD'');
          token = env (js ''ARMADA_AUTH_TOKEN''); tokenFile = env (js ''ARMADA_AUTH_TOKEN_FILE'')
      in case a of
           Anonymous \<Rightarrow> username = None \<and> password = None \<and> token = None \<and> tokenFile = None
         | Basic u p \<Rightarrow> username = Some u \<and> password = Some p \<and> u \<noteq> [] \<and> p \<noteq> []
             \<and> token = None \<and> tokenFile = None
         | Bearer t \<Rightarrow> username = None \<and> password = None \<and> tokenFile = None
             \<and> map_option trim token = Some t \<and> t \<noteq> []
         | BearerFile f \<Rightarrow> username = None \<and> password = None \<and> token = None
             \<and> tokenFile = Some f \<and> Option.bind (read_file h f) (\<lambda>c. if trim c = [] then None else Some c) \<noteq> None)"
  by (cases a; cases "env (js ''ARMADA_AUTH_USERNAME'')"; cases "env (js ''ARMADA_AUTH_PASSWORD'')";
      cases "env (js ''ARMADA_AUTH_TOKEN'')"; cases "env (js ''ARMADA_AUTH_TOKEN_FILE'')";
      auto simp: readAuth_def split: option.splits if_splits)

subsection \<open>The GPU types of a profile list\<close>

type_synonym profile = "jsstring \<times> (jsstring \<times> jsstring) list"

definition show_profile :: "profile \<Rightarrow> jsstring" where
  "show_profile p = fst p @ [58] @ join [59] (map (\<lambda>(k, v). k @ [61] @ v) (snd p))"

definition avoids :: "nat list \<Rightarrow> jsstring \<Rightarrow> bool" where
  "avoids cs s \<longleftrightarrow> list_all (\<lambda>c. c \<notin> set s) cs"

definition clean_profile :: "profile \<Rightarrow> bool" where
  "clean_profile p \<longleftrightarrow> avoids [44, 58] (fst p) \<and> snd p \<noteq> []
     \<and> list_all (\<lambda>kv. avoids [44, 59, 61] (fst kv) \<and> avoids [44, 59, 61] (snd kv)) (snd p)"

definition gpu_of :: "jsstring \<times> jsstring \<Rightarrow> jsstring list" where
  "gpu_of kv =
     (if trim (fst kv) = js ''gpu'' then
        filter (\<lambda>t. t \<noteq> []) [toUpperCase (trim (takeWhile (\<lambda>c. c \<noteq> 58) (snd kv)))]
      else [])"

lemma hd_splitOn: "hd (splitOn c s) = takeWhile (\<lambda>x. x \<noteq> c) s"
  by (induction s) auto

lemma pair_gpu_types_clean:
  "avoids [61] k \<Longrightarrow> avoids [61] v \<Longrightarrow> pair_gpu_types (k @ [61] @ v) = gpu_of (k, v)"
  by (simp add: pair_gpu_types_def gpu_of_def avoids_def splitOn_append splitOn_word hd_splitOn Let_def)

lemma indexOf_first: "c \<notin> set l \<Longrightarrow> slice_from (indexOf c (l @ c # r) + 1) (l @ c # r) = r"
  by (induction l) (auto simp: slice_from_def nat_add_distrib)

lemma set_join: "set (join sep xs) \<subseteq> set sep \<union> \<Union> (set ` set xs)"
  by (induction sep xs rule: join.induct) auto

lemma show_profile_no_comma: "clean_profile p \<Longrightarrow> 44 \<notin> set (show_profile p)"
  using set_join[of "[59]" "map (\<lambda>(k, v). k @ [61] @ v) (snd p)"]
  by (fastforce simp: show_profile_def clean_profile_def avoids_def list_all_iff)

lemma profile_pairs:
  assumes "clean_profile p"
  shows "splitOn 59 (slice_from (indexOf 58 (show_profile p) + 1) (show_profile p)) =
     map (\<lambda>(k, v). k @ [61] @ v) (snd p)"
proof -
  have "58 \<notin> set (fst p)" using assms by (simp add: clean_profile_def avoids_def)
  then have "slice_from (indexOf 58 (show_profile p) + 1) (show_profile p) =
      join [59] (map (\<lambda>(k, v). k @ [61] @ v) (snd p))"
    by (simp add: show_profile_def indexOf_first)
  also have "splitOn 59 \<dots> = map (\<lambda>(k, v). k @ [61] @ v) (snd p)"
    using assms by (intro splitOn_join) (auto simp: clean_profile_def avoids_def list_all_iff)
  finally show ?thesis .
qed

text \<open>Note: Reading the GPU types back from a rendered profile list gives the type of every \<open>gpu\<close> entry of
  every profile, trimmed, without its count and in upper case, in order, and nothing else.\<close>

theorem profileGpuTypes_render:
  assumes "list_all clean_profile ps" and "ps \<noteq> []"
  shows "profileGpuTypes (Some (join [44] (map show_profile ps))) =
    concat (map (\<lambda>p. concat (map gpu_of (snd p))) ps)"
proof -
  have split: "splitOn 44 (join [44] (map show_profile ps)) = map show_profile ps"
    using assms by (intro splitOn_join) (auto simp: list_all_iff show_profile_no_comma)
  have "concat (map pair_gpu_types (splitOn 59 (slice_from (indexOf 58 (show_profile p) + 1) (show_profile p))))
      = concat (map gpu_of (snd p))" if "p \<in> set ps" for p
  proof -
    have ok: "clean_profile p" using assms(1) that by (simp add: list_all_iff)
    then have "map (pair_gpu_types \<circ> (\<lambda>(k, v). k @ [61] @ v)) (snd p) = map gpu_of (snd p)"
      by (intro map_cong) (auto simp: clean_profile_def list_all_iff avoids_def
          intro!: pair_gpu_types_clean[simplified])
    then show ?thesis by (simp only: profile_pairs[OF ok] map_map)
  qed
  then show ?thesis
    unfolding profileGpuTypes_def or_else_simps split map_map o_def by (metis (mono_tags, lifting) map_cong)
qed

lemma profileGpuTypes_render_witness:
  "profileGpuTypes (Some (join [44] (map show_profile
      [(js ''big'', [(js ''cpu'', js ''4''), (js ''gpu'', js ''a100:2'')])]))) = [js ''A100'']"
  by (subst profileGpuTypes_render)
    (simp_all add: clean_profile_def avoids_def gpu_of_def js_def trim_no_space is_space_def
      toUpperCase_def upper_unit_def)

end
