(* ===== verification/PodSpec.thy ===== *)
theory PodSpec
  imports Config
begin

section \<open>The pod of a session (\<open>src/podspec.ts\<close>)\<close>

text \<open>
  \<open>buildPodSpec\<close> turns the configuration, the hash of the agent's token and the options of a session
  into the pod submitted to Armada.  A member the source leaves out of the object literal is \<open>None\<close>.
  The lemmas show what Armada asks of a pod: requests equal to limits on every container, a deadline
  and a grace period of its own, a declared port for everything that is to have an address; that the
  memory quantity stands for the bytes that were asked for; and that a GPU session is placed where
  the configuration says or not at all.
\<close>

subsection \<open>The slice of the Kubernetes types\<close>

record V1ResourceRequirements =
  requests :: "jsstring obj"
  limits :: "jsstring obj"

record V1EnvVar =
  ev_name :: jsstring
  ev_value :: jsstring

record V1ContainerPort =
  containerPort :: int
  protocol :: jsstring

record V1VolumeMount =
  vm_name :: jsstring
  mountPath :: jsstring

record V1Container =
  ctr_name :: jsstring
  ctr_image :: jsstring
  ctr_command :: "jsstring list"
  ctr_env :: "V1EnvVar list option"
  ctr_ports :: "V1ContainerPort list option"
  ctr_resources :: V1ResourceRequirements
  ctr_volumeMounts :: "V1VolumeMount list"

record V1PodSecurityContext =
  sc_runAsUser :: "int option"
  sc_runAsGroup :: "int option"
  sc_fsGroup :: "int option"

record V1PodSpec =
  restartPolicy :: jsstring
  terminationGracePeriodSeconds :: int
  activeDeadlineSeconds :: jsnum
  priorityClassName :: "jsstring option"
  nodeSelector :: "jsstring obj option"
  pod_imagePullSecrets :: "jsstring list option"
  pod_securityContext :: "V1PodSecurityContext option"
  emptyDir_volumes :: "jsstring list"
  initContainers :: "V1Container list"
  containers :: "V1Container list"

subsection \<open>Constants\<close>

definition KERNEL_CONTAINER :: jsstring where "KERNEL_CONTAINER = js ''kernel''"
definition AGENT_DIR :: jsstring where "AGENT_DIR = js ''/mh-agent''"
definition AGENT_PATH :: jsstring where "AGENT_PATH = AGENT_DIR @ js ''/agent''"
definition AGENT_VOLUME :: jsstring where "AGENT_VOLUME = js ''mh-agent''"
definition AGENT_TOKEN_HASH_ENV :: jsstring where "AGENT_TOKEN_HASH_ENV = js ''MH_AGENT_TOKEN_SHA256''"

record AgentSpec =
  tokenSha256 :: jsstring

definition DEFAULT_CPU :: jsstring where "DEFAULT_CPU = js ''1''"
definition DEFAULT_MEMORY :: jsstring where "DEFAULT_MEMORY = js ''2Gi''"
definition TERMINATION_GRACE_SECONDS :: int where "TERMINATION_GRACE_SECONDS = 30"

definition AGENT_INSTALL_RESOURCES :: "jsstring obj" where
  "AGENT_INSTALL_RESOURCES = [(js ''cpu'', js ''100m''), (js ''memory'', js ''64Mi'')]"

definition MI :: int where "MI = 1024 ^ 2"
definition GI :: int where "GI = 1024 ^ 3"

subsection \<open>Resources\<close>

text \<open>\<open>bytes % unit === 0\<close>, with the quotient when it holds; a remainder of \<open>NaN\<close> or of an infinity is
  \<open>NaN\<close>.\<close>

definition whole_units :: "jsnum \<Rightarrow> int \<Rightarrow> int option" where
  "whole_units bytes unit = (case bytes of Fin r \<Rightarrow> integer_of (Fin (r / of_int unit)) | _ \<Rightarrow> None)"

definition memoryQuantity :: "jsnum \<Rightarrow> jsstring" where
  "memoryQuantity bytes =
     (case whole_units bytes GI of
        Some n \<Rightarrow> show_int n @ js ''Gi''
      | None \<Rightarrow>
          (case whole_units bytes MI of
             Some n \<Rightarrow> show_int n @ js ''Mi''
           | None \<Rightarrow> num_String (num_ceil bytes)))"

definition parseGpu :: "jsstring \<Rightarrow> jsstring \<times> jsstring" where
  "parseGpu gpu =
     (let parts = splitOn 58 gpu
      in (toUpperCase (hd parts), if 1 < length parts then parts ! 1 else js ''1''))"

definition requested_gpu :: "ComputeResources option \<Rightarrow> jsstring option" where
  "requested_gpu resources =
     (case Option.bind resources res_gpu of
        None \<Rightarrow> None
      | Some gpu \<Rightarrow> if gpu = [] then None else Some gpu)"

definition quantities :: "ComputeResources option \<Rightarrow> jsstring obj" where
  "quantities resources =
     [(js ''cpu'', case Option.bind resources res_cpu of None \<Rightarrow> DEFAULT_CPU | Some n \<Rightarrow> num_String n),
      (js ''memory'',
       case Option.bind resources res_memoryBytes of None \<Rightarrow> DEFAULT_MEMORY | Some n \<Rightarrow> memoryQuantity n)]
     @ (case requested_gpu resources of
          None \<Rightarrow> []
        | Some gpu \<Rightarrow> [(js ''nvidia.com/gpu'', snd (parseGpu gpu))])"

definition gpuNodeSelector ::
  "ArmadaConfig \<Rightarrow> ComputeResources option \<Rightarrow> jsstring obj option result" where
  "gpuNodeSelector config resources =
     (case requested_gpu resources of
        None \<Rightarrow> Inr None
      | Some gpu \<Rightarrow>
          (let type = fst (parseGpu gpu) in
           case obj_get (cfg_gpuNodeSelectors config) type of
             None \<Rightarrow> Inl (err [js ''GPU type '', type,
               js '' has no node selector in ARMADA_GPU_NODE_SELECTORS, so a pod cannot be placed on it''])
           | Some selector \<Rightarrow> Inr (Some selector)))"

definition securityContext :: "ArmadaConfig \<Rightarrow> V1PodSecurityContext option" where
  "securityContext config =
     (if cfg_runAsUser config = None \<and> cfg_runAsGroup config = None \<and> cfg_fsGroup config = None then None
      else Some \<lparr>sc_runAsUser = cfg_runAsUser config, sc_runAsGroup = cfg_runAsGroup config,
             sc_fsGroup = cfg_fsGroup config\<rparr>)"

subsection \<open>The pod\<close>

definition agent_mount :: V1VolumeMount where
  "agent_mount = \<lparr>vm_name = AGENT_VOLUME, mountPath = AGENT_DIR\<rparr>"

definition install_container :: "ArmadaConfig \<Rightarrow> V1Container" where
  "install_container config =
     \<lparr>ctr_name = js ''agent-install'', ctr_image = cfg_agentImage config,
      ctr_command = [js ''/agent'', js ''install'', AGENT_PATH],
      ctr_env = None, ctr_ports = None,
      ctr_resources = \<lparr>requests = AGENT_INSTALL_RESOURCES, limits = AGENT_INSTALL_RESOURCES\<rparr>,
      ctr_volumeMounts = [agent_mount]\<rparr>"

definition kernel_container ::
  "ArmadaConfig \<Rightarrow> AgentSpec \<Rightarrow> CreateSandboxOptions option \<Rightarrow> jsstring obj \<Rightarrow> V1Container" where
  "kernel_container config agent options resources =
     \<lparr>ctr_name = KERNEL_CONTAINER,
      ctr_image = or_else (Option.bind options opt_image) (cfg_image config),
      ctr_command = [AGENT_PATH, js ''--port'', show_int (cfg_agentPort config)],
      ctr_env = Some [\<lparr>ev_name = AGENT_TOKEN_HASH_ENV, ev_value = tokenSha256 agent\<rparr>],
      ctr_ports = Some (map (\<lambda>port. \<lparr>containerPort = port, protocol = js ''TCP''\<rparr>)
        ([cfg_port config, cfg_agentPort config] @ cfg_surfacePorts config)),
      ctr_resources = \<lparr>requests = resources, limits = resources\<rparr>,
      ctr_volumeMounts = [agent_mount]\<rparr>"

definition buildPodSpec ::
  "ArmadaConfig \<Rightarrow> AgentSpec \<Rightarrow> CreateSandboxOptions option \<Rightarrow> V1PodSpec result" where
  "buildPodSpec config agent options =
     (let resources = quantities (Option.bind options opt_resources) in
      bindR (gpuNodeSelector config (Option.bind options opt_resources)) (\<lambda>selector.
        Inr \<lparr>restartPolicy = js ''Never'',
          terminationGracePeriodSeconds = TERMINATION_GRACE_SECONDS,
          activeDeadlineSeconds = cfg_maxLifetimeSeconds config,
          priorityClassName = cfg_priorityClassName config,
          nodeSelector = selector,
          pod_imagePullSecrets =
            (if cfg_imagePullSecrets config = [] then None else Some (cfg_imagePullSecrets config)),
          pod_securityContext = securityContext config,
          emptyDir_volumes = [AGENT_VOLUME],
          initContainers = [install_container config],
          containers = [kernel_container config agent options resources]\<rparr>))"

definition exposedPorts :: "V1PodSpec \<Rightarrow> int list" where
  "exposedPorts spec =
     concat (map (\<lambda>container. map containerPort (or_else (ctr_ports container) [])) (containers spec))"

subsection \<open>Quantities as Kubernetes reads them\<close>

definition whole_number :: "jsstring \<Rightarrow> nat option" where
  "whole_number s = (if s \<noteq> [] \<and> list_all is_digit s then Some (digits_val s) else None)"

definition quantity_bytes :: "jsstring \<Rightarrow> nat option" where
  "quantity_bytes s =
     (let digits = takeWhile is_digit s; suffix = dropWhile is_digit s in
      if suffix = [] then whole_number digits
      else if suffix = js ''Mi'' then map_option (\<lambda>n. n * 1024 ^ 2) (whole_number digits)
      else if suffix = js ''Gi'' then map_option (\<lambda>n. n * 1024 ^ 3) (whole_number digits)
      else None)"

lemma quantity_suffix:
  assumes "u \<noteq> [] \<longrightarrow> \<not> is_digit (hd u)"
  shows "takeWhile is_digit (show_nat n @ u) = show_nat n" "dropWhile is_digit (show_nat n @ u) = u"
proof -
  have "takeWhile is_digit u = []" "dropWhile is_digit u = u"
    using assms by (cases u; simp)+
  then show "takeWhile is_digit (show_nat n @ u) = show_nat n" "dropWhile is_digit (show_nat n @ u) = u"
    using show_nat_digits[of n] by (simp_all add: takeWhile_append dropWhile_append)
qed

lemma whole_number_show [simp]: "whole_number (show_nat n) = Some n"
  using show_nat_digits[of n] by (simp add: whole_number_def list_all_iff)

lemma quantity_bytes_show:
  "quantity_bytes (show_nat n) = Some n"
  "quantity_bytes (show_nat n @ js ''Mi'') = Some (n * 1024 ^ 2)"
  "quantity_bytes (show_nat n @ js ''Gi'') = Some (n * 1024 ^ 3)"
proof -
  have m: "js ''Mi'' \<noteq> [] \<longrightarrow> \<not> is_digit (hd (js ''Mi''))" and g: "js ''Gi'' \<noteq> [] \<longrightarrow> \<not> is_digit (hd (js ''Gi''))"
    by (simp_all add: js_def is_digit_def)
  have plain: "takeWhile is_digit (show_nat n) = show_nat n" "dropWhile is_digit (show_nat n) = []"
    using show_nat_digits[of n] by (simp_all add: takeWhile_eq_all_conv)
  show "quantity_bytes (show_nat n) = Some n"
    unfolding quantity_bytes_def Let_def plain by simp
  show "quantity_bytes (show_nat n @ js ''Mi'') = Some (n * 1024 ^ 2)"
    unfolding quantity_bytes_def Let_def quantity_suffix[OF m] by simp
  show "quantity_bytes (show_nat n @ js ''Gi'') = Some (n * 1024 ^ 3)"
    unfolding quantity_bytes_def Let_def quantity_suffix[OF g] by simp
qed

lemma whole_units_Some:
  "0 < u \<Longrightarrow> whole_units (Fin r) u = Some n \<longleftrightarrow> r = of_int (n * u)"
  by (auto simp: whole_units_def integer_of_Some of_whole_def field_simps)

text \<open>Note: The memory quantity of a pod stands for the bytes that were asked for, rounded up to a whole byte,
  in whichever of the three forms it is printed.\<close>

theorem memoryQuantity_bytes:
  assumes "0 \<le> r"
  shows "quantity_bytes (memoryQuantity (Fin r)) = Some (nat \<lceil>r\<rceil>)"
proof -
  have gi: "(0::int) < GI" and mi: "(0::int) < MI" by (simp_all add: GI_def MI_def)
  consider (gi) n where "whole_units (Fin r) GI = Some n"
    | (mi) n where "whole_units (Fin r) GI = None" "whole_units (Fin r) MI = Some n"
    | (b) "whole_units (Fin r) GI = None" "whole_units (Fin r) MI = None"
    by (cases "whole_units (Fin r) GI"; cases "whole_units (Fin r) MI") auto
  then show ?thesis
  proof cases
    case gi
    then have r: "r = of_int (n * GI)" using \<open>0 < GI\<close> whole_units_Some by blast
    then have "0 \<le> n" using assms \<open>0 < GI\<close> by (simp add: zero_le_mult_iff)
    then have "quantity_bytes (memoryQuantity (Fin r)) = Some (nat n * 1024 ^ 3)"
      using gi by (simp add: memoryQuantity_def show_int_def quantity_bytes_show)
    moreover have "nat \<lceil>r\<rceil> = nat n * 1024 ^ 3"
      using \<open>0 \<le> n\<close> unfolding r ceiling_of_int GI_def by (simp add: nat_mult_distrib)
    ultimately show ?thesis by simp
  next
    case mi
    then have r: "r = of_int (n * MI)" using \<open>0 < MI\<close> whole_units_Some by blast
    then have "0 \<le> n" using assms \<open>0 < MI\<close> by (simp add: zero_le_mult_iff)
    then have "quantity_bytes (memoryQuantity (Fin r)) = Some (nat n * 1024 ^ 2)"
      using mi by (simp add: memoryQuantity_def show_int_def quantity_bytes_show)
    moreover have "nat \<lceil>r\<rceil> = nat n * 1024 ^ 2"
      using \<open>0 \<le> n\<close> unfolding r ceiling_of_int MI_def by (simp add: nat_mult_distrib)
    ultimately show ?thesis by simp
  next
    case b
    have "0 \<le> \<lceil>r\<rceil>" using assms by simp
    then show ?thesis
      using b by (simp add: memoryQuantity_def num_ceil_def num_String_whole show_int_def quantity_bytes_show)
  qed
qed

lemma memoryQuantity_bytes_witness:
  "quantity_bytes (memoryQuantity (Fin (2 * 1024 ^ 3))) = Some (2 * 1024 ^ 3)"
  using memoryQuantity_bytes[of "2 * 1024 ^ 3"] by simp

subsection \<open>What Armada asks of a pod\<close>

lemma buildPodSpec_Inr:
  assumes "buildPodSpec config agent options = Inr spec"
  obtains selector where "gpuNodeSelector config (Option.bind options opt_resources) = Inr selector"
    and "nodeSelector spec = selector"
    and "containers spec = [kernel_container config agent options (quantities (Option.bind options opt_resources))]"
    and "initContainers spec = [install_container config]"
    and "activeDeadlineSeconds spec = cfg_maxLifetimeSeconds config"
    and "terminationGracePeriodSeconds spec = 30"
    and "restartPolicy spec = js ''Never''"
  using assms by (auto simp: buildPodSpec_def Let_def bindR_eq_Inr TERMINATION_GRACE_SECONDS_def)

definition armada_accepts :: "V1PodSpec \<Rightarrow> bool" where
  "armada_accepts spec \<longleftrightarrow>
     containers spec \<noteq> []
     \<and> list_all (\<lambda>c. requests (ctr_resources c) = limits (ctr_resources c)
          \<and> list_all (\<lambda>r. obj_get (requests (ctr_resources c)) r \<noteq> None) [js ''cpu'', js ''memory''])
        (initContainers spec @ containers spec)
     \<and> 1 \<le> terminationGracePeriodSeconds spec \<and> terminationGracePeriodSeconds spec \<le> 300"

text \<open>Note: Every pod the adapter builds meets Armada's submission rules: requests equal limits and name CPU
  and memory on every container, init containers included; the grace period is inside one second
  to five minutes; and the pod carries the configured deadline, never the server's default.\<close>

theorem buildPodSpec_accepted:
  assumes "buildPodSpec config agent options = Inr spec"
  shows "armada_accepts spec \<and> activeDeadlineSeconds spec = cfg_maxLifetimeSeconds config
    \<and> restartPolicy spec = js ''Never''"
  using assms
  by (auto elim!: buildPodSpec_Inr simp: armada_accepts_def install_container_def kernel_container_def
      AGENT_INSTALL_RESOURCES_def quantities_def)

definition demo_config :: ArmadaConfig where
  "demo_config =
     \<lparr>cfg_url = js ''https://a'', cfg_expose = NodePort, cfg_queue = js ''q'',
      cfg_queueByUser = [(js ''ann'', js ''q-ann'')], cfg_queueByProject = [(js ''p'', js ''q-p'')],
      cfg_namespace = js ''default'', cfg_priorityClassName = None, cfg_image = js ''kernel'',
      cfg_sandboxHostname = None, cfg_port = 2718, cfg_agentImage = js ''agent'', cfg_agentPort = 8718,
      cfg_agentTokenSecret = replicate 32 120, cfg_imagePullSecrets = [], cfg_runAsUser = None,
      cfg_runAsGroup = None, cfg_fsGroup = None, cfg_surfacePorts = [8443],
      cfg_gpuNodeSelectors = [(js ''A100'', [(js ''gpu'', js ''a100'')])], cfg_podLabels = [],
      cfg_podAnnotations = [], cfg_lookoutUrl = Some (js ''https://l''),
      cfg_maxLifetimeSeconds = of_whole 86400, cfg_commandMaxSeconds = 21600, cfg_auth = Anonymous\<rparr>"

lemma demo_pod: "\<exists>spec. buildPodSpec demo_config \<lparr>tokenSha256 = js ''ab''\<rparr> None = Inr spec"
  by (simp add: buildPodSpec_def gpuNodeSelector_def requested_gpu_def Let_def)

lemma buildPodSpec_accepted_witness:
  "\<exists>spec. buildPodSpec demo_config \<lparr>tokenSha256 = js ''ab''\<rparr> None = Inr spec \<and> armada_accepts spec"
  using demo_pod buildPodSpec_accepted by blast

text \<open>Note: The ports of the pod are the kernel's, the agent's and then each surface's, and each of them is
  declared, so each earns an address; nothing else is exposed.\<close>

theorem buildPodSpec_ports:
  assumes "buildPodSpec config agent options = Inr spec"
  shows "exposedPorts spec = cfg_port config # cfg_agentPort config # cfg_surfacePorts config"
  using assms
  by (auto elim!: buildPodSpec_Inr simp: exposedPorts_def kernel_container_def comp_def)

lemma buildPodSpec_ports_witness:
  "\<exists>spec. buildPodSpec demo_config \<lparr>tokenSha256 = js ''ab''\<rparr> None = Inr spec
     \<and> exposedPorts spec = [2718, 8718, 8443]"
proof -
  obtain spec where "buildPodSpec demo_config \<lparr>tokenSha256 = js ''ab''\<rparr> None = Inr spec"
    using demo_pod by blast
  from this buildPodSpec_ports[OF this] show ?thesis by (auto simp: demo_config_def)
qed

subsection \<open>GPU placement\<close>

text \<open>A GPU request of marimohub: a type, and a count unless it is one.\<close>

definition gpu_request :: "jsstring \<Rightarrow> jsstring option \<Rightarrow> jsstring" where
  "gpu_request type count = type @ (case count of None \<Rightarrow> [] | Some n \<Rightarrow> 58 # n)"

lemma parseGpu_request:
  "58 \<notin> set type \<Longrightarrow> (case count of None \<Rightarrow> True | Some n \<Rightarrow> 58 \<notin> set n) \<Longrightarrow>
     parseGpu (gpu_request type count) = (toUpperCase type, or_else count (js ''1''))"
  by (cases count) (simp_all add: parseGpu_def gpu_request_def splitOn_word splitOn_append Let_def)

lemma gpuNodeSelector_fails:
  "fails (gpuNodeSelector config resources) \<longleftrightarrow>
     (case requested_gpu resources of
        None \<Rightarrow> False
      | Some gpu \<Rightarrow> obj_get (cfg_gpuNodeSelectors config) (fst (parseGpu gpu)) = None)"
  by (auto simp: gpuNodeSelector_def Let_def split: option.splits)

text \<open>Note: A session that asks for GPUs gets a pod on the nodes its type maps to, asking for its count, or no
  pod at all when the type has no mapping; a session that asks for none has no node selector and no
  GPU quantity.\<close>

theorem buildPodSpec_gpu:
  "case requested_gpu (Option.bind options opt_resources) of
     None \<Rightarrow>
       (\<exists>spec. buildPodSpec config agent options = Inr spec \<and> nodeSelector spec = None
          \<and> list_all (\<lambda>c. obj_get (requests (ctr_resources c)) (js ''nvidia.com/gpu'') = None)
              (initContainers spec @ containers spec))
   | Some gpu \<Rightarrow>
       (case obj_get (cfg_gpuNodeSelectors config) (fst (parseGpu gpu)) of
          None \<Rightarrow> fails (buildPodSpec config agent options)
        | Some selector \<Rightarrow>
            (\<exists>spec. buildPodSpec config agent options = Inr spec \<and> nodeSelector spec = Some selector
               \<and> list_all (\<lambda>c. obj_get (limits (ctr_resources c)) (js ''nvidia.com/gpu'') = Some (snd (parseGpu gpu)))
                   (containers spec)))"
  by (auto simp: buildPodSpec_def gpuNodeSelector_def Let_def quantities_def install_container_def
      kernel_container_def AGENT_INSTALL_RESOURCES_def split: option.splits)

end
