(* ===== verification/ArmadaTypes.thy ===== *)
theory ArmadaTypes
  imports PodSpec
begin

section \<open>The slice of Armada's REST API (\<open>src/armada-types.ts\<close>)\<close>

text \<open>
  The request bodies the adapter sends, as records, and the answers it reads, decoded from JSON.  The
  sources check that an answer is an object and then read it at its declared type, every member
  optional; a member that is missing, or whose JSON type is not the declared one, decodes to None.
  Timestamps and identifiers are strings.
\<close>

subsection \<open>Requests\<close>

record IngressConfig =
  ing_ports :: "int list"
  tlsEnabled :: bool
  certName :: "jsstring option"
  useClusterIP :: bool
  ing_annotations :: "jsstring obj option"

datatype service_type = ServiceNodePort | ServiceHeadless

record ServiceConfig =
  svc_type :: service_type
  svc_ports :: "int list"

record JobSubmitRequestItem =
  clientId :: jsstring
  externalJobUri :: jsstring
  item_namespace :: jsstring
  podSpec :: V1PodSpec
  labels :: "jsstring obj option"
  annotations :: "jsstring obj"
  item_ingress :: "IngressConfig list option"
  services :: "ServiceConfig list option"

record JobSubmitRequest =
  sub_queue :: jsstring
  sub_jobSetId :: jsstring
  jobRequestItems :: "JobSubmitRequestItem list"

record JobSetRequest =
  set_queue :: jsstring
  set_id :: jsstring
  watch :: bool
  errorIfMissing :: bool

record JobCancelRequest =
  cancel_queue :: jsstring
  cancel_jobSetId :: jsstring
  cancel_jobId :: "jsstring option"

record JobStatusUsingExternalJobUriRequest =
  status_queue :: jsstring
  status_jobset :: jsstring
  status_externalJobUri :: jsstring

datatype filter_value = OneValue jsstring | AnyValue "jsstring list"
datatype filter_match = MatchExact | MatchAnyOf
datatype order_direction = ASC | DESC

record LookoutFilter =
  flt_field :: jsstring
  flt_value :: filter_value
  flt_match :: filter_match
  isAnnotation :: bool

record LookoutOrder =
  ord_field :: jsstring
  ord_direction :: order_direction

record LookoutGetJobsRequest =
  filters :: "LookoutFilter list"
  order :: LookoutOrder
  jobs_skip :: nat
  jobs_take :: nat

subsection \<open>Answers\<close>

definition json_at :: "json \<Rightarrow> jsstring \<Rightarrow> json option" where
  "json_at v k = (case v of JObj ms \<Rightarrow> obj_get ms k | _ \<Rightarrow> None)"

definition str_at :: "json \<Rightarrow> jsstring \<Rightarrow> jsstring option" where
  "str_at v k = (case json_at v k of Some (JStr s) \<Rightarrow> Some s | _ \<Rightarrow> None)"

definition obj_at :: "json \<Rightarrow> jsstring \<Rightarrow> json option" where
  "obj_at v k = (case json_at v k of Some (JObj ms) \<Rightarrow> Some (JObj ms) | _ \<Rightarrow> None)"

definition arr_at :: "json \<Rightarrow> jsstring \<Rightarrow> json list option" where
  "arr_at v k = (case json_at v k of Some (JArr vs) \<Rightarrow> Some vs | _ \<Rightarrow> None)"

definition is_true :: "json \<Rightarrow> jsstring \<Rightarrow> bool" where
  "is_true v k \<longleftrightarrow> json_at v k = Some (JBool True)"

record JobSubmitResponseItem =
  rsp_jobId :: "jsstring option"
  rsp_error :: "jsstring option"

definition decode_submit :: "json \<Rightarrow> JobSubmitResponseItem list option" where
  "decode_submit v =
     map_option (map (\<lambda>i. \<lparr>rsp_jobId = str_at i (js ''jobId''), rsp_error = str_at i (js ''error'')\<rparr>))
       (arr_at v (js ''jobResponseItems''))"

record StreamError =
  stream_message :: "jsstring option"

record JobRunningEvent =
  run_jobId :: "jsstring option"
  run_clusterId :: "jsstring option"
  run_podName :: "jsstring option"
  run_podNamespace :: "jsstring option"
  run_nodeName :: "jsstring option"

record JobIngressInfoEvent =
  info_jobId :: "jsstring option"
  ingressAddresses :: "jsstring option obj option"

record JobFailedEvent =
  fail_jobId :: "jsstring option"
  fail_reason :: "jsstring option"
  retryable :: bool

record EventMessage =
  running :: "JobRunningEvent option"
  ingressInfo :: "JobIngressInfoEvent option"
  failed :: "JobFailedEvent option"
  cancelled :: "jsstring option option"    \<comment> \<open>the event, and the job id it carries\<close>

record EventStreamLine =
  line_error :: "StreamError option"
  line_message :: "EventMessage option"    \<comment> \<open>\<open>line.result?.message\<close>\<close>

definition decode_running :: "json \<Rightarrow> JobRunningEvent" where
  "decode_running v =
     \<lparr>run_jobId = str_at v (js ''jobId''), run_clusterId = str_at v (js ''clusterId''),
      run_podName = str_at v (js ''podName''), run_podNamespace = str_at v (js ''podNamespace''),
      run_nodeName = str_at v (js ''nodeName'')\<rparr>"

definition decode_info :: "json \<Rightarrow> JobIngressInfoEvent" where
  "decode_info v =
     \<lparr>info_jobId = str_at v (js ''jobId''),
      ingressAddresses =
        (case json_at v (js ''ingressAddresses'') of
           Some (JObj ms) \<Rightarrow> Some (map (\<lambda>(k, a). (k, case a of JStr s \<Rightarrow> Some s | _ \<Rightarrow> None)) ms)
         | _ \<Rightarrow> None)\<rparr>"

definition decode_failed :: "json \<Rightarrow> JobFailedEvent" where
  "decode_failed v =
     \<lparr>fail_jobId = str_at v (js ''jobId''), fail_reason = str_at v (js ''reason''),
      retryable = is_true v (js ''retryable'')\<rparr>"

definition decode_message :: "json \<Rightarrow> EventMessage" where
  "decode_message v =
     \<lparr>running = map_option decode_running (obj_at v (js ''running'')),
      ingressInfo = map_option decode_info (obj_at v (js ''ingressInfo'')),
      failed = map_option decode_failed (obj_at v (js ''failed'')),
      cancelled = map_option (\<lambda>e. str_at e (js ''jobId'')) (obj_at v (js ''cancelled''))\<rparr>"

definition decode_line :: "json \<Rightarrow> EventStreamLine" where
  "decode_line v =
     \<lparr>line_error = map_option (\<lambda>e. \<lparr>stream_message = str_at e (js ''message'')\<rparr>) (obj_at v (js ''error'')),
      line_message = map_option decode_message
        (Option.bind (obj_at v (js ''result'')) (\<lambda>r. obj_at r (js ''message'')))\<rparr>"

text \<open>\<open>JOB_STATE\<close>: the numbers of the states, in the order of the proto.\<close>

datatype job_state =
  QUEUED | PENDING | RUNNING | SUCCEEDED | FAILED | UNKNOWN | SUBMITTED | LEASED | PREEMPTED
  | CANCELLED | REJECTED

primrec JOB_STATE :: "job_state \<Rightarrow> int" where
  "JOB_STATE QUEUED = 0"
| "JOB_STATE PENDING = 1"
| "JOB_STATE RUNNING = 2"
| "JOB_STATE SUCCEEDED = 3"
| "JOB_STATE FAILED = 4"
| "JOB_STATE UNKNOWN = 5"
| "JOB_STATE SUBMITTED = 6"
| "JOB_STATE LEASED = 7"
| "JOB_STATE PREEMPTED = 8"
| "JOB_STATE CANCELLED = 9"
| "JOB_STATE REJECTED = 10"

lemma JOB_STATE_inject [simp]: "JOB_STATE a = JOB_STATE b \<longleftrightarrow> a = b"
  by (cases a; cases b) simp_all

text \<open>The states in the order of their numbers.\<close>

instantiation job_state :: linorder
begin

definition less_eq_job_state :: "job_state \<Rightarrow> job_state \<Rightarrow> bool" where
  "less_eq_job_state a b \<longleftrightarrow> JOB_STATE a \<le> JOB_STATE b"

definition less_job_state :: "job_state \<Rightarrow> job_state \<Rightarrow> bool" where
  "less_job_state a b \<longleftrightarrow> JOB_STATE a < JOB_STATE b"

instance
  by standard (auto simp: less_eq_job_state_def less_job_state_def)

end

definition decode_states :: "json \<Rightarrow> jsnum option obj" where
  "decode_states v =
     (case json_at v (js ''jobStates'') of
        Some (JObj ms) \<Rightarrow> map (\<lambda>(k, s). (k, case s of JNum n \<Rightarrow> Some n | _ \<Rightarrow> None)) ms
      | _ \<Rightarrow> [])"

record LookoutJob =
  lk_jobId :: "jsstring option"
  lk_queue :: "jsstring option"
  lk_jobSet :: "jsstring option"
  lk_submitted :: "jsstring option"

definition decode_job :: "json \<Rightarrow> LookoutJob" where
  "decode_job v =
     \<lparr>lk_jobId = str_at v (js ''jobId''), lk_queue = str_at v (js ''queue''),
      lk_jobSet = str_at v (js ''jobSet''), lk_submitted = str_at v (js ''submitted'')\<rparr>"

definition decode_jobs :: "json \<Rightarrow> LookoutJob list" where
  "decode_jobs v = map decode_job (or_else (arr_at v (js ''jobs'')) [])"

end
