(* ===== verification/Ndjson.thy ===== *)
theory Ndjson
  imports Json
begin

section \<open>Newline-delimited JSON (\<open>src/ndjson.ts\<close>)\<close>

text \<open>
  A body is the chunks its reader hands over and how it ends: done, or with the error that the
  next \<open>read\<close> rejects with.  \<open>readNdjson\<close> is the generator: the values it yields in order and the
  error that ends it, if one does.  The loop is the source's: decode the chunk with the state left
  by the chunks before, take the complete lines off the buffer, parse each that is not blank.  The
  theorems say that chunk boundaries do not matter, and what a broken stream still delivers.
  \<open>syn\<close> words the \<open>SyntaxError\<close> of \<open>JSON.parse\<close>, which the platform chooses.
\<close>

record body_stream =
  chunks :: "byte list list"
  ending :: "js_error option"

subsection \<open>The streaming decoder\<close>

record decoder =
  dec_state :: utf8_state
  dec_fresh :: bool    \<comment> \<open>nothing decoded yet, so a byte order mark is dropped\<close>

definition new_decoder :: decoder where
  "new_decoder = \<lparr>dec_state = Start, dec_fresh = True\<rparr>"

definition points_text :: "nat option list \<Rightarrow> jsstring" where
  "points_text ps = concat (map (utf16 \<circ> replacement) ps)"

definition decode_chunk :: "decoder \<Rightarrow> byte list \<Rightarrow> decoder \<times> jsstring" where
  "decode_chunk d bytes =
     (let (st, ps) = utf8_run (dec_state d) bytes;
          text = points_text ps
      in (\<lparr>dec_state = st, dec_fresh = (dec_fresh d \<and> text = [])\<rparr>,
          if dec_fresh d then drop_bom text else text))"

subsection \<open>The generator\<close>

text \<open>The inner loop: the complete lines of the buffer, trimmed, without the blank ones, and what is left.\<close>

function drain :: "jsstring \<Rightarrow> jsstring list \<times> jsstring" where
  "drain buffered =
     (let newline = indexOf 10 buffered in
      if newline = -1 then ([], buffered)
      else
        (let line = trim (slice_to newline buffered);
             (lines, rest) = drain (slice_from (newline + 1) buffered)
         in (if line \<noteq> [] then line # lines else lines, rest)))"
  by pat_completeness auto

termination drain
proof (relation "measure length")
  fix buffered :: jsstring and newline :: int
  assume n: "newline = indexOf 10 buffered" and found: "newline \<noteq> -1"
  then have "buffered \<noteq> []" by auto
  moreover have "0 \<le> newline" using n found indexOf_ge[of 10 buffered] by linarith
  ultimately show "(slice_from (newline + 1) buffered, buffered) \<in> measure length"
    by (simp add: slice_from_def)
qed simp

declare drain.simps [simp del]

fun parse_lines :: "(jsstring \<Rightarrow> jsstring) \<Rightarrow> jsstring list \<Rightarrow> json list \<times> js_error option" where
  "parse_lines syn [] = ([], None)"
| "parse_lines syn (line # lines) =
     (case JSON_parse line of
        None \<Rightarrow> ([], Some (JsError (syn line)))
      | Some v \<Rightarrow> (let (vs, e) = parse_lines syn lines in (v # vs, e)))"

fun nd_loop ::
  "(jsstring \<Rightarrow> jsstring) \<Rightarrow> decoder \<Rightarrow> jsstring \<Rightarrow> byte list list \<Rightarrow> js_error option
     \<Rightarrow> json list \<times> js_error option" where
  "nd_loop syn d buffered [] end =
     (case end of
        Some e \<Rightarrow> ([], Some e)
      | None \<Rightarrow> (let last = trim buffered in if last \<noteq> [] then parse_lines syn [last] else ([], None)))"
| "nd_loop syn d buffered (chunk # rest) end =
     (let (d', text) = decode_chunk d chunk;
          (lines, left) = drain (buffered @ text)
      in case parse_lines syn lines of
           (vs, Some e) \<Rightarrow> (vs, Some e)
         | (vs, None) \<Rightarrow> (let (ws, e) = nd_loop syn d' left rest end in (vs @ ws, e)))"

definition readNdjson :: "(jsstring \<Rightarrow> jsstring) \<Rightarrow> body_stream \<Rightarrow> json list \<times> js_error option" where
  "readNdjson syn body = nd_loop syn new_decoder [] (chunks body) (ending body)"

subsection \<open>Lines of a whole text\<close>

definition text_lines :: "jsstring \<Rightarrow> jsstring list" where
  "text_lines s = filter (\<lambda>l. l \<noteq> []) (map trim (splitOn 10 s))"

lemma splitOn_append_last:
  "splitOn c (s @ t) = butlast (splitOn c s) @ splitOn c (last (splitOn c s) @ t)"
proof (induction s)
  case (Cons x s)
  show ?case
  proof (cases "x = c")
    case True
    then show ?thesis using Cons by simp
  next
    case False
    obtain w ws where "splitOn c s = w # ws" by (meson neq_Nil_conv splitOn_not_Nil)
    with False Cons show ?thesis
      by (cases ws) auto
  qed
qed simp

lemma indexOf_split: "c \<in> set s \<Longrightarrow> \<exists>l r. s = l @ c # r \<and> c \<notin> set l \<and> indexOf c s = int (length l)"
proof (induction s)
  case (Cons x s)
  show ?case
  proof (cases "x = c")
    case True
    then show ?thesis by (intro exI[of _ "[]"] exI[of _ s]) simp
  next
    case False
    with Cons obtain l r where "s = l @ c # r" "c \<notin> set l" "indexOf c s = int (length l)" by auto
    with False show ?thesis by (intro exI[of _ "x # l"] exI[of _ r]) simp
  qed
qed simp

lemma drain_lines: "drain s = (filter (\<lambda>l. l \<noteq> []) (map trim (butlast (splitOn 10 s))), last (splitOn 10 s))"
proof (induction s rule: drain.induct)
  case (1 s)
  show ?case
  proof (cases "10 \<in> set s")
    case False
    then show ?thesis by (simp add: drain.simps[of s] splitOn_word indexOf_none)
  next
    case True
    then obtain l r where s: "s = l @ 10 # r" "10 \<notin> set l" and i: "indexOf 10 s = int (length l)"
      using indexOf_split by blast
    then have "slice_from (indexOf 10 s + 1) s = r" "slice_to (indexOf 10 s) s = l"
      by (simp_all add: slice_from_def slice_to_def nat_add_distrib)
    moreover have "drain r = (filter (\<lambda>l. l \<noteq> []) (map trim (butlast (splitOn 10 r))), last (splitOn 10 r))"
      using 1[OF refl] True calculation(1) by (simp add: indexOf_none)
    ultimately show ?thesis
      using True unfolding drain.simps[of s] Let_def
      by (simp add: indexOf_none) (simp add: s splitOn_append)
  qed
qed

lemma drain_append: "drain s = (ls, rest) \<Longrightarrow> text_lines (s @ t) = ls @ text_lines (rest @ t)"
  by (auto simp: drain_lines text_lines_def splitOn_append_last[of 10 s t])

lemma parse_lines_append:
  "parse_lines syn (ls @ ms) =
     (case parse_lines syn ls of
        (vs, Some e) \<Rightarrow> (vs, Some e)
      | (vs, None) \<Rightarrow> (let (ws, e) = parse_lines syn ms in (vs @ ws, e)))"
  by (induction ls) (auto split: option.splits prod.splits)

lemma decode_chunk_Nil: "decode_chunk d [] = (d, [])"
  by (simp add: decode_chunk_def points_text_def drop_bom_def)

lemma decode_chunk_append:
  "decode_chunk d (a @ b) =
     (let (d1, t1) = decode_chunk d a; (d2, t2) = decode_chunk d1 b in (d2, t1 @ t2))"
proof -
  have "points_text (ps @ qs) = points_text ps @ points_text qs" for ps qs
    by (simp add: points_text_def)
  then show ?thesis
    by (auto simp: decode_chunk_def utf8_run_append Let_def drop_bom_def split: prod.splits)
qed

text \<open>The text of a stream: decoded as a whole, without the replacement character that would stand for an
  incomplete sequence at its end, since the source never flushes the decoder.\<close>

definition stream_text :: "byte list \<Rightarrow> jsstring" where
  "stream_text bs = drop_bom (points_text (snd (utf8_run Start bs)))"

lemma decode_new: "snd (decode_chunk new_decoder bs) = stream_text bs"
  by (simp add: decode_chunk_def new_decoder_def stream_text_def Let_def split: prod.split)

lemma nd_loop_ended:
  "nd_loop syn d buffered cs None =
     parse_lines syn (text_lines (buffered @ snd (decode_chunk d (concat cs)))) " if "10 \<notin> set buffered"
  using that
proof (induction cs arbitrary: d buffered)
  case Nil
  then show ?case
    by (auto simp: decode_chunk_Nil text_lines_def splitOn_word Let_def)
next
  case (Cons chunk cs)
  obtain d' tx where dt: "decode_chunk d chunk = (d', tx)" by fastforce
  obtain ls left where dr: "drain (buffered @ tx) = (ls, left)" by fastforce
  have "10 \<notin> set left"
    using dr splitOn_no_sep[of "last (splitOn 10 (buffered @ tx))" 10 "buffered @ tx"]
    by (auto simp: drain_lines)
  then have IH: "nd_loop syn d' left cs None =
      parse_lines syn (text_lines (left @ snd (decode_chunk d' (concat cs))))"
    by (rule Cons.IH)
  have "text_lines (buffered @ snd (decode_chunk d (concat (chunk # cs)))) =
      ls @ text_lines (left @ snd (decode_chunk d' (concat cs)))"
    using drain_append[OF dr] by (simp add: decode_chunk_append dt split: prod.split)
  then show ?case
    by (simp add: dt dr IH parse_lines_append split: prod.split option.split)
qed

lemma nd_loop_broken:
  assumes "10 \<notin> set buffered"
  shows "nd_loop syn d buffered cs (Some e) =
    (case parse_lines syn (filter (\<lambda>l. l \<noteq> []) (map trim (butlast
        (splitOn 10 (buffered @ snd (decode_chunk d (concat cs))))))) of
       (vs, Some e') \<Rightarrow> (vs, Some e')
     | (vs, None) \<Rightarrow> (vs, Some e))"
  using assms
proof (induction cs arbitrary: d buffered)
  case Nil
  then show ?case by (simp add: decode_chunk_Nil splitOn_word)
next
  case (Cons chunk cs)
  obtain d' tx where dt: "decode_chunk d chunk = (d', tx)" by fastforce
  obtain ls left where dr: "drain (buffered @ tx) = (ls, left)" by fastforce
  let ?t = "snd (decode_chunk d' (concat cs))"
  have "10 \<notin> set left"
    using dr splitOn_no_sep[of "last (splitOn 10 (buffered @ tx))" 10 "buffered @ tx"]
    by (auto simp: drain_lines)
  note IH = Cons.IH[OF this, of d']
  have split: "butlast (splitOn 10 ((buffered @ tx) @ ?t)) =
      butlast (splitOn 10 (buffered @ tx)) @ butlast (splitOn 10 (left @ ?t))"
    using dr unfolding splitOn_append_last[of 10 "buffered @ tx" ?t]
    by (auto simp: drain_lines butlast_append)
  have "snd (decode_chunk d (concat (chunk # cs))) = tx @ ?t"
    by (simp add: decode_chunk_append dt split: prod.split)
  then show ?case
    using dr IH split
    by (auto simp: dt drain_lines parse_lines_append split: prod.splits option.splits)
qed

subsection \<open>What the generator yields\<close>

text \<open>C33: However the body is cut into chunks, the generator yields one parsed value per line of the
  decoded tx that is not blank, the last line included whether or not a newline ends it, and
  stops with the syntax error of the first line that is not JSON.\<close>

theorem readNdjson_lines:
  "readNdjson syn \<lparr>chunks = cs, ending = None\<rparr> = parse_lines syn (text_lines (stream_text (concat cs)))"
  by (simp add: readNdjson_def nd_loop_ended decode_new)

text \<open>Note: A body that breaks off still delivers every line that was completed before it did, in order, and
  then the error; a line cut short is never parsed.\<close>

theorem readNdjson_broken:
  "readNdjson syn \<lparr>chunks = cs, ending = Some e\<rparr> =
     (case parse_lines syn (filter (\<lambda>l. l \<noteq> []) (map trim (butlast (splitOn 10 (stream_text (concat cs)))))) of
        (vs, Some e') \<Rightarrow> (vs, Some e')
      | (vs, None) \<Rightarrow> (vs, Some e))"
  by (simp add: readNdjson_def nd_loop_broken decode_new)

subsection \<open>Texts that are sent as they are\<close>

lemma utf8_run_text:
  "well_formed s \<Longrightarrow> \<exists>ps. utf8_run Start (utf8_bytes s) = (Start, ps) \<and> points_text ps = s"
  using well_formed_points[of s] utf8_run_scalars
  by (force simp: utf8_bytes_def replacement_def points_text_def comp_def)

lemma stream_text_bytes: "well_formed s \<Longrightarrow> stream_text (utf8_bytes s) = drop_bom s"
  using utf8_run_text[of s] by (auto simp: stream_text_def)

lemma body_text_bytes: "well_formed s \<Longrightarrow> body_text (utf8_bytes s) = drop_bom s"
  using utf8_run_text[of s]
  by (auto simp: body_text_def buffer_text_def utf8_points_def utf8_flush_def points_text_def)

lemma readNdjson_one:
  assumes "well_formed s" and "drop_bom s = s" and "trim s = s" and "10 \<notin> set s" and "JSON_parse s = Some v" and "s \<noteq> []"
  shows "readNdjson syn \<lparr>chunks = [utf8_bytes s], ending = None\<rparr> = ([v], None)"
  using assms
  by (simp add: readNdjson_def nd_loop_ended decode_new stream_text_bytes text_lines_def splitOn_word
      del: nd_loop.simps)

text \<open>JSON texts written with backquotes for quotation marks.\<close>

definition jtext :: "string \<Rightarrow> jsstring" where
  "jtext s = map (\<lambda>c. if c = 96 then 34 else c) (js s)"

lemma well_formed_latin: "\<forall>u \<in> set s. u < 256 \<Longrightarrow> well_formed s"
proof -
  have "\<forall>u \<in> set s. u < 256 \<Longrightarrow> None \<notin> set (code_points s)"
    by (induction s rule: code_points.induct) (auto simp: is_high_def is_low_def)
  then show "\<forall>u \<in> set s. u < 256 \<Longrightarrow> well_formed s" by (auto simp: well_formed_def list_all_iff)
qed

lemma jtext_latin: "\<forall>u \<in> set (jtext s). u < 256"
  using js_unit[of _ s] by (auto simp: jtext_def)

lemma jtext_plain [simp]: "well_formed (jtext s)" "drop_bom (jtext s) = jtext s"
  using jtext_latin[of s] by (auto simp: well_formed_latin drop_bom_def dest: bspec hd_in_set)

lemma readNdjson_jtext:
  assumes "list_all (\<lambda>u. \<not> is_space u) (jtext s)" and "JSON_parse (jtext s) = Some v" and "s \<noteq> []"
  shows "readNdjson syn \<lparr>chunks = [utf8_bytes (jtext s)], ending = None\<rparr> = ([v], None)"
proof (rule readNdjson_one)
  have "is_space 10" by (simp add: is_space_def)
  then show "10 \<notin> set (jtext s)" using assms(1) unfolding list_all_iff by blast
  show "trim (jtext s) = jtext s" using assms(1) by (simp add: list_all_iff)
  show "jtext s \<noteq> []" using assms(3) by (simp add: jtext_def)
qed (use assms(2) in simp_all)

end
