(* ===== verification/Net.thy ===== *)
theory Net
  imports ArmadaTypes Ndjson "HOL-Library.Sublist"
begin

section \<open>The platform: requests, time and files\<close>

text \<open>
  What the adapter asks of the world outside goes through \<open>fetch\<close>, \<open>readFile\<close>, the clock and
  \<open>console.warn\<close>.  A \<open>platform\<close> answers: it sees the requests made so far and the new one, and says
  what comes back and how many milliseconds it took, so every theorem quantified over platforms is
  about every behaviour of Armada, Lookout, the agents and the network, refusals and broken bodies
  included.  The state records the requests in order, the time, and the lines written to the log; the
  components extend it with their own fields.  A JSON body is kept as the value that
  \<open>JSON.stringify\<close> is given.
\<close>

subsection \<open>Requests and responses\<close>

datatype request_body =
    SubmitBody JobSubmitRequest
  | JobSetBody JobSetRequest
  | CancelBody JobCancelRequest
  | StatusBody JobStatusUsingExternalJobUriRequest
  | JobsBody LookoutGetJobsRequest
  | JsonBody json
  | TextBody jsstring
  | BytesBody "byte list"

record request =
  req_method :: jsstring
  req_url :: jsstring
  req_headers :: "jsstring obj"
  req_body :: "request_body option"
  req_timeout :: "jsnum option"    \<comment> \<open>the delay of the abort signal, if it has one\<close>

record response =
  rsp_status :: nat
  rsp_statusText :: jsstring
  rsp_body :: "body_stream option"

definition rsp_ok :: "response \<Rightarrow> bool" where
  "rsp_ok r \<longleftrightarrow> 200 \<le> rsp_status r \<and> rsp_status r \<le> 299"

record platform =
  pf_fetch :: "request list \<Rightarrow> request \<Rightarrow> response result \<times> nat"
  pf_file :: "request list \<Rightarrow> jsstring \<Rightarrow> jsstring result"
  pf_lag :: "request list \<Rightarrow> nat"          \<comment> \<open>how late a timer fires\<close>
  pf_syntax :: "jsstring \<Rightarrow> jsstring"       \<comment> \<open>the message of a JSON \<open>SyntaxError\<close>\<close>

record net_state =
  log :: "request list"
  clock :: nat
  warnings :: "jsstring list"

subsection \<open>The calls\<close>

definition fetch :: "platform \<Rightarrow> request \<Rightarrow> ('a net_state_scheme, response) io" where
  "fetch pf req = (\<lambda>s.
     (fst (pf_fetch pf (log s) req),
      s\<lparr>log := log s @ [req], clock := clock s + snd (pf_fetch pf (log s) req)\<rparr>))"

definition readFile_utf8 :: "platform \<Rightarrow> jsstring \<Rightarrow> ('a net_state_scheme, jsstring) io" where
  "readFile_utf8 pf path = (\<lambda>s. (pf_file pf (log s) path, s))"

definition Date_now :: "('a net_state_scheme, nat) io" where
  "Date_now = getIO clock"

definition sleep :: "platform \<Rightarrow> nat \<Rightarrow> ('a net_state_scheme, unit) io" where
  "sleep pf ms = updIO (\<lambda>s. s\<lparr>clock := clock s + ms + pf_lag pf (log s)\<rparr>)"

definition console_warn :: "jsstring \<Rightarrow> ('a net_state_scheme, unit) io" where
  "console_warn line = updIO (\<lambda>s. s\<lparr>warnings := warnings s @ [line]\<rparr>)"

text \<open>A whole body: its bytes, or the error it breaks off with.  A response without a body reads as empty.\<close>

definition stream_bytes :: "body_stream \<Rightarrow> byte list result" where
  "stream_bytes b = (case ending b of Some e \<Rightarrow> Inl e | None \<Rightarrow> Inr (concat (chunks b)))"

definition response_bytes :: "response \<Rightarrow> byte list result" where
  "response_bytes r = (case rsp_body r of None \<Rightarrow> Inr [] | Some b \<Rightarrow> stream_bytes b)"

definition response_text :: "response \<Rightarrow> jsstring result" where
  "response_text r = bindR (response_bytes r) (\<lambda>bs. Inr (body_text bs))"

definition response_json :: "platform \<Rightarrow> response \<Rightarrow> json result" where
  "response_json pf r =
     bindR (response_text r) (\<lambda>t.
       case JSON_parse t of None \<Rightarrow> Inl (JsError (pf_syntax pf t)) | Some v \<Rightarrow> Inr v)"

subsection \<open>URLs\<close>

definition uri_unreserved :: "nat \<Rightarrow> bool" where
  "uri_unreserved b \<longleftrightarrow>
     in_class [(65, 90), (97, 122), (48, 57)] b \<or> b \<in> set [45, 95, 46, 33, 126, 42, 39, 40, 41]"

definition upper_hex :: "nat \<Rightarrow> nat" where
  "upper_hex n = (if n < 10 then 48 + n else 55 + n)"

definition percent :: "nat \<Rightarrow> jsstring" where
  "percent b = (if uri_unreserved b then [b] else [37, upper_hex (b div 16), upper_hex (b mod 16)])"

text \<open>\<open>encodeURIComponent\<close>: a lone surrogate is a \<open>URIError\<close>.\<close>

definition encodeURIComponent :: "jsstring \<Rightarrow> jsstring result" where
  "encodeURIComponent s =
     (if None \<in> set (code_points s) then Inl (JsError (js ''URI malformed''))
      else Inr (concat (map (percent \<circ> unat) (utf8_bytes s))))"

text \<open>Reading it back: what a server does with a query parameter.\<close>

definition hex_value :: "nat \<Rightarrow> nat option" where
  "hex_value c =
     (if 48 \<le> c \<and> c \<le> 57 then Some (c - 48)
      else if 65 \<le> c \<and> c \<le> 70 then Some (c - 55)
      else if 97 \<le> c \<and> c \<le> 102 then Some (c - 87)
      else None)"

fun percent_decode :: "jsstring \<Rightarrow> byte list option" where
  "percent_decode [] = Some []"
| "percent_decode (c # s) =
     (if c = 37 then
        (case s of
           h # l # r \<Rightarrow>
             (case (hex_value h, hex_value l) of
                (Some a, Some b) \<Rightarrow> map_option (Cons (of_nat (16 * a + b))) (percent_decode r)
              | _ \<Rightarrow> None)
         | _ \<Rightarrow> None)
      else map_option (Cons (of_nat c)) (percent_decode s))"

lemma hex_value_upper: "n < 16 \<Longrightarrow> hex_value (upper_hex n) = Some n"
  by (auto simp: hex_value_def upper_hex_def)

lemma percent_decode_percent: "b < 256 \<Longrightarrow> percent_decode (percent b @ s) = map_option (Cons (of_nat b)) (percent_decode s)"
proof (cases "uri_unreserved b")
  case True
  then have "b \<noteq> 37" by (auto simp: uri_unreserved_def in_class_def)
  with True show ?thesis by (simp add: percent_def)
next
  case False
  assume "b < 256"
  then have "b div 16 < 16" "b mod 16 < 16" by auto
  with False show ?thesis by (simp add: percent_def hex_value_upper)
qed

lemma percent_decode_bytes: "percent_decode (concat (map (percent \<circ> unat) bs)) = Some bs"
proof (induction bs)
  case (Cons b bs)
  have "unat b < 256" by (rule order.strict_trans2[OF unsigned_less]) simp
  then show ?case using Cons by (simp add: percent_decode_percent)
qed simp

definition strip_slash :: "jsstring \<Rightarrow> jsstring" where
  "strip_slash base = (if base \<noteq> [] \<and> last base = 47 then butlast base else base)"

subsection \<open>What an operation may do to the state\<close>

text \<open>
  \<open>talks P m\<close>: whatever the platform answers, \<open>m\<close> only adds requests that satisfy \<open>P\<close>, never writes to
  the log, never moves the clock back, and leaves every field of the components alone.
\<close>

definition talks :: "(request \<Rightarrow> bool) \<Rightarrow> ('a net_state_scheme, 'r) io \<Rightarrow> bool" where
  "talks P m \<longleftrightarrow> (\<forall>s. \<exists>l. log (snd (m s)) = log s @ l \<and> list_all P l
     \<and> clock s \<le> clock (snd (m s)) \<and> warnings (snd (m s)) = warnings s
     \<and> net_state.more (snd (m s)) = net_state.more s)"

lemma talksI:
  assumes "\<And>s r t. m s = (r, t) \<Longrightarrow> \<exists>l. log t = log s @ l \<and> list_all P l \<and> clock s \<le> clock t
     \<and> warnings t = warnings s \<and> net_state.more t = net_state.more s"
  shows "talks P m"
  unfolding talks_def using assms by (metis prod.collapse)

lemma talksE:
  assumes "talks P m" and "m s = (r, t)"
  obtains l where "log t = log s @ l" "list_all P l" "clock s \<le> clock t" "warnings t = warnings s"
    "net_state.more t = net_state.more s"
  using assms unfolding talks_def by (metis snd_conv)

lemma talks_more: "talks P m \<Longrightarrow> m s = (r, t) \<Longrightarrow> net_state.more t = net_state.more s"
  and talks_warnings: "talks P m \<Longrightarrow> m s = (r, t) \<Longrightarrow> warnings t = warnings s"
  and talks_clock: "talks P m \<Longrightarrow> m s = (r, t) \<Longrightarrow> clock s \<le> clock t"
  by (auto elim: talksE)

lemma talks_basic [intro, simp]:
  "talks P (returnIO x)" "talks P (throwIO e)" "talks P (liftR r)" "talks P (getIO g)"
  "talks P Date_now" "talks P (readFile_utf8 pf path)"
  by (simp_all add: talks_def io_eval Date_now_def readFile_utf8_def)

lemma talks_sleep [intro, simp]: "talks P (sleep pf ms)"
  by (simp add: talks_def sleep_def io_eval)

lemma talks_fetch [intro]: "P req \<Longrightarrow> talks P (fetch pf req)"
  by (simp add: talks_def fetch_def)

lemma talks_bindIO [intro]:
  assumes "talks P m" and "\<And>x. talks P (f x)"
  shows "talks P (bindIO m f)"
proof (rule talksI)
  fix s r t assume "bindIO m f s = (r, t)"
  then show "\<exists>l. log t = log s @ l \<and> list_all P l \<and> clock s \<le> clock t
     \<and> warnings t = warnings s \<and> net_state.more t = net_state.more s"
  proof (cases rule: bindIO_eqE)
    case (throws e)
    with assms(1) show ?thesis by (blast elim: talksE)
  next
    case (goes_on x s')
    with assms obtain l k where "log s' = log s @ l" "list_all P l" "log t = log s' @ k" "list_all P k"
      and "clock s \<le> clock s'" "clock s' \<le> clock t" "warnings s' = warnings s" "warnings t = warnings s'"
      "net_state.more s' = net_state.more s" "net_state.more t = net_state.more s'"
      by (meson talksE)
    then show ?thesis by (intro exI[of _ "l @ k"]) simp
  qed
qed

lemma talks_catchIO [intro]:
  assumes "talks P m" and "\<And>e. talks P (h e)"
  shows "talks P (catchIO m h)"
proof (rule talksI)
  fix s r t assume "catchIO m h s = (r, t)"
  then show "\<exists>l. log t = log s @ l \<and> list_all P l \<and> clock s \<le> clock t
     \<and> warnings t = warnings s \<and> net_state.more t = net_state.more s"
  proof (cases rule: catchIO_eqE)
    case (fine x)
    with assms(1) show ?thesis by (blast elim: talksE)
  next
    case (caught e s')
    with assms obtain l k where "log s' = log s @ l" "list_all P l" "log t = log s' @ k" "list_all P k"
      and "clock s \<le> clock s'" "clock s' \<le> clock t" "warnings s' = warnings s" "warnings t = warnings s'"
      "net_state.more s' = net_state.more s" "net_state.more t = net_state.more s'"
      by (meson talksE)
    then show ?thesis by (intro exI[of _ "l @ k"]) simp
  qed
qed

lemma talks_mono: "talks P m \<Longrightarrow> (\<And>r. P r \<Longrightarrow> Q r) \<Longrightarrow> talks Q m"
  unfolding talks_def by (meson list_all_iff)

end
