(* ===== verification/Base64.thy ===== *)
theory Base64
  imports Utf8
begin

section \<open>Base64\<close>

text \<open>
  \<open>Buffer.toString('base64')\<close> and \<open>Buffer.from(s, 'base64')\<close>.  The host's decoder takes both
  alphabets and skips every other character, padding included; what is left over after the last
  group of four gives the bytes it still determines.
\<close>

definition b64_unit :: "nat \<Rightarrow> nat" where
  "b64_unit n =
     (if n < 26 then 65 + n else if n < 52 then 71 + n else if n < 62 then n - 4
      else if n = 62 then 43 else 47)"

fun b64_encode :: "nat list \<Rightarrow> jsstring" where
  "b64_encode [] = []"
| "b64_encode [a] = [b64_unit (a div 4), b64_unit (a mod 4 * 16), 61, 61]"
| "b64_encode [a, b] =
     [b64_unit (a div 4), b64_unit (a mod 4 * 16 + b div 16), b64_unit (b mod 16 * 4), 61]"
| "b64_encode (a # b # c # bs) =
     b64_unit (a div 4) # b64_unit (a mod 4 * 16 + b div 16) # b64_unit (b mod 16 * 4 + c div 64)
       # b64_unit (c mod 64) # b64_encode bs"

definition base64 :: "byte list \<Rightarrow> jsstring" where
  "base64 bs = b64_encode (map unat bs)"

definition b64_digit :: "nat \<Rightarrow> nat option" where
  "b64_digit c =
     (if 65 \<le> c \<and> c \<le> 90 then Some (c - 65)
      else if 97 \<le> c \<and> c \<le> 122 then Some (c - 71)
      else if 48 \<le> c \<and> c \<le> 57 then Some (c + 4)
      else if c = 43 \<or> c = 45 then Some 62
      else if c = 47 \<or> c = 95 then Some 63
      else None)"

fun b64_groups :: "nat list \<Rightarrow> nat list" where
  "b64_groups (a # b # c # d # ds) =
     (a * 4 + b div 16) # (b mod 16 * 16 + c div 4) # (c mod 4 * 64 + d) # b64_groups ds"
| "b64_groups [a, b, c] = [a * 4 + b div 16, b mod 16 * 16 + c div 4]"
| "b64_groups [a, b] = [a * 4 + b div 16]"
| "b64_groups _ = []"

definition unbase64 :: "jsstring \<Rightarrow> byte list" where
  "unbase64 s = map of_nat (b64_groups (List.map_filter b64_digit s))"

lemma b64_digit_unit: "n < 64 \<Longrightarrow> b64_digit (b64_unit n) = Some n"
  by (auto simp: b64_unit_def b64_digit_def)

lemma pack: "q < k \<Longrightarrow> (m * k + q) div k = m" "q < k \<Longrightarrow> (m * k + q) mod k = q" for k m q :: nat
  by auto

lemma pack_less: "m < j \<Longrightarrow> q < k \<Longrightarrow> m * k + q < j * k" for j k m q :: nat
  using mult_le_mono1[of "Suc m" j k] by simp

lemma byte_parts:
  fixes b :: nat
  assumes "b < 256"
  shows "b div 4 < 64" "b div 16 < 16" "b div 64 < 4"
  using assms by (simp_all add: div_less_iff_less_mult)

lemma map_filter_unit:
  "n < 64 \<Longrightarrow> List.map_filter b64_digit (b64_unit n # s) = n # List.map_filter b64_digit s"
  by (simp add: b64_digit_unit map_filter_simps)

lemma map_filter_padding:
  "List.map_filter b64_digit [61] = []" "List.map_filter b64_digit [61, 61] = []"
  by (simp_all add: map_filter_simps b64_digit_def)

lemma b64_groups_encode:
  "\<forall>b \<in> set bs. b < 256 \<Longrightarrow> b64_groups (List.map_filter b64_digit (b64_encode bs)) = bs"
proof (induction bs rule: b64_encode.induct)
  case (2 a)
  then have "a < 256" by simp
  note u = byte_parts(1)[OF this]
  have z: "a mod 4 * 16 < 64" using pack_less[of "a mod 4" 4 0 16] by simp
  show ?case
    by (simp only: b64_encode.simps map_filter_unit[OF u(1)] map_filter_unit[OF z]
        map_filter_padding b64_groups.simps) simp
next
  case (3 a b)
  then have "a < 256" "b < 256" by simp_all
  note u = byte_parts(1)[OF this(1)] and q = byte_parts(2)[OF this(2)]
  have x: "a mod 4 * 16 + b div 16 < 64" using pack_less[of "a mod 4" 4, OF _ q] by simp
  have z: "b mod 16 * 4 < 64" using pack_less[of "b mod 16" 16 0 4] by simp
  have v: "b mod 16 * 4 div 4 = b mod 16" by simp
  show ?case
    by (simp only: b64_encode.simps map_filter_unit[OF u] map_filter_unit[OF x]
        map_filter_unit[OF z] map_filter_padding b64_groups.simps v pack[OF q]) simp
next
  case (4 a b c bs)
  then have lt: "a < 256" "b < 256" "c < 256" by simp_all
  note u = byte_parts(1)[OF lt(1)]
  have x: "a mod 4 * 16 + b div 16 < 64"
    using pack_less[of "a mod 4" 4, OF _ byte_parts(2)[OF lt(2)]] by simp
  have z: "b mod 16 * 4 + c div 64 < 64"
    using pack_less[of "b mod 16" 16, OF _ byte_parts(3)[OF lt(3)]] by simp
  have w: "c mod 64 < 64" by simp
  note v = pack[OF byte_parts(2)[OF lt(2)], of "a mod 4"] pack[OF byte_parts(3)[OF lt(3)], of "b mod 16"]
  have IH: "b64_groups (List.map_filter b64_digit (b64_encode bs)) = bs" using 4 by simp
  show ?case
    by (simp only: b64_encode.simps map_filter_unit[OF u] map_filter_unit[OF x]
        map_filter_unit[OF z] map_filter_unit[OF w] b64_groups.simps v IH) simp
qed (simp add: map_filter_simps)

lemma unbase64_base64 [simp]: "unbase64 (base64 bs) = bs"
proof -
  have "\<forall>b \<in> set (map unat bs). b < 256"
    using unsigned_less[where ?'b = 8 and ?'a = nat] by auto
  then have "unbase64 (base64 bs) = map of_nat (map unat bs)"
    by (simp add: unbase64_def base64_def b64_groups_encode del: map_map)
  then show ?thesis by (simp add: comp_def)
qed

lemma base64_inject [simp]: "base64 a = base64 b \<longleftrightarrow> a = b"
  by (metis unbase64_base64)

end
