(* ===== verification/Auth.thy ===== *)
theory Auth
  imports Net Base64
begin

section \<open>Authentication to Armada (\<open>src/auth.ts\<close>)\<close>

text \<open>
  \<open>authorizationHeader\<close> makes the one header every mechanism comes down to.  A token file is read at
  each request, never kept, so the platform may answer differently each time.  The lemmas say that
  the header carries the credentials exactly, as the server reads them back, and that making it
  sends nothing.
\<close>

definition authorizationHeader :: "platform \<Rightarrow> ArmadaAuth \<Rightarrow> ('a net_state_scheme, jsstring option) io" where
  "authorizationHeader pf auth =
     (case auth of
        Anonymous \<Rightarrow> returnIO None
      | Basic username password \<Rightarrow>
          (let credentials = username @ [58] @ password
           in returnIO (Some (js ''Basic '' @ base64 (utf8_bytes credentials))))
      | Bearer token \<Rightarrow> returnIO (Some (js ''Bearer '' @ token))
      | BearerFile path \<Rightarrow>
          bindIO (readFile_utf8 pf path) (\<lambda>contents.
            let token = trim contents in
            if token = [] then throwIO (err [js ''ARMADA_AUTH_TOKEN_FILE is empty: '', path])
            else returnIO (Some (js ''Bearer '' @ token))))"

lemma talks_authorizationHeader [intro, simp]: "talks P (authorizationHeader pf auth)"
  by (cases auth) (auto simp: authorizationHeader_def Let_def)

lemma authorizationHeader_state: "authorizationHeader pf auth s = (r, t) \<Longrightarrow> t = s"
  by (cases auth) (auto simp: authorizationHeader_def readFile_utf8_def io_eval Let_def split: if_splits sum.splits)

text \<open>What a server reads out of a basic header: the text after the scheme, from base64 and UTF-8, split at
  the first colon.\<close>

definition basic_credentials :: "jsstring \<Rightarrow> (jsstring \<times> jsstring) option" where
  "basic_credentials h =
     (if startsWith (js ''Basic '') h then
        Option.bind (utf8_fatal (unbase64 (slice_from 6 h))) (\<lambda>t.
          if 58 \<in> set t then
            Some (slice_to (indexOf 58 t) t, slice_from (indexOf 58 t + 1) t)
          else None)
      else None)"

lemma first_split: "c \<notin> set l \<Longrightarrow> slice_to (indexOf c (l @ c # r)) (l @ c # r) = l \<and> slice_from (indexOf c (l @ c # r) + 1) (l @ c # r) = r"
  by (induction l) (auto simp: slice_from_def slice_to_def nat_add_distrib)

text \<open>Note: A basic header says exactly the configured user and password to a server that reads it back:
  through base64 and UTF-8 and the split at the first colon, for any password and any user name
  without a colon.\<close>

theorem authorizationHeader_basic:
  assumes "58 \<notin> set u" and "well_formed (u @ [58] @ p)"
  shows "\<exists>h. authorizationHeader pf (Basic u p) s = (Inr (Some h), s) \<and> basic_credentials h = Some (u, p)"
proof -
  have "slice_from 6 (js ''Basic '' @ b) = b" for b by (simp add: slice_from_def js_def)
  moreover have "utf8_fatal (utf8_bytes (u @ [58] @ p)) = Some (u @ 58 # p)"
    using utf8_fatal_utf8_bytes[OF assms(2)] by simp
  ultimately have "basic_credentials (js ''Basic '' @ base64 (utf8_bytes (u @ [58] @ p))) = Some (u, p)"
    using first_split[OF assms(1), of p] by (simp add: basic_credentials_def)
  then show ?thesis by (simp add: authorizationHeader_def io_eval)
qed

lemma authorizationHeader_basic_witness:
  "\<forall>pf s. \<exists>h. authorizationHeader pf (Basic (js ''ann'') (js ''p:w'')) s = (Inr (Some h), s)
     \<and> basic_credentials h = Some (js ''ann'', js ''p:w'')"
  by (intro allI, rule authorizationHeader_basic) (simp_all add: js_def well_formed_def is_high_def is_low_def)

end
