(* ===== verification/Queues.thy ===== *)
theory Queues
  imports Net
begin

section \<open>Which queue a sandbox is in (\<open>src/queues.ts\<close>)\<close>

text \<open>
  A \<open>QueueDirectory\<close> is the configuration and the lookup it was made with; what it remembers is the
  field \<open>remembered\<close> of the state, shared by every sandbox of the process.  \<open>resolve\<close> asks its three
  sources in the order of the source: what this process has seen, Lookout, the owner map.  The lookup
  is an argument; the locale \<open>queue_lookup\<close> says what the directory relies on, that asking does not
  change what is remembered, and its lemmas are the directory's contract.  Owners whose names are
  members of \<open>Object.prototype\<close> are outside the model: the source reads those through the prototype.
\<close>

record queue_state = net_state +
  remembered :: "SandboxId \<Rightarrow> jsstring option"

type_synonym 'a lookup = "SandboxId \<Rightarrow> ('a queue_state_scheme, jsstring option) io"

definition queue_all :: "ArmadaConfig \<Rightarrow> jsstring list" where
  "queue_all config =
     uniq (cfg_queue config # obj_values (cfg_queueByUser config) @ obj_values (cfg_queueByProject config))"

definition queue_mapped :: "ArmadaConfig \<Rightarrow> bool" where
  "queue_mapped config \<longleftrightarrow> 1 < length (queue_all config)"

definition forOwner :: "ArmadaConfig \<Rightarrow> SandboxOwner \<Rightarrow> jsstring" where
  "forOwner config owner =
     (let byUser = Option.bind (userId owner) (obj_get (cfg_queueByUser config))
      in or_else byUser (or_else (obj_get (cfg_queueByProject config) (projectId owner)) (cfg_queue config)))"

definition remember :: "SandboxId \<Rightarrow> jsstring \<Rightarrow> ('a queue_state_scheme, unit) io" where
  "remember sid queue = updIO (\<lambda>s. s\<lparr>remembered := (remembered s)(sid \<mapsto> queue)\<rparr>)"

definition forget :: "SandboxId \<Rightarrow> ('a queue_state_scheme, unit) io" where
  "forget sid = updIO (\<lambda>s. s\<lparr>remembered := (remembered s)(sid := None)\<rparr>)"

definition queue_unknown :: "SandboxId \<Rightarrow> js_error \<Rightarrow> js_error" where
  "queue_unknown sid cause =
     QueueUnknownError (concat [js ''cannot tell which queue sandbox '', sid,
       js '' is in: Lookout did not answer ('', message cause, js '')''])"

text \<open>The third source: a submit that has not happened yet goes where its owner maps to.\<close>

definition place_new ::
  "ArmadaConfig \<Rightarrow> SandboxId \<Rightarrow> SandboxOwner option \<Rightarrow> ('a queue_state_scheme, jsstring) io" where
  "place_new config sid owner =
     (let queue = (case owner of None \<Rightarrow> cfg_queue config | Some w \<Rightarrow> forOwner config w)
      in bindIO (remember sid queue) (\<lambda>_. returnIO queue))"

definition resolve ::
  "ArmadaConfig \<Rightarrow> 'a lookup option \<Rightarrow> SandboxId \<Rightarrow> SandboxOwner option
     \<Rightarrow> ('a queue_state_scheme, jsstring) io" where
  "resolve config lookup sid owner =
     bindIO (getIO (\<lambda>s. remembered s sid)) (\<lambda>known.
       case known of
         Some queue \<Rightarrow> returnIO queue
       | None \<Rightarrow>
           if \<not> queue_mapped config then returnIO (cfg_queue config)
           else
             (case lookup of
                None \<Rightarrow> place_new config sid owner
              | Some ask \<Rightarrow>
                  bindIO (catchIO (ask sid) (\<lambda>cause. throwIO (queue_unknown sid cause))) (\<lambda>found.
                    case found of
                      Some queue \<Rightarrow> bindIO (remember sid queue) (\<lambda>_. returnIO queue)
                    | None \<Rightarrow> place_new config sid owner)))"

subsection \<open>The queues of a configuration\<close>

lemma queue_all_default: "hd (queue_all config) = cfg_queue config" "cfg_queue config \<in> set (queue_all config)"
  by (simp_all add: queue_all_def uniq_Cons)

lemma obj_get_values: "obj_get m k = Some v \<Longrightarrow> v \<in> set (obj_values m)"
  by (force simp: obj_get_def obj_values_def dest: map_of_SomeD)

lemma forOwner_all: "forOwner config owner \<in> set (queue_all config)"
  by (auto simp: forOwner_def queue_all_def Let_def or_else_def dest: obj_get_values
      split: option.splits bind_splits)

lemma queue_mapped_iff:
  "queue_mapped config \<longleftrightarrow>
     \<not> list_all (\<lambda>q. q = cfg_queue config)
         (obj_values (cfg_queueByUser config) @ obj_values (cfg_queueByProject config))"
proof -
  let ?m = "obj_values (cfg_queueByUser config) @ obj_values (cfg_queueByProject config)"
  have "queue_mapped config \<longleftrightarrow> filter (\<lambda>q. q \<noteq> cfg_queue config) (uniq ?m) \<noteq> []"
    by (simp add: queue_mapped_def queue_all_def uniq_Cons)
  also have "\<dots> \<longleftrightarrow> (\<exists>q \<in> set (uniq ?m). q \<noteq> cfg_queue config)"
    by (auto simp: filter_empty_conv)
  finally show ?thesis by (auto simp: list_all_iff)
qed

lemma more_remembered:
  "net_state.more t = net_state.more s \<Longrightarrow> remembered t = remembered (s :: 'a queue_state_scheme)"
  by (cases s; cases t) simp

subsection \<open>The contract of the directory\<close>

locale queue_lookup =
  fixes config :: ArmadaConfig and ask :: "'a lookup"
  assumes asks: "talks (\<lambda>_. True) (ask sid)"
begin

lemma ask_remembers: "ask sid s = (r, t) \<Longrightarrow> remembered t = remembered s"
  using asks talks_more more_remembered by blast

lemma resolve_known:
  "remembered s sid = Some q \<Longrightarrow> resolve config (Some ask) sid owner s = (Inr q, s)"
  by (simp add: resolve_def io_eval)

lemma resolve_unmapped:
  "\<not> queue_mapped config \<Longrightarrow> remembered s sid = None \<Longrightarrow>
     resolve config (Some ask) sid owner s = (Inr (cfg_queue config), s)"
  by (simp add: resolve_def io_eval)

text \<open>With a map and nothing remembered, the three ways it ends.\<close>

lemma resolve_asks:
  assumes "queue_mapped config" and "remembered s sid = None" and "ask sid s = (r, t)"
  shows "resolve config (Some ask) sid owner s =
    (case r of
       Inl e \<Rightarrow> (Inl (queue_unknown sid e), t)
     | Inr (Some q) \<Rightarrow> (Inr q, t\<lparr>remembered := (remembered s)(sid \<mapsto> q)\<rparr>)
     | Inr None \<Rightarrow>
         (let q = (case owner of None \<Rightarrow> cfg_queue config | Some w \<Rightarrow> forOwner config w)
          in (Inr q, t\<lparr>remembered := (remembered s)(sid \<mapsto> q)\<rparr>)))"
  using assms ask_remembers[OF assms(3)]
  by (auto simp: resolve_def io_eval remember_def place_new_def Let_def split: sum.splits option.splits)

lemma resolve_settles:
  assumes "resolve config (Some ask) sid owner s = (Inr q, t)"
  shows "remembered t = (remembered s)(sid \<mapsto> q) \<or> \<not> queue_mapped config \<and> t = s"
proof (cases "remembered s sid")
  case (Some q')
  then have "q' = q" "t = s" using assms by (simp_all add: resolve_known)
  then show ?thesis using Some by (simp add: map_upd_triv)
next
  case None
  obtain r u where ask: "ask sid s = (r, u)" by fastforce
  show ?thesis
  proof (cases "queue_mapped config")
    case True
    from assms[unfolded resolve_asks[OF True None ask]] show ?thesis
      by (auto simp: Let_def split: sum.splits option.splits)
  qed (use assms None in \<open>simp add: resolve_unmapped\<close>)
qed

text \<open>Asking again gives the same queue, and costs nothing.\<close>

lemma resolve_again:
  assumes "resolve config (Some ask) sid owner s = (Inr q, t)"
  shows "resolve config (Some ask) sid owner' t = (Inr q, t)"
proof (cases "remembered t sid")
  case (Some q')
  then have "q' = q"
    using resolve_settles[OF assms] assms
    by (cases "remembered s sid") (auto simp: resolve_known resolve_unmapped)
  with Some show ?thesis by (simp add: resolve_known)
next
  case None
  with resolve_settles[OF assms] have "\<not> queue_mapped config" "t = s" by auto
  with None assms show ?thesis by (simp add: resolve_unmapped)
qed

lemma resolve_fails:
  assumes "resolve config (Some ask) sid owner s = (Inl e, t)"
  shows "\<exists>c. e = queue_unknown sid c \<and> ask sid s = (Inl c, t) \<and> remembered t = remembered s
    \<and> queue_mapped config"
proof -
  have none: "remembered s sid = None" using assms by (cases "remembered s sid") (auto simp: resolve_known)
  have mapped: "queue_mapped config" using assms none by (cases "queue_mapped config") (auto simp: resolve_unmapped)
  obtain r u where ask: "ask sid s = (r, u)" by fastforce
  from assms[unfolded resolve_asks[OF mapped none ask]] ask mapped show ?thesis
    using ask_remembers[OF ask] by (auto simp: Let_def split: sum.splits option.splits)
qed

end

end
