(* ===== verification/ArmadaClient.thy ===== *)
theory ArmadaClient
  imports Auth Queues "HOL-Library.List_Lexorder"
begin

section \<open>Placement: the Armada client (\<open>src/armada.ts\<close>)\<close>

text \<open>
  One definition per method of \<open>ArmadaClient\<close>, over the platform and the configuration it is
  constructed with.  A method that follows the event stream reads the values \<open>readNdjson\<close> yields and
  stops at the first that decides; the stream is finite because every watch carries a timeout, whose
  abort is one of the ways a body ends.  \<open>listActive\<close> pages through Lookout for as long as pages are
  full, which only the answers bound: it takes fuel, and the last theorems say how much is enough
  for a list of jobs and what comes back.
\<close>

record PodLocation =
  clusterId :: jsstring
  podName :: jsstring
  podNamespace :: jsstring
  nodeName :: "jsstring option"

record SubmittedJob =
  job_id :: jsstring
  job_setId :: jsstring
  job_queue :: jsstring

record ActiveJob =
  act_id :: SandboxId
  act_createdAt :: "jsstring option"
  act_queue :: jsstring

definition asObject :: "json \<Rightarrow> jsstring \<Rightarrow> json result" where
  "asObject value what =
     (case value of
        JObj _ \<Rightarrow> Inr value
      | JArr _ \<Rightarrow> Inr value
      | _ \<Rightarrow> Inl (err [js ''Armada returned '', what, js '' that is not a JSON object: '', JSON_stringify value]))"

definition DEFAULT_RUNNING_TIMEOUT_MS :: int where "DEFAULT_RUNNING_TIMEOUT_MS = 5 * 60 * 1000"
definition DEFAULT_INGRESS_TIMEOUT_MS :: int where "DEFAULT_INGRESS_TIMEOUT_MS = 60 * 1000"

definition ACTIVE_JOB_STATES :: "jsstring list" where
  "ACTIVE_JOB_STATES = [js ''QUEUED'', js ''LEASED'', js ''PENDING'', js ''RUNNING'']"

definition FINISHED_JOB_STATES :: "job_state list" where
  "FINISHED_JOB_STATES = [SUCCEEDED, FAILED, PREEMPTED, CANCELLED, REJECTED]"

definition is_finished :: "jsnum option \<Rightarrow> bool" where
  "is_finished state \<longleftrightarrow> state \<in> set (map (Some \<circ> of_whole \<circ> JOB_STATE) FINISHED_JOB_STATES)"

definition LIST_ACTIVE_PAGE :: nat where "LIST_ACTIVE_PAGE = 500"

subsection \<open>Requests\<close>

definition requestHeaders :: "platform \<Rightarrow> ArmadaConfig \<Rightarrow> ('a net_state_scheme, jsstring obj) io" where
  "requestHeaders pf config =
     bindIO (authorizationHeader pf (cfg_auth config)) (\<lambda>authorization.
       returnIO ([(js ''content-type'', js ''application/json'')]
         @ (case authorization of None \<Rightarrow> [] | Some a \<Rightarrow> [(js ''authorization'', a)])))"

definition postTo ::
  "platform \<Rightarrow> ArmadaConfig \<Rightarrow> jsstring \<Rightarrow> jsstring \<Rightarrow> request_body \<Rightarrow> jsnum option
     \<Rightarrow> ('a net_state_scheme, response) io" where
  "postTo pf config base path body signal =
     bindIO (requestHeaders pf config) (\<lambda>headers.
     bindIO (fetch pf \<lparr>req_method = js ''POST'', req_url = strip_slash base @ path, req_headers = headers,
         req_body = Some body, req_timeout = signal\<rparr>) (\<lambda>response.
       if \<not> rsp_ok response then
         bindIO (liftR (response_text response)) (\<lambda>t.
           let detail = trim t in
           throwIO (err [js ''Armada '', path, js '' failed ('', show_nat (rsp_status response), js ''): '',
             if detail = [] then rsp_statusText response else detail]))
       else returnIO response))"

definition post where
  "post pf config path body signal = postTo pf config (cfg_url config) path body signal"

definition postJsonTo ::
  "platform \<Rightarrow> ArmadaConfig \<Rightarrow> jsstring \<Rightarrow> jsstring \<Rightarrow> request_body \<Rightarrow> ('a net_state_scheme, json) io" where
  "postJsonTo pf config base path body =
     bindIO (postTo pf config base path body None) (\<lambda>response.
       liftR (bindR (response_json pf response) (\<lambda>v. asObject v (js ''a response to '' @ path))))"

definition postJson where
  "postJson pf config path body = postJsonTo pf config (cfg_url config) path body"

subsection \<open>Submitting\<close>

definition exposure ::
  "ArmadaConfig \<Rightarrow> int list \<Rightarrow> IngressConfig list option \<times> ServiceConfig list option" where
  "exposure config ports =
     (case cfg_expose config of
        Ingress tls cert anns \<Rightarrow>
          (Some [\<lparr>ing_ports = ports, tlsEnabled = tls, certName = cert, useClusterIP = True,
             ing_annotations = (if anns = [] then None else Some anns)\<rparr>], None)
      | NodePort \<Rightarrow> (None, Some [\<lparr>svc_type = ServiceNodePort, svc_ports = ports\<rparr>]))"

definition submit_annotations :: "ArmadaConfig \<Rightarrow> jsstring obj" where
  "submit_annotations config =
     obj_spread (cfg_podAnnotations config)
       [(js ''armadaproject.io/failFast'', js ''true''), (SANDBOX_MARK, cfg_queue config)]"

definition submit_request ::
  "ArmadaConfig \<Rightarrow> SandboxId \<Rightarrow> V1PodSpec \<Rightarrow> jsstring \<Rightarrow> JobSubmitRequest" where
  "submit_request config sandboxId spec queue =
     \<lparr>sub_queue = queue, sub_jobSetId = sandboxId,
      jobRequestItems =
        [\<lparr>clientId = sandboxId, externalJobUri = sandboxId, item_namespace = cfg_namespace config,
          podSpec = spec,
          labels = (if cfg_podLabels config = [] then None else Some (cfg_podLabels config)),
          annotations = submit_annotations config,
          item_ingress = fst (exposure config (exposedPorts spec)),
          services = snd (exposure config (exposedPorts spec))\<rparr>]\<rparr>"

definition read_submit :: "SandboxId \<Rightarrow> jsstring \<Rightarrow> json \<Rightarrow> SubmittedJob result" where
  "read_submit sandboxId queue response =
     (let item = (case decode_submit response of Some (i # _) \<Rightarrow> Some i | _ \<Rightarrow> None);
          item_error = or_else (Option.bind item rsp_error) [];
          item_jobId = or_else (Option.bind item rsp_jobId) []
      in if item_error \<noteq> [] then
           Inl (err [js ''Armada rejected the job for sandbox '', sandboxId, js '': '', item_error])
         else if item_jobId = [] then
           Inl (err [js ''Armada returned no job id for sandbox '', sandboxId])
         else Inr \<lparr>job_id = item_jobId, job_setId = sandboxId, job_queue = queue\<rparr>)"

definition submit ::
  "platform \<Rightarrow> ArmadaConfig \<Rightarrow> SandboxId \<Rightarrow> V1PodSpec \<Rightarrow> jsstring
     \<Rightarrow> ('a net_state_scheme, SubmittedJob) io" where
  "submit pf config sandboxId spec queue =
     bindIO (postJson pf config (js ''/v1/job/submit'') (SubmitBody (submit_request config sandboxId spec queue)))
       (\<lambda>response. liftR (read_submit sandboxId queue response))"

subsection \<open>Following a job\<close>

definition watch_body :: "SubmittedJob \<Rightarrow> request_body" where
  "watch_body job =
     JobSetBody \<lparr>set_queue = job_queue job, set_id = job_setId job, watch = True, errorIfMissing = False\<rparr>"

definition watch_path :: "SubmittedJob \<Rightarrow> jsstring result" where
  "watch_path job =
     bindR (encodeURIComponent (job_queue job)) (\<lambda>q.
     bindR (encodeURIComponent (job_setId job)) (\<lambda>s. Inr (js ''/v1/job-set/'' @ q @ [47] @ s)))"

text \<open>\<open>for await\<close> over the lines of the stream: each either decides the call, by returning or throwing,
  or is passed over; \<open>over\<close> is thrown when the stream ends first.\<close>

fun each_line :: "(json \<Rightarrow> 'r result option) \<Rightarrow> js_error \<Rightarrow> json list \<Rightarrow> js_error option \<Rightarrow> 'r result" where
  "each_line step over [] None = Inl over"
| "each_line step over [] (Some e) = Inl e"
| "each_line step over (v # vs) broken =
     (case step v of Some r \<Rightarrow> r | None \<Rightarrow> each_line step over vs broken)"

definition watch_events ::
  "platform \<Rightarrow> ArmadaConfig \<Rightarrow> SubmittedJob \<Rightarrow> jsnum \<Rightarrow> (json \<Rightarrow> 'r result option) \<Rightarrow> js_error
     \<Rightarrow> ('a net_state_scheme, 'r) io" where
  "watch_events pf config job ms step over =
     bindIO (liftR (watch_path job)) (\<lambda>path.
     bindIO (post pf config path (watch_body job) (Some ms)) (\<lambda>response.
       case rsp_body response of
         None \<Rightarrow> throwIO (err [js ''Armada returned no event stream for '', path])
       | Some body \<Rightarrow>
           (let (values, broken) = readNdjson (pf_syntax pf) body
            in liftR (each_line step over values broken))))"

text \<open>What both watchers do with a line before they look for their own event.\<close>

definition with_message :: "(EventMessage \<Rightarrow> 'r result option) \<Rightarrow> json \<Rightarrow> 'r result option" where
  "with_message f value =
     (case asObject value (js ''an event stream line'') of
        Inl e \<Rightarrow> Some (Inl e)
      | Inr v \<Rightarrow>
          (let line = decode_line v in
           case line_error line of
             Some e \<Rightarrow>
               Some (Inl (err [js ''Armada event stream failed: '', or_else (stream_message e) (js ''unknown error'')]))
           | None \<Rightarrow> (case line_message line of None \<Rightarrow> None | Some m \<Rightarrow> f m)))"

definition failed_event :: "SubmittedJob \<Rightarrow> EventMessage \<Rightarrow> js_error option" where
  "failed_event job m =
     (case failed m of
        None \<Rightarrow> None
      | Some f \<Rightarrow>
          if fail_jobId f = Some (job_id job) \<and> \<not> retryable f then
            Some (err [js ''Armada job '', job_id job, js '' failed: '', or_else (fail_reason f) (js ''no reason given'')])
          else None)"

definition running_step :: "ArmadaConfig \<Rightarrow> SubmittedJob \<Rightarrow> EventMessage \<Rightarrow> PodLocation result option" where
  "running_step config job m =
     (case running m of
        Some e \<Rightarrow>
          if run_jobId e = Some (job_id job) then
            Some (Inr \<lparr>clusterId = or_else (run_clusterId e) [], podName = or_else (run_podName e) [],
              podNamespace = or_else (run_podNamespace e) (cfg_namespace config),
              nodeName = run_nodeName e\<rparr>)
          else None
      | None \<Rightarrow> None)"

definition terminal_step :: "SubmittedJob \<Rightarrow> jsstring \<Rightarrow> EventMessage \<Rightarrow> 'r result option" where
  "terminal_step job what m =
     (case failed_event job m of
        Some e \<Rightarrow> Some (Inl e)
      | None \<Rightarrow>
          if cancelled m = Some (Some (job_id job)) then
            Some (Inl (err [js ''Armada job '', job_id job, what]))
          else None)"

definition waitForRunning_step :: "ArmadaConfig \<Rightarrow> SubmittedJob \<Rightarrow> EventMessage \<Rightarrow> PodLocation result option" where
  "waitForRunning_step config job m =
     (case running_step config job m of
        Some r \<Rightarrow> Some r
      | None \<Rightarrow> terminal_step job (js '' was cancelled before it started'') m)"

definition waitForRunning ::
  "platform \<Rightarrow> ArmadaConfig \<Rightarrow> SubmittedJob \<Rightarrow> ('a net_state_scheme, PodLocation) io" where
  "waitForRunning pf config job =
     watch_events pf config job (of_whole DEFAULT_RUNNING_TIMEOUT_MS)
       (with_message (waitForRunning_step config job))
       (err [js ''Armada event stream ended before job '', job_id job, js '' started''])"

definition ingress_step :: "SubmittedJob \<Rightarrow> int \<Rightarrow> EventMessage \<Rightarrow> jsstring result option" where
  "ingress_step job port m =
     (case ingressInfo m of
        Some info \<Rightarrow>
          if info_jobId info = Some (job_id job) then
            (let addresses = or_else (ingressAddresses info) [];
                 address = or_else (Option.bind (obj_get addresses (show_int port)) (\<lambda>a. a)) [];
                 known = join (js '', '') (obj_keys addresses)
             in if address \<noteq> [] then Some (Inr address)
                else Some (Inl (err [js ''Armada reported no address for port '', show_int port,
                  js '' of job '', job_id job, js ''; it exposes: '',
                  if known = [] then js ''nothing'' else known])))
          else None
      | None \<Rightarrow> None)"

definition ingressAddress_step :: "SubmittedJob \<Rightarrow> int \<Rightarrow> EventMessage \<Rightarrow> jsstring result option" where
  "ingressAddress_step job port m =
     (case ingress_step job port m of
        Some r \<Rightarrow> Some r
      | None \<Rightarrow> terminal_step job (js '' was cancelled'') m)"

definition ingressAddress ::
  "platform \<Rightarrow> ArmadaConfig \<Rightarrow> SubmittedJob \<Rightarrow> int \<Rightarrow> ('a net_state_scheme, jsstring) io" where
  "ingressAddress pf config job port =
     watch_events pf config job (of_whole DEFAULT_INGRESS_TIMEOUT_MS)
       (with_message (ingressAddress_step job port))
       (err [js ''Armada event stream ended before job '', job_id job, js '' reported an ingress address''])"

definition port_scheme :: "ArmadaConfig \<Rightarrow> jsstring" where
  "port_scheme config =
     (case cfg_expose config of Ingress tls _ _ \<Rightarrow> if tls then js ''https'' else js ''http'' | NodePort \<Rightarrow> js ''http'')"

definition portUrl ::
  "platform \<Rightarrow> ArmadaConfig \<Rightarrow> SubmittedJob \<Rightarrow> int \<Rightarrow> ('a net_state_scheme, jsstring) io" where
  "portUrl pf config job port =
     bindIO (ingressAddress pf config job port) (\<lambda>address.
       if contains (js ''://'') address then returnIO address
       else returnIO (port_scheme config @ js ''://'' @ address))"

subsection \<open>Cancelling\<close>

definition cancel :: "platform \<Rightarrow> ArmadaConfig \<Rightarrow> SubmittedJob \<Rightarrow> ('a net_state_scheme, unit) io" where
  "cancel pf config job =
     bindIO (post pf config (js ''/v1/job/cancel'')
       (CancelBody \<lparr>cancel_queue = job_queue job, cancel_jobSetId = job_setId job, cancel_jobId = Some (job_id job)\<rparr>)
       None) (\<lambda>_. returnIO ())"

definition cancelSet ::
  "platform \<Rightarrow> ArmadaConfig \<Rightarrow> jsstring \<Rightarrow> jsstring \<Rightarrow> ('a net_state_scheme, unit) io" where
  "cancelSet pf config jobSetId queue =
     bindIO (post pf config (js ''/v1/job/cancel'')
       (CancelBody \<lparr>cancel_queue = queue, cancel_jobSetId = jobSetId, cancel_jobId = None\<rparr>) None)
       (\<lambda>_. returnIO ())"

subsection \<open>Finding jobs again\<close>

definition live_jobs :: "jsnum option obj \<Rightarrow> jsstring list" where
  "live_jobs states = sort (map fst (filter (\<lambda>e. \<not> is_finished (snd e)) states))"

definition findJob ::
  "platform \<Rightarrow> ArmadaConfig \<Rightarrow> SandboxId \<Rightarrow> jsstring \<Rightarrow> ('a net_state_scheme, SubmittedJob option) io" where
  "findJob pf config sandboxId queue =
     bindIO (postJson pf config (js ''/v1/job/statusUsingExternalJobUri'')
       (StatusBody \<lparr>status_queue = queue, status_jobset = sandboxId, status_externalJobUri = sandboxId\<rparr>))
       (\<lambda>response.
          let live = live_jobs (decode_states response)
          in returnIO (if live = [] then None
               else Some \<lparr>job_id = last live, job_setId = sandboxId, job_queue = queue\<rparr>))"

definition mark_filter :: "ArmadaConfig \<Rightarrow> LookoutFilter" where
  "mark_filter config =
     \<lparr>flt_field = SANDBOX_MARK, flt_value = OneValue (cfg_queue config), flt_match = MatchExact, isAnnotation = True\<rparr>"

definition lookoutJobs ::
  "platform \<Rightarrow> ArmadaConfig \<Rightarrow> jsstring \<Rightarrow> LookoutFilter list \<Rightarrow> LookoutOrder \<Rightarrow> nat \<Rightarrow> nat
     \<Rightarrow> ('a net_state_scheme, LookoutJob list) io" where
  "lookoutJobs pf config lookout fs ord skip take' =
     bindIO (postJsonTo pf config lookout (js ''/api/v1/jobs'')
       (JobsBody \<lparr>filters = fs @ [mark_filter config], order = ord, jobs_skip = skip, jobs_take = take'\<rparr>))
       (\<lambda>response. returnIO (decode_jobs response))"

definition findQueue ::
  "platform \<Rightarrow> ArmadaConfig \<Rightarrow> SandboxId \<Rightarrow> ('a net_state_scheme, jsstring option) io" where
  "findQueue pf config jobSetId =
     (case cfg_lookoutUrl config of
        None \<Rightarrow> returnIO None
      | Some lookout \<Rightarrow>
          bindIO (lookoutJobs pf config lookout
            [\<lparr>flt_field = js ''jobSet'', flt_value = OneValue jobSetId, flt_match = MatchExact, isAnnotation = False\<rparr>]
            \<lparr>ord_field = js ''submitted'', ord_direction = DESC\<rparr> 0 1)
            (\<lambda>jobs.
               let queue = (case jobs of [] \<Rightarrow> None | job # _ \<Rightarrow> lk_queue job)
               in returnIO (if queue = Some [] then None else queue)))"

definition add_active :: "LookoutJob \<Rightarrow> ActiveJob obj \<Rightarrow> ActiveJob obj" where
  "add_active job sandboxes =
     (case (lk_jobSet job, lk_queue job) of
        (Some jobSet, Some queue) \<Rightarrow>
          if jobSet = [] \<or> queue = [] then sandboxes
          else obj_set jobSet \<lparr>act_id = jobSet, act_createdAt = lk_submitted job, act_queue = queue\<rparr> sandboxes
      | _ \<Rightarrow> sandboxes)"

definition active_page ::
  "platform \<Rightarrow> ArmadaConfig \<Rightarrow> jsstring \<Rightarrow> nat \<Rightarrow> ('a net_state_scheme, LookoutJob list) io" where
  "active_page pf config lookout skip =
     lookoutJobs pf config lookout
       [\<lparr>flt_field = js ''state'', flt_value = AnyValue ACTIVE_JOB_STATES, flt_match = MatchAnyOf, isAnnotation = False\<rparr>]
       \<lparr>ord_field = js ''submitted'', ord_direction = ASC\<rparr> skip LIST_ACTIVE_PAGE"

fun active_pages ::
  "nat \<Rightarrow> platform \<Rightarrow> ArmadaConfig \<Rightarrow> jsstring \<Rightarrow> nat \<Rightarrow> ActiveJob obj \<Rightarrow> 'a net_state_scheme
     \<Rightarrow> (ActiveJob list result \<times> 'a net_state_scheme) option" where
  "active_pages 0 pf config lookout skip sandboxes s = None"
| "active_pages (Suc fuel) pf config lookout skip sandboxes s =
     (case active_page pf config lookout skip s of
        (Inl e, t) \<Rightarrow> Some (Inl e, t)
      | (Inr jobs, t) \<Rightarrow>
          (let sandboxes' = fold add_active jobs sandboxes
           in if length jobs < LIST_ACTIVE_PAGE then Some (Inr (obj_values sandboxes'), t)
              else active_pages fuel pf config lookout (skip + LIST_ACTIVE_PAGE) sandboxes' t))"

definition client_listActive ::
  "nat \<Rightarrow> platform \<Rightarrow> ArmadaConfig \<Rightarrow> 'a net_state_scheme \<Rightarrow> (ActiveJob list result \<times> 'a net_state_scheme) option" where
  "client_listActive fuel pf config s =
     (case cfg_lookoutUrl config of
        None \<Rightarrow> Some (Inl (err [js ''listActive needs ARMADA_LOOKOUT_URL, which is not configured'']), s)
      | Some lookout \<Rightarrow> active_pages fuel pf config lookout 0 [] s)"

subsection \<open>Whom the client talks to, and about what\<close>

lemma talks_requestHeaders [intro, simp]: "talks P (requestHeaders pf config)"
  unfolding requestHeaders_def by auto

lemma talks_postTo:
  assumes "\<And>h. P \<lparr>req_method = js ''POST'', req_url = strip_slash base @ path, req_headers = h,
         req_body = Some body, req_timeout = signal\<rparr>"
  shows "talks P (postTo pf config base path body signal)"
  unfolding postTo_def Let_def using assms by (auto intro!: talks_bindIO talks_fetch)

lemma talks_postJsonTo:
  assumes "\<And>h. P \<lparr>req_method = js ''POST'', req_url = strip_slash base @ path, req_headers = h,
         req_body = Some body, req_timeout = None\<rparr>"
  shows "talks P (postJsonTo pf config base path body)"
  unfolding postJsonTo_def using assms by (auto intro!: talks_bindIO talks_postTo)

lemma talks_watch_events:
  assumes "\<And>path h. P \<lparr>req_method = js ''POST'', req_url = strip_slash (cfg_url config) @ path, req_headers = h,
         req_body = Some (watch_body job), req_timeout = Some ms\<rparr>"
  shows "talks P (watch_events pf config job ms step over)"
  unfolding watch_events_def post_def using assms
  by (auto intro!: talks_bindIO talks_postTo split: option.split prod.split)

text \<open>A question to Lookout is always scoped to this installation.\<close>

definition scoped :: "ArmadaConfig \<Rightarrow> request \<Rightarrow> bool" where
  "scoped config req \<longleftrightarrow>
     (\<exists>q. req_body req = Some (JobsBody q) \<and> mark_filter config \<in> set (filters q))"

lemma talks_lookoutJobs: "talks (scoped config) (lookoutJobs pf config lookout fs ord skip n)"
  unfolding lookoutJobs_def by (auto intro!: talks_bindIO talks_postJsonTo simp: scoped_def)

lemma talks_findQueue: "talks (scoped config) (findQueue pf config sid)"
  unfolding findQueue_def
  by (auto intro!: talks_bindIO talks_lookoutJobs simp: Let_def split: option.split)

interpretation directory: queue_lookup config "findQueue pf config"
  by unfold_locales (auto intro: talks_mono[OF talks_findQueue])

subsection \<open>The queue of a sandbox\<close>

text \<open>C26: Once a sandbox's queue has been settled, by whichever source, asking again, through any instance
  and naming any owner, gives the same queue, without a request and without changing anything.\<close>

theorem resolve_stable:
  assumes "resolve config (Some (findQueue pf config)) sid owner s = (Inr q, t)"
  shows "resolve config (Some (findQueue pf config)) sid owner' t = (Inr q, t)"
  using assms by (rule directory.resolve_again)

definition quiet_platform :: platform where
  "quiet_platform =
     \<lparr>pf_fetch = (\<lambda>_ _. (Inl (JsError (js ''fetch failed'')), 0)), pf_file = (\<lambda>_ _. Inl (JsError (js ''ENOENT''))),
      pf_lag = (\<lambda>_. 0), pf_syntax = (\<lambda>_. js ''bad JSON'')\<rparr>"

definition demo_state :: queue_state where
  "demo_state = \<lparr>log = [], clock = 0, warnings = [], remembered = (\<lambda>_. None)\<rparr>"

definition answering :: "jsstring \<Rightarrow> platform" where
  "answering body =
     quiet_platform\<lparr>pf_fetch := (\<lambda>_ _.
       (Inr \<lparr>rsp_status = 200, rsp_statusText = js ''OK'', rsp_body = Some \<lparr>chunks = [utf8_bytes body], ending = None\<rparr>\<rparr>, 5))\<rparr>"

text \<open>Note: When Lookout cannot be asked, resolving fails with \<open>QueueUnknownError\<close> and nothing is remembered: the
  adapter never guesses a queue.  It fails in no other way.\<close>

theorem resolve_never_guesses:
  assumes "resolve config (Some (findQueue pf config)) sid owner s = (Inl e, t)"
  shows "\<exists>c. e = queue_unknown sid c \<and> findQueue pf config sid s = (Inl c, t)
    \<and> remembered t = remembered s \<and> queue_mapped config"
  using assms by (rule directory.resolve_fails)

lemma demo_mapped: "queue_mapped demo_config"
  by (simp add: queue_mapped_iff demo_config_def obj_values_def)

lemma resolve_never_guesses_witness:
  "\<exists>c t. resolve demo_config (Some (findQueue quiet_platform demo_config)) (js ''sb'') None demo_state
      = (Inl (queue_unknown (js ''sb'') c), t) \<and> remembered t = remembered demo_state"
proof -
  obtain r t where ask: "findQueue quiet_platform demo_config (js ''sb'') demo_state = (r, t)" by fastforce
  then obtain c where "r = Inl c"
    by (auto simp: findQueue_def demo_config_def lookoutJobs_def postJsonTo_def postTo_def requestHeaders_def
        authorizationHeader_def quiet_platform_def fetch_def io_eval)
  then have run: "resolve demo_config (Some (findQueue quiet_platform demo_config)) (js ''sb'') None demo_state
      = (Inl (queue_unknown (js ''sb'') c), t)"
    using directory.resolve_asks[OF demo_mapped _ ask] by (simp add: demo_state_def)
  from resolve_never_guesses[OF run] run show ?thesis by blast
qed

lemma resolve_stable_witness:
  "resolve demo_config (Some (findQueue quiet_platform demo_config)) (js ''sb'')
      (Some \<lparr>projectId = js ''p'', userId = None\<rparr>) (demo_state\<lparr>remembered := [js ''sb'' \<mapsto> js ''q-ann'']\<rparr>)
    = (Inr (js ''q-ann''), demo_state\<lparr>remembered := [js ''sb'' \<mapsto> js ''q-ann'']\<rparr>)"
  by (rule resolve_stable[where owner = None and s = "demo_state\<lparr>remembered := [js ''sb'' \<mapsto> js ''q-ann'']\<rparr>"])
    (simp add: directory.resolve_known)

subsection \<open>What is submitted\<close>

text \<open>The exact match of a Lookout annotation filter, on the annotations of a job.\<close>

definition filter_matches :: "LookoutFilter \<Rightarrow> jsstring obj \<Rightarrow> bool" where
  "filter_matches f anns \<longleftrightarrow>
     isAnnotation f \<and> flt_match f = MatchExact
       \<and> (case flt_value f of OneValue v \<Rightarrow> obj_get anns (flt_field f) = Some v | AnyValue vs \<Rightarrow> False)"

lemma submit_annotations_get:
  "obj_get (submit_annotations config) k =
     (if k = SANDBOX_MARK then Some (cfg_queue config)
      else if k = js ''armadaproject.io/failFast'' then Some (js ''true'')
      else obj_get (cfg_podAnnotations config) k)"
  by (auto simp: submit_annotations_def obj_get_spread obj_wf_def SANDBOX_MARK_def)

text \<open>C27: A submission is addressed by the sandbox id three times over, as dedupe key, as job set and as the uri
  it is found by; it carries the mark that this installation's questions to Lookout filter on and the
  switch that forbids retries, whatever annotations the operator configured, and every other
  annotation as configured; and it exposes every port the pod declares.\<close>

theorem submit_request_marked:
  "\<exists>item. jobRequestItems (submit_request config sandboxId spec queue) = [item]
     \<and> sub_queue (submit_request config sandboxId spec queue) = queue
     \<and> [clientId item, sub_jobSetId (submit_request config sandboxId spec queue), externalJobUri item]
         = [sandboxId, sandboxId, sandboxId]
     \<and> filter_matches (mark_filter config) (annotations item)
     \<and> (\<forall>k. obj_get (annotations item) k =
          (if k = SANDBOX_MARK then Some (cfg_queue config)
           else if k = js ''armadaproject.io/failFast'' then Some (js ''true'')
           else obj_get (cfg_podAnnotations config) k))
     \<and> concat (map ing_ports (or_else (item_ingress item) [])) @ concat (map svc_ports (or_else (services item) []))
         = exposedPorts spec"
  by (auto simp: submit_request_def submit_annotations_get filter_matches_def mark_filter_def exposure_def
      split: Exposure.split)

text \<open>One call, one request.\<close>

lemma postTo_log:
  assumes "postTo pf config base path body signal s = (r, t)"
  shows "log t = log s \<or> (\<exists>h. log t = log s @ [\<lparr>req_method = js ''POST'', req_url = strip_slash base @ path,
    req_headers = h, req_body = Some body, req_timeout = signal\<rparr>])"
  using assms unfolding postTo_def requestHeaders_def
  by (auto simp: io_eval fetch_def Let_def dest: authorizationHeader_state
      split: prod.splits sum.splits if_splits)

lemma postTo_Inr_log:
  assumes "postTo pf config base path body signal s = (Inr r, t)"
  shows "\<exists>h. log t = log s @ [\<lparr>req_method = js ''POST'', req_url = strip_slash base @ path,
    req_headers = h, req_body = Some body, req_timeout = signal\<rparr>]"
  using assms unfolding postTo_def requestHeaders_def
  by (auto simp: io_eval fetch_def Let_def dest: authorizationHeader_state
      split: prod.splits sum.splits if_splits)

lemma postJsonTo_log:
  assumes "postJsonTo pf config base path body s = (r, t)"
  shows "log t = log s \<or> (\<exists>h. log t = log s @ [\<lparr>req_method = js ''POST'', req_url = strip_slash base @ path,
    req_headers = h, req_body = Some body, req_timeout = None\<rparr>])"
  using assms unfolding postJsonTo_def
  by (auto elim!: bindIO_eqE dest: postTo_log simp: io_run)

lemma postJsonTo_Inr_log:
  assumes "postJsonTo pf config base path body s = (Inr r, t)"
  shows "length (log t) = Suc (length (log s))"
  using assms unfolding postJsonTo_def
  by (auto elim!: bindIO_eqE dest!: postTo_Inr_log simp: io_run)

text \<open>Note: However the server answers, submitting sends at most one request, the submission itself; and a job
  comes back only when the server named one and reported no error, under the id and queue asked for.\<close>

theorem submit_once:
  assumes "submit pf config sandboxId spec queue s = (r, t)"
  shows "(log t = log s \<or> (\<exists>h. log t = log s @ [\<lparr>req_method = js ''POST'',
      req_url = strip_slash (cfg_url config) @ js ''/v1/job/submit'', req_headers = h,
      req_body = Some (SubmitBody (submit_request config sandboxId spec queue)), req_timeout = None\<rparr>]))
    \<and> (case r of Inl e \<Rightarrow> True
       | Inr job \<Rightarrow> job_id job \<noteq> [] \<and> job_setId job = sandboxId \<and> job_queue job = queue)"
  using assms unfolding submit_def postJson_def
  by (auto elim!: bindIO_eqE dest!: postJsonTo_log
      simp: io_run read_submit_def Let_def split: if_splits)

lemma submit_once_witness:
  "\<forall>spec. \<exists>e t. submit quiet_platform demo_config (js ''sb'') spec (js ''q'') demo_state = (Inl e, t)
     \<and> length (log t) \<le> 1"
proof
  fix spec
  obtain r t where run: "submit quiet_platform demo_config (js ''sb'') spec (js ''q'') demo_state = (r, t)"
    by fastforce
  moreover have "\<exists>e. r = Inl e"
    using run by (auto simp: submit_def postJson_def postJsonTo_def postTo_def requestHeaders_def
        authorizationHeader_def quiet_platform_def fetch_def io_eval demo_config_def)
  ultimately show "\<exists>e t. submit quiet_platform demo_config (js ''sb'') spec (js ''q'') demo_state = (Inl e, t)
     \<and> length (log t) \<le> 1"
    using submit_once[OF run] by (auto simp: demo_state_def)
qed

subsection \<open>The event stream\<close>

text \<open>A line that leaves the fate of a job open: an object, not a stream error, whose message says neither
  that the job runs nor that it ended for good.\<close>

definition undecided :: "SubmittedJob \<Rightarrow> json \<Rightarrow> bool" where
  "undecided job v \<longleftrightarrow>
     (case v of JObj _ \<Rightarrow> True | _ \<Rightarrow> False)
     \<and> line_error (decode_line v) = None
     \<and> (case line_message (decode_line v) of
          None \<Rightarrow> True
        | Some m \<Rightarrow>
            (case running m of None \<Rightarrow> True | Some e \<Rightarrow> run_jobId e \<noteq> Some (job_id job))
            \<and> (case failed m of None \<Rightarrow> True | Some f \<Rightarrow> fail_jobId f \<noteq> Some (job_id job) \<or> retryable f)
            \<and> cancelled m \<noteq> Some (Some (job_id job)))"

lemma undecided_passes:
  "undecided job v \<Longrightarrow> with_message (waitForRunning_step config job) v = None"
  by (auto simp: undecided_def with_message_def asObject_def waitForRunning_step_def running_step_def
      terminal_step_def failed_event_def Let_def split: json.splits option.splits if_splits)

lemma each_line_prefix:
  "list_all (\<lambda>v. step v = None) pre \<Longrightarrow> each_line step over (pre @ vs) broken = each_line step over vs broken"
  by (induction pre) auto

text \<open>A watch whose stream is there, as the values it yields.\<close>

definition watched ::
  "platform \<Rightarrow> ArmadaConfig \<Rightarrow> SubmittedJob \<Rightarrow> int \<Rightarrow> 'a net_state_scheme \<Rightarrow> json list \<Rightarrow> js_error option
     \<Rightarrow> 'a net_state_scheme \<Rightarrow> bool" where
  "watched pf config job ms s values broken t \<longleftrightarrow>
     (\<exists>path response body. watch_path job = Inr path
        \<and> post pf config path (watch_body job) (Some (of_whole ms)) s = (Inr response, t)
        \<and> rsp_body response = Some body \<and> readNdjson (pf_syntax pf) body = (values, broken))"

lemma watch_events_watched:
  "watched pf config job ms s values broken t \<Longrightarrow>
     watch_events pf config job (of_whole ms) step over s = (each_line step over values broken, t)"
  by (auto simp: watched_def watch_events_def io_eval)

lemma waitForRunning_watched:
  assumes "watched pf config job DEFAULT_RUNNING_TIMEOUT_MS s (pre @ vs) broken t" and "list_all (undecided job) pre"
  shows "waitForRunning pf config job s =
    (each_line (with_message (waitForRunning_step config job))
       (err [js ''Armada event stream ended before job '', job_id job, js '' started'']) vs broken, t)"
proof -
  have "list_all (\<lambda>v. with_message (waitForRunning_step config job) v = None) pre"
    using assms(2) undecided_passes by (auto simp: list_all_iff)
  then show ?thesis
    unfolding waitForRunning_def watch_events_watched[OF assms(1)] by (simp add: each_line_prefix)
qed

definition message_line :: "json \<Rightarrow> EventMessage \<Rightarrow> bool" where
  "message_line v m \<longleftrightarrow> (case v of JObj _ \<Rightarrow> True | _ \<Rightarrow> False) \<and> line_error (decode_line v) = None
     \<and> line_message (decode_line v) = Some m"

lemma with_message_line: "message_line v m \<Longrightarrow> with_message f v = f m"
  by (auto simp: message_line_def with_message_def asObject_def Let_def split: json.splits)

text \<open>C28: Waiting ends at the job's running event: events of other jobs, empty lines and failures the scheduler
  will retry come before it without effect, whatever follows is not read, and where the pod landed is
  what the event says, with the configured namespace when it names none.\<close>

theorem waitForRunning_returns:
  assumes "watched pf config job DEFAULT_RUNNING_TIMEOUT_MS s (pre @ v # rest) broken t"
    and "list_all (undecided job) pre" and "message_line v m"
    and "running m = Some e" and "run_jobId e = Some (job_id job)"
  shows "waitForRunning pf config job s =
    (Inr \<lparr>clusterId = or_else (run_clusterId e) [], podName = or_else (run_podName e) [],
       podNamespace = or_else (run_podNamespace e) (cfg_namespace config), nodeName = run_nodeName e\<rparr>, t)"
  using assms(3-) waitForRunning_watched[OF assms(1,2)]
  by (simp add: with_message_line waitForRunning_step_def running_step_def)

text \<open>A stream that carries one event line.\<close>

definition demo_job :: SubmittedJob where
  "demo_job = \<lparr>job_id = js ''j'', job_setId = js ''sb'', job_queue = js ''q''\<rparr>"

definition running_text :: jsstring where
  "running_text = jtext ''{`result`:{`message`:{`running`:{`jobId`:`j`,`podName`:`p`}}}}''"

definition running_json :: json where
  "running_json = JObj [(js ''result'', JObj [(js ''message'', JObj [(js ''running'',
     JObj [(js ''jobId'', JStr (js ''j'')), (js ''podName'', JStr (js ''p''))])])])]"

lemma running_line: "JSON_parse running_text = Some running_json"
  by code_simp

lemma running_text_read: "readNdjson syn \<lparr>chunks = [utf8_bytes running_text], ending = None\<rparr> = ([running_json], None)"
  using readNdjson_jtext[OF _ running_line[unfolded running_text_def]]
  by (simp add: running_text_def jtext_def js_def is_space_def)

lemma watched_answering:
  assumes "readNdjson (\<lambda>_. js ''bad JSON'') \<lparr>chunks = [utf8_bytes body], ending = None\<rparr> = (vs, broken)"
  shows "\<exists>t. watched (answering body) demo_config demo_job ms s vs broken t"
proof -
  have "\<exists>path. watch_path demo_job = Inr path"
    by (simp add: watch_path_def encodeURIComponent_def demo_job_def js_def is_high_def is_low_def)
  then show ?thesis
    using assms
    by (auto simp: watched_def post_def postTo_def requestHeaders_def authorizationHeader_def answering_def
        quiet_platform_def fetch_def io_eval rsp_ok_def demo_config_def)
qed

lemma message_line_running:
  "message_line running_json
     \<lparr>running = Some \<lparr>run_jobId = Some (js ''j''), run_clusterId = None, run_podName = Some (js ''p''),
        run_podNamespace = None, run_nodeName = None\<rparr>,
      ingressInfo = None, failed = None, cancelled = None\<rparr>"
  by (simp add: message_line_def running_json_def decode_line_def decode_message_def decode_running_def
      obj_at_def json_at_def str_at_def)

lemma waitForRunning_returns_witness:
  "\<exists>t. waitForRunning (answering running_text) demo_config demo_job demo_state =
     (Inr \<lparr>clusterId = [], podName = js ''p'', podNamespace = js ''default'', nodeName = None\<rparr>, t)"
proof -
  obtain t where t: "watched (answering running_text) demo_config demo_job DEFAULT_RUNNING_TIMEOUT_MS
      demo_state ([] @ running_json # []) None t"
    using watched_answering[OF running_text_read]
    by auto
  show ?thesis
    using waitForRunning_returns[OF t _ message_line_running]
    by (auto simp: demo_job_def demo_config_def)
qed

text \<open>Note: A failure of the job that will not be retried ends the wait at once, with the reason Armada gave.\<close>

theorem waitForRunning_fails:
  assumes "watched pf config job DEFAULT_RUNNING_TIMEOUT_MS s (pre @ v # rest) broken t"
    and "list_all (undecided job) pre" and "message_line v m" and "running m = None"
    and "failed m = Some f" and "fail_jobId f = Some (job_id job)" and "\<not> retryable f"
  shows "waitForRunning pf config job s =
    (Inl (err [js ''Armada job '', job_id job, js '' failed: '', or_else (fail_reason f) (js ''no reason given'')]), t)"
  using assms(3-) waitForRunning_watched[OF assms(1,2)]
  by (simp add: with_message_line waitForRunning_step_def running_step_def terminal_step_def failed_event_def)

definition failed_text :: jsstring where
  "failed_text = jtext ''{`result`:{`message`:{`failed`:{`jobId`:`j`,`reason`:`oom`}}}}''"

definition failed_json :: json where
  "failed_json = JObj [(js ''result'', JObj [(js ''message'', JObj [(js ''failed'',
     JObj [(js ''jobId'', JStr (js ''j'')), (js ''reason'', JStr (js ''oom''))])])])]"

lemma failed_line: "JSON_parse failed_text = Some failed_json"
  by code_simp

lemma failed_text_read: "readNdjson syn \<lparr>chunks = [utf8_bytes failed_text], ending = None\<rparr> = ([failed_json], None)"
  using readNdjson_jtext[OF _ failed_line[unfolded failed_text_def]]
  by (simp add: failed_text_def jtext_def js_def is_space_def)

lemma message_line_failed:
  "message_line failed_json
     \<lparr>running = None, ingressInfo = None,
      failed = Some \<lparr>fail_jobId = Some (js ''j''), fail_reason = Some (js ''oom''), retryable = False\<rparr>,
      cancelled = None\<rparr>"
  by (simp add: message_line_def failed_json_def decode_line_def decode_message_def decode_failed_def
      obj_at_def json_at_def str_at_def is_true_def)

lemma waitForRunning_fails_witness:
  "\<exists>t. waitForRunning (answering failed_text) demo_config demo_job demo_state =
     (Inl (err [js ''Armada job '', js ''j'', js '' failed: '', js ''oom'']), t)"
proof -
  obtain t where t: "watched (answering failed_text) demo_config demo_job DEFAULT_RUNNING_TIMEOUT_MS
      demo_state ([] @ failed_json # []) None t"
    using watched_answering[OF failed_text_read]
    by auto
  show ?thesis
    using waitForRunning_fails[OF t _ message_line_failed] by (auto simp: demo_job_def)
qed

lemma each_line_Inr: "each_line step over vs broken = Inr x \<Longrightarrow> \<exists>v \<in> set vs. step v = Some (Inr x)"
  by (induction step over vs broken rule: each_line.induct) (auto split: option.splits)

lemma running_step_found:
  "with_message (waitForRunning_step config job) v = Some (Inr loc) \<Longrightarrow>
     \<exists>m e. line_message (decode_line v) = Some m \<and> running m = Some e \<and> run_jobId e = Some (job_id job)
       \<and> podName loc = or_else (run_podName e) []"
  by (auto simp: with_message_def asObject_def waitForRunning_step_def running_step_def terminal_step_def
      Let_def split: json.splits option.splits if_splits)

text \<open>C29: The wait reports where a pod landed only from a running event of the job itself, read from its own
  stream: no answer of the server makes it report a pod for a job that never ran.\<close>

theorem waitForRunning_sound:
  assumes "waitForRunning pf config job s = (Inr loc, t)"
  shows "\<exists>values broken. watched pf config job DEFAULT_RUNNING_TIMEOUT_MS s values broken t
    \<and> (\<exists>v \<in> set values. \<exists>m e. line_message (decode_line v) = Some m \<and> running m = Some e
         \<and> run_jobId e = Some (job_id job) \<and> podName loc = or_else (run_podName e) [])"
proof -
  from assms obtain path s' response body where path: "watch_path job = Inr path"
    and post: "post pf config path (watch_body job) (Some (of_whole DEFAULT_RUNNING_TIMEOUT_MS)) s = (Inr response, t)"
    and body: "rsp_body response = Some body"
    and loop: "each_line (with_message (waitForRunning_step config job))
       (err [js ''Armada event stream ended before job '', job_id job, js '' started''])
       (fst (readNdjson (pf_syntax pf) body)) (snd (readNdjson (pf_syntax pf) body)) = Inr loc"
    unfolding waitForRunning_def watch_events_def
    by (auto elim!: bindIO_eqE simp: io_run split: option.splits prod.splits)
  then have "watched pf config job DEFAULT_RUNNING_TIMEOUT_MS s (fst (readNdjson (pf_syntax pf) body))
      (snd (readNdjson (pf_syntax pf) body)) t"
    by (auto simp: watched_def)
  with each_line_Inr[OF loop] running_step_found show ?thesis by blast
qed

lemma waitForRunning_sound_witness:
  "\<exists>loc t values broken. waitForRunning (answering running_text) demo_config demo_job demo_state = (Inr loc, t)
     \<and> watched (answering running_text) demo_config demo_job DEFAULT_RUNNING_TIMEOUT_MS demo_state values broken t"
proof -
  obtain t where t: "watched (answering running_text) demo_config demo_job DEFAULT_RUNNING_TIMEOUT_MS
      demo_state ([] @ [running_json]) None t"
    using watched_answering[OF running_text_read] by auto
  from waitForRunning_watched[OF this] have "\<exists>loc. waitForRunning (answering running_text) demo_config
      demo_job demo_state = (Inr loc, t)"
    by (simp add: with_message_line[OF message_line_running] waitForRunning_step_def running_step_def demo_job_def)
  then show ?thesis using waitForRunning_sound by blast
qed

subsection \<open>Finding jobs again\<close>

lemma last_sort_Max: "xs \<noteq> [] \<Longrightarrow> last (sort xs) = Max (set xs)"
proof -
  assume "xs \<noteq> []"
  have "sorted ys \<Longrightarrow> y \<in> set ys \<Longrightarrow> y \<le> last ys" for ys :: "'a list" and y
    by (induction ys) auto
  from this[of "sort xs"] have "\<forall>y \<in> set xs. y \<le> last (sort xs)" by simp
  moreover have "last (sort xs) \<in> set (sort xs)"
    using \<open>xs \<noteq> []\<close> by (intro last_in_set) (metis set_empty set_sort)
  ultimately show ?thesis by (intro Max_eqI[symmetric]) auto
qed

text \<open>Note: Attaching finds the newest job of a sandbox that has not finished, by the order of job ids, and none
  exactly when every job the server reports for it has: succeeded, failed, preempted, cancelled or
  rejected.\<close>

theorem findJob_newest:
  assumes "postJson pf config (js ''/v1/job/statusUsingExternalJobUri'')
      (StatusBody \<lparr>status_queue = queue, status_jobset = sandboxId, status_externalJobUri = sandboxId\<rparr>) s
      = (Inr response, t)"
  shows "findJob pf config sandboxId queue s =
    (Inr (let live = {j. \<exists>st. (j, st) \<in> set (decode_states response)
              \<and> st \<notin> Some ` of_whole ` JOB_STATE ` {SUCCEEDED, FAILED, PREEMPTED, CANCELLED, REJECTED}}
          in if live = {} then None
             else Some \<lparr>job_id = Max live, job_setId = sandboxId, job_queue = queue\<rparr>), t)"
proof -
  let ?states = "decode_states response"
  have fin: "is_finished st \<longleftrightarrow> st \<in> Some ` of_whole ` JOB_STATE ` {SUCCEEDED, FAILED, PREEMPTED, CANCELLED, REJECTED}"
    for st by (simp add: is_finished_def FINISHED_JOB_STATES_def)
  have live: "set (live_jobs ?states) = {j. \<exists>st. (j, st) \<in> set ?states
      \<and> st \<notin> Some ` of_whole ` JOB_STATE ` {SUCCEEDED, FAILED, PREEMPTED, CANCELLED, REJECTED}}"
    unfolding live_jobs_def fin by force
  have "live_jobs ?states = [] \<longleftrightarrow> set (live_jobs ?states) = {}" by simp
  moreover have "live_jobs ?states \<noteq> [] \<Longrightarrow> last (live_jobs ?states) = Max (set (live_jobs ?states))"
    unfolding live_jobs_def using last_sort_Max by (metis set_empty set_sort)
  ultimately show ?thesis
    using assms unfolding findJob_def Let_def live[symmetric] by (simp add: io_eval)
qed

lemma answering_json:
  assumes "JSON_parse (jtext x) = Some (JObj ms)"
  shows "\<exists>t. postJsonTo (answering (jtext x)) demo_config base path body s = (Inr (JObj ms), t)"
  using assms
  by (auto simp: postJsonTo_def postTo_def requestHeaders_def authorizationHeader_def answering_def
      quiet_platform_def fetch_def io_eval rsp_ok_def demo_config_def response_json_def response_text_def
      response_bytes_def stream_bytes_def body_text_bytes asObject_def)

lemma states_text: "JSON_parse (jtext ''{`jobStates`:{`j2`:2,`j3`:4}}'') =
    Some (JObj [(js ''jobStates'', JObj [(js ''j2'', JNum (of_whole 2)), (js ''j3'', JNum (of_whole 4))])])"
  by code_simp

lemma findJob_newest_witness:
  "\<exists>t. findJob (answering (jtext ''{`jobStates`:{`j2`:2,`j3`:4}}'')) demo_config (js ''sb'') (js ''q'') demo_state =
     (Inr (Some \<lparr>job_id = js ''j2'', job_setId = js ''sb'', job_queue = js ''q''\<rparr>), t)"
proof -
  let ?pf = "answering (jtext ''{`jobStates`:{`j2`:2,`j3`:4}}'')"
  let ?v = "JObj [(js ''jobStates'', JObj [(js ''j2'', JNum (of_whole 2)), (js ''j3'', JNum (of_whole 4))])]"
  have "decode_states ?v = [(js ''j2'', Some (of_whole 2)), (js ''j3'', Some (of_whole 4))]"
    by (simp add: decode_states_def json_at_def)
  then have live: "{j. \<exists>st. (j, st) \<in> set (decode_states ?v)
      \<and> st \<notin> Some ` of_whole ` JOB_STATE ` {SUCCEEDED, FAILED, PREEMPTED, CANCELLED, REJECTED}} = {js ''j2''}"
    by auto
  obtain t where "postJson ?pf demo_config (js ''/v1/job/statusUsingExternalJobUri'')
      (StatusBody \<lparr>status_queue = js ''q'', status_jobset = js ''sb'', status_externalJobUri = js ''sb''\<rparr>) demo_state
      = (Inr ?v, t)"
    unfolding postJson_def using answering_json[OF states_text] by blast
  from findJob_newest[OF this] show ?thesis unfolding live by simp
qed

subsection \<open>Enumerating\<close>

lemma active_page_log: "active_page pf config lookout skip s = (Inr jobs, t) \<Longrightarrow> length (log t) = Suc (length (log s))"
  unfolding active_page_def lookoutJobs_def
  by (auto elim!: bindIO_eqE dest: postJsonTo_Inr_log simp: io_run)

text \<open>Lookout holds a list of jobs and answers each page with its slice.\<close>

definition pages_of :: "platform \<Rightarrow> ArmadaConfig \<Rightarrow> jsstring \<Rightarrow> LookoutJob list \<Rightarrow> ('a net_state_scheme) itself \<Rightarrow> bool" where
  "pages_of pf config lookout jobs T \<longleftrightarrow>
     (\<forall>skip. \<forall>s :: 'a net_state_scheme.
        fst (active_page pf config lookout skip s) = Inr (take LIST_ACTIVE_PAGE (drop skip jobs)))"

lemma active_pages_all:
  fixes s :: "'a net_state_scheme"
  assumes "pages_of pf config lookout jobs TYPE('a net_state_scheme)"
    and "(length jobs - skip) div LIST_ACTIVE_PAGE < fuel"
  shows "\<exists>t. active_pages fuel pf config lookout skip acc s = Some (Inr (obj_values (fold add_active (drop skip jobs) acc)), t)
    \<and> length (log t) = length (log s) + (length jobs - skip) div LIST_ACTIVE_PAGE + 1"
  using assms(2)
proof (induction fuel arbitrary: skip acc s)
  case (Suc fuel)
  let ?page = "take LIST_ACTIVE_PAGE (drop skip jobs)"
  obtain t where t: "active_page pf config lookout skip s = (Inr ?page, t)"
    using assms(1) unfolding pages_of_def by (metis prod.collapse)
  show ?case
  proof (cases "length jobs - skip < LIST_ACTIVE_PAGE")
    case True
    then have "length ?page < LIST_ACTIVE_PAGE" "?page = drop skip jobs" by simp_all
    then show ?thesis using True active_page_log[OF t] by (simp add: t)
  next
    case False
    then have full: "\<not> length ?page < LIST_ACTIVE_PAGE" by simp
    have pos: "0 < LIST_ACTIVE_PAGE" by (simp add: LIST_ACTIVE_PAGE_def)
    have div: "(length jobs - skip) div LIST_ACTIVE_PAGE = Suc ((length jobs - (skip + LIST_ACTIVE_PAGE)) div LIST_ACTIVE_PAGE)"
      using False pos by (simp add: le_div_geq)
    then obtain u where u: "active_pages fuel pf config lookout (skip + LIST_ACTIVE_PAGE) (fold add_active ?page acc) t =
        Some (Inr (obj_values (fold add_active (drop (skip + LIST_ACTIVE_PAGE) jobs) (fold add_active ?page acc))), u)"
      "length (log u) = length (log t) + (length jobs - (skip + LIST_ACTIVE_PAGE)) div LIST_ACTIVE_PAGE + 1"
      using Suc.IH[of "skip + LIST_ACTIVE_PAGE"] Suc.prems by force
    have "drop skip jobs = ?page @ drop (skip + LIST_ACTIVE_PAGE) jobs"
      by (metis append_take_drop_id drop_drop add.commute)
    then have "fold add_active (drop skip jobs) acc =
        fold add_active (drop (skip + LIST_ACTIVE_PAGE) jobs) (fold add_active ?page acc)"
      by (metis fold_append comp_apply)
    then show ?thesis using u full div active_page_log[OF t] by (simp add: t)
  qed
qed simp

text \<open>A job counts when Lookout names its set and its queue.\<close>

definition placed :: "LookoutJob \<Rightarrow> (jsstring \<times> jsstring) option" where
  "placed job =
     (case (lk_jobSet job, lk_queue job) of
        (Some set', Some queue) \<Rightarrow> if set' = [] \<or> queue = [] then None else Some (set', queue)
      | _ \<Rightarrow> None)"

definition keyed :: "ActiveJob obj \<Rightarrow> bool" where
  "keyed m \<longleftrightarrow> obj_wf m \<and> list_all (\<lambda>(k, a). act_id a = k) m"

lemma add_active_placed:
  "add_active job m =
     (case placed job of None \<Rightarrow> m
      | Some (k, q) \<Rightarrow> obj_set k \<lparr>act_id = k, act_createdAt = lk_submitted job, act_queue = q\<rparr> m)"
  by (simp add: add_active_def placed_def split: option.split)

lemma keyed_add: "keyed m \<Longrightarrow> keyed (add_active job m)"
  by (auto simp: add_active_placed keyed_def list_all_iff dest!: obj_set_values split: option.split)

lemma keyed_fold: "keyed m \<Longrightarrow> keyed (fold add_active jobs m)"
  by (induction jobs arbitrary: m) (auto intro: keyed_add)

lemma keys_fold:
  "fst ` set (fold add_active jobs m) = fst ` set m \<union> {k. \<exists>job \<in> set jobs. \<exists>q. placed job = Some (k, q)}"
  by (induction jobs arbitrary: m) (auto simp: add_active_placed keys_obj_set split: option.splits)

lemma queues_fold:
  "(k, a) \<in> set (fold add_active jobs m) \<Longrightarrow>
     (k, a) \<in> set m \<or> (\<exists>job \<in> set jobs. placed job = Some (act_id a, act_queue a))"
proof (induction jobs arbitrary: m)
  case (Cons job jobs)
  then show ?case
    by (auto simp: add_active_placed dest!: obj_set_values split: option.splits)
      (force dest!: Cons.IH obj_set_values)+
qed simp

lemma keyed_values:
  assumes "keyed m"
  shows "distinct (map act_id (obj_values m))" "act_id ` set (obj_values m) = fst ` set m"
proof -
  have "map act_id (obj_values m) = map fst m"
    using assms by (auto simp: keyed_def obj_values_def list_all_iff intro!: map_cong)
  then show "distinct (map act_id (obj_values m))" "act_id ` set (obj_values m) = fst ` set m"
    using assms by (simp_all add: keyed_def obj_wf_def flip: set_map)
qed


text \<open>A Lookout that holds one job.\<close>

definition one_job :: platform where
  "one_job =
     quiet_platform\<lparr>pf_fetch := (\<lambda>_ req.
       (Inr \<lparr>rsp_status = 200, rsp_statusText = js ''OK'',
          rsp_body = Some \<lparr>chunks = [utf8_bytes (jtext (case req_body req of
               Some (JobsBody q) \<Rightarrow> if jobs_skip q = 0 then ''{`jobs`:[{`jobSet`:`sb`,`queue`:`q`}]}'' else ''{}''
             | _ \<Rightarrow> ''{}''))], ending = None\<rparr>\<rparr>, 5))\<rparr>"

definition demo_listed :: LookoutJob where
  "demo_listed = \<lparr>lk_jobId = None, lk_queue = Some (js ''q''), lk_jobSet = Some (js ''sb''), lk_submitted = None\<rparr>"

lemma job_texts:
  "JSON_parse (jtext ''{`jobs`:[{`jobSet`:`sb`,`queue`:`q`}]}'') =
     Some (JObj [(js ''jobs'', JArr [JObj [(js ''jobSet'', JStr (js ''sb'')), (js ''queue'', JStr (js ''q''))]])])"
  "JSON_parse (jtext ''{}'') = Some (JObj [])"
  by code_simp+

lemma one_job_pages: "pages_of one_job demo_config lookout [demo_listed] T"
proof -
  have "fst (active_page one_job demo_config lookout skip s) = Inr (if skip = 0 then [demo_listed] else [])"
    for skip and s :: "'a net_state_scheme"
    by (auto simp: active_page_def lookoutJobs_def postJsonTo_def postTo_def requestHeaders_def one_job_def
        authorizationHeader_def quiet_platform_def fetch_def io_eval rsp_ok_def demo_config_def response_json_def
        response_text_def response_bytes_def stream_bytes_def body_text_bytes asObject_def job_texts decode_jobs_def
        decode_job_def arr_at_def str_at_def json_at_def demo_listed_def)
  then show ?thesis by (auto simp: pages_of_def LIST_ACTIVE_PAGE_def)
qed


text \<open>Note: Every question to Lookout is scoped to this installation, whatever the answers: each request that
  resolving a queue makes asks for jobs that carry the mark with this installation's name, so a
  stranger's job is never taken for one of ours.\<close>

theorem resolve_scoped:
  "\<exists>l. log (snd (resolve config (Some (findQueue pf config)) sid owner s)) = log s @ l \<and> list_all (scoped config) l"
proof -
  obtain r t where ask: "findQueue pf config sid s = (r, t)" by fastforce
  then obtain l where "log t = log s @ l" "list_all (scoped config) l"
    by (rule talksE[OF talks_findQueue])
  then show ?thesis
    using ask by (cases "remembered s sid"; cases "queue_mapped config")
      (auto simp: directory.resolve_known directory.resolve_unmapped directory.resolve_asks[OF _ _ ask] Let_def
        split: sum.split option.split)
qed

subsection \<open>The interface a sandbox relies on\<close>

text \<open>The requests the client makes: posts to Armada or Lookout, of the five kinds; what is submitted is
  constrained by \<open>fine\<close>.\<close>

definition to_armada :: "ArmadaConfig \<Rightarrow> (JobSubmitRequest \<Rightarrow> bool) \<Rightarrow> request \<Rightarrow> bool" where
  "to_armada config fine req \<longleftrightarrow>
     req_method req = js ''POST''
     \<and> (startsWith (strip_slash (cfg_url config)) (req_url req)
        \<or> (\<exists>l. cfg_lookoutUrl config = Some l \<and> startsWith (strip_slash l) (req_url req)))
     \<and> (case req_body req of
          Some (SubmitBody r) \<Rightarrow> fine r
        | Some (JobSetBody _) \<Rightarrow> True
        | Some (CancelBody _) \<Rightarrow> True
        | Some (StatusBody _) \<Rightarrow> True
        | Some (JobsBody q) \<Rightarrow> mark_filter config \<in> set (filters q)
        | _ \<Rightarrow> False)"

locale placement =
  fixes allowed :: "request \<Rightarrow> bool"
    and fine :: "SandboxId \<Rightarrow> V1PodSpec \<Rightarrow> jsstring \<Rightarrow> bool"
    and submit' :: "SandboxId \<Rightarrow> V1PodSpec \<Rightarrow> jsstring \<Rightarrow> ('a net_state_scheme, SubmittedJob) io"
    and running' :: "SubmittedJob \<Rightarrow> ('a net_state_scheme, PodLocation) io"
    and url' :: "SubmittedJob \<Rightarrow> int \<Rightarrow> ('a net_state_scheme, jsstring) io"
    and cancel' :: "SubmittedJob \<Rightarrow> ('a net_state_scheme, unit) io"
    and cancelSet' :: "jsstring \<Rightarrow> jsstring \<Rightarrow> ('a net_state_scheme, unit) io"
    and findJob' :: "SandboxId \<Rightarrow> jsstring \<Rightarrow> ('a net_state_scheme, SubmittedJob option) io"
    and findQueue' :: "SandboxId \<Rightarrow> ('a net_state_scheme, jsstring option) io"
  assumes submit: "fine sid spec queue \<Longrightarrow> talks allowed (submit' sid spec queue)"
    and running: "talks allowed (running' job)"
    and url: "talks allowed (url' job port)"
    and cancel: "talks allowed (cancel' job)"
    and cancelSet: "talks allowed (cancelSet' jobSet queue)"
    and findJob: "talks allowed (findJob' sid queue)"
    and findQueue: "talks allowed (findQueue' sid)"
    and submitted: "submit' sid spec queue s = (Inr job, t) \<Longrightarrow> job_setId job = sid \<and> job_queue job = queue"
    and found: "findJob' sid queue s = (Inr (Some job), t) \<Longrightarrow> job_setId job = sid \<and> job_queue job = queue"
begin

lemmas talking = running url cancel cancelSet findJob findQueue

text \<open>Whichever way a sandbox comes by its job, it can cancel the job it was given.\<close>

lemma job_addressed:
  "fine sid spec queue \<Longrightarrow>
   triple (\<lambda>_. True) (submit' sid spec queue) (\<lambda>job _. job_setId job = sid \<and> job_queue job = queue) (\<lambda>_ _. True)"
  "triple (\<lambda>_. True) (findJob' sid queue)
     (\<lambda>found _. \<forall>job. found = Some job \<longrightarrow> job_setId job = sid \<and> job_queue job = queue) (\<lambda>_ _. True)"
  using submitted found by (auto intro!: tripleI)

end

lemma to_armada_body:
  "to_armada config fine \<lparr>req_method = js ''POST'', req_url = strip_slash (cfg_url config) @ path, req_headers = h,
     req_body = Some b, req_timeout = signal\<rparr> \<longleftrightarrow>
   (case b of SubmitBody r \<Rightarrow> fine r | JobsBody q \<Rightarrow> mark_filter config \<in> set (filters q)
      | JsonBody _ \<Rightarrow> False | TextBody _ \<Rightarrow> False | BytesBody _ \<Rightarrow> False | _ \<Rightarrow> True)"
  by (simp add: to_armada_def split: request_body.split)

lemma talks_post_armada:
  assumes "case b of SubmitBody r \<Rightarrow> fine r | JobsBody _ \<Rightarrow> False | JsonBody _ \<Rightarrow> False | TextBody _ \<Rightarrow> False
      | BytesBody _ \<Rightarrow> False | _ \<Rightarrow> True"
  shows "talks (to_armada config fine) (post pf config path b signal)"
    and "talks (to_armada config fine) (postJson pf config path b)"
  unfolding post_def postJson_def using assms
  by (auto intro!: talks_postTo talks_postJsonTo simp: to_armada_body split: request_body.splits)

lemma submit_Inr:
  "submit pf config sid spec queue s = (Inr job, t) \<Longrightarrow> job_setId job = sid \<and> job_queue job = queue"
  unfolding submit_def by (auto elim!: bindIO_eqE simp: io_run read_submit_def Let_def split: if_splits)

lemma findJob_Inr:
  "findJob pf config sid queue s = (Inr (Some job), t) \<Longrightarrow> job_setId job = sid \<and> job_queue job = queue"
  unfolding findJob_def by (auto elim!: bindIO_eqE simp: io_run Let_def split: if_splits)

lemma talks_watches:
  "talks (to_armada config fine) (waitForRunning pf config job)"
  "talks (to_armada config fine) (portUrl pf config job port)"
  unfolding waitForRunning_def portUrl_def ingressAddress_def
  by (auto intro!: talks_bindIO talks_watch_events simp: to_armada_body watch_body_def)

lemma talks_findQueue_armada: "talks (to_armada config fine) (findQueue pf config sid)"
proof (cases "cfg_lookoutUrl config")
  case (Some l)
  then show ?thesis
    unfolding findQueue_def lookoutJobs_def
    by (auto intro!: talks_bindIO talks_postJsonTo simp: to_armada_def Let_def)
qed (simp add: findQueue_def)

interpretation client: placement "to_armada config fine" "\<lambda>sid spec queue. fine (submit_request config sid spec queue)"
  "submit pf config" "waitForRunning pf config" "portUrl pf config" "cancel pf config" "cancelSet pf config"
  "findJob pf config" "findQueue pf config"
proof unfold_locales
  show "talks (to_armada config fine) (submit pf config sid spec queue)"
    if "fine (submit_request config sid spec queue)" for sid spec queue
    unfolding submit_def using that by (auto intro!: talks_bindIO talks_post_armada)
  show "talks (to_armada config fine) (cancel pf config job)" for job
    unfolding cancel_def by (auto intro!: talks_bindIO talks_post_armada)
  show "talks (to_armada config fine) (cancelSet pf config jobSet queue)" for jobSet queue
    unfolding cancelSet_def by (auto intro!: talks_bindIO talks_post_armada)
  show "talks (to_armada config fine) (findJob pf config sid queue)" for sid queue
    unfolding findJob_def Let_def by (auto intro!: talks_bindIO talks_post_armada)
  show "job_setId job = sid \<and> job_queue job = queue" if "submit pf config sid spec queue s = (Inr job, t)"
    for sid spec queue s job t
    using that by (rule submit_Inr)
  show "job_setId job = sid \<and> job_queue job = queue" if "findJob pf config sid queue s = (Inr (Some job), t)"
    for sid queue s job t
    using that by (rule findJob_Inr)
qed (rule talks_watches talks_findQueue_armada)+

end
