(* ===== verification/Channel.thy ===== *)
theory Channel
  imports ArmadaClient Base64
begin

section \<open>The control channel (\<open>src/channel.ts\<close>)\<close>

text \<open>
  \<open>AgentChannel\<close> keeps nothing but its endpoint, so a channel is an \<open>AgentEndpoint\<close> and each method an
  operation over the platform.  Every method is one request to the agent in the pod, except \<open>ready\<close>,
  which polls.  The poll is a total function: each round but the last sleeps a quarter of a second
  of the clock's time, so it ends, and the first theorem bounds its probes.  A \<open>ReadableStream\<close> handed out by
  \<open>stream\<close> is the chunks it delivers and how it ends; \<open>stopped\<close> says whether the request had been
  aborted by the caller or its timer when the body broke off.
\<close>

subsection \<open>Types\<close>

record CommandResult =
  cr_stdout :: jsstring
  cr_stderr :: jsstring
  cr_exitCode :: jsnum

record RunOptions =
  run_stdin :: "file_content option"
  run_timeoutMs :: "jsnum option"

record ProcessStatus =
  ps_running :: bool
  ps_exitCode :: "jsnum option"

record PortProbe =
  probe_mode :: "probe_mode option"
  probe_path :: "jsstring option"

record PortWait =
  pw_open :: bool
  pw_exited :: bool
  pw_exitCode :: "jsnum option"

record AgentFileEntry =
  afe_path :: jsstring
  afe_type :: file_type
  afe_size :: jsnum

datatype ReadFileOutcome = ReadOk "byte list" | ReadNotFound | ReadRefused jsstring

record ReadBudget =
  budget_maxBytes :: jsnum
  budget_timeoutMs :: jsnum

datatype ListFilesOutcome = ListOk "AgentFileEntry list" | ListNotADirectory | ListRefused jsstring

record AgentEndpoint =
  ep_url :: jsstring
  ep_token :: jsstring
  ep_pod :: PodLocation

record AgentEvent =
  ae_stdout :: "jsstring option"
  ae_stderr :: "jsstring option"
  ae_exit :: "jsnum option"
  ae_timedOut :: bool
  ae_error :: "jsstring option"

record AgentRefusal =
  refusal_code :: "jsstring option"
  refusal_message :: jsstring

definition READY_POLL_MS :: nat where "READY_POLL_MS = 250"
definition TIMEOUT_SLACK_MS :: int where "TIMEOUT_SLACK_MS = 10000"
definition BOUNDED_READ_SLACK_MS :: int where "BOUNDED_READ_SLACK_MS = 1000"
definition MAX_TIMER_MS :: int where "MAX_TIMER_MS = 2 ^ 31 - 1"

subsection \<open>Reading what the agent says\<close>

definition num_at :: "json \<Rightarrow> jsstring \<Rightarrow> jsnum option" where
  "num_at v k = (case json_at v k of Some (JNum n) \<Rightarrow> Some n | _ \<Rightarrow> None)"

definition bool_at :: "json \<Rightarrow> jsstring \<Rightarrow> bool option" where
  "bool_at v k = (case json_at v k of Some (JBool b) \<Rightarrow> Some b | _ \<Rightarrow> None)"

definition is_object :: "json \<Rightarrow> bool" where
  "is_object v = (case v of JObj _ \<Rightarrow> True | JArr _ \<Rightarrow> True | _ \<Rightarrow> False)"

definition asEvent :: "json \<Rightarrow> AgentEvent result" where
  "asEvent value =
     (if \<not> is_object value then
        Inl (err [js ''the agent sent something that is not an event: '', JSON_stringify value])
      else Inr \<lparr>ae_stdout = str_at value (js ''stdout''), ae_stderr = str_at value (js ''stderr''),
             ae_exit = num_at value (js ''exit''), ae_timedOut = is_true value (js ''timedOut''),
             ae_error = str_at value (js ''error'')\<rparr>)"

definition refusalOf :: "response \<Rightarrow> AgentRefusal result" where
  "refusalOf response =
     bindR (response_text response) (\<lambda>body.
       let parsed = or_else (JSON_parse body) JNull
       in Inr \<lparr>refusal_code = str_at parsed (js ''code''),
            refusal_message = concat [js ''HTTP '', show_nat (rsp_status response), js '': '',
              or_else (str_at parsed (js ''error'')) (trim body)]\<rparr>)"

definition pidOf :: "json \<Rightarrow> jsnum option" where
  "pidOf value = num_at value (js ''pid'')"

definition statusOf :: "json \<Rightarrow> ProcessStatus option" where
  "statusOf value =
     map_option (\<lambda>r. \<lparr>ps_running = r, ps_exitCode = num_at value (js ''exitCode'')\<rparr>)
       (bool_at value (js ''running''))"

definition portWaitOf :: "json \<Rightarrow> PortWait option" where
  "portWaitOf value =
     map_option (\<lambda>b. \<lparr>pw_open = b, pw_exited = is_true value (js ''exited''),
         pw_exitCode = num_at value (js ''exitCode'')\<rparr>)
       (bool_at value (js ''open''))"

definition fileTypeOf :: "jsstring \<Rightarrow> file_type option" where
  "fileTypeOf t =
     (if t = js ''file'' then Some RegularFile
      else if t = js ''directory'' then Some Directory
      else if t = js ''symlink'' then Some Symlink
      else if t = js ''other'' then Some OtherFile
      else None)"

definition entryOf :: "json \<Rightarrow> AgentFileEntry option" where
  "entryOf value =
     map_option (\<lambda>p. \<lparr>afe_path = p,
         afe_type = or_else (Option.bind (str_at value (js ''type'')) fileTypeOf) OtherFile,
         afe_size = or_else (num_at value (js ''size'')) (of_whole 0)\<rparr>)
       (str_at value (js ''path''))"

fun entries_loop :: "json list \<Rightarrow> AgentFileEntry list option" where
  "entries_loop [] = Some []"
| "entries_loop (raw # rest) =
     (case entryOf raw of
        None \<Rightarrow> None
      | Some entry \<Rightarrow> map_option (Cons entry) (entries_loop rest))"

definition entriesOf :: "json \<Rightarrow> AgentFileEntry list option" where
  "entriesOf value = Option.bind (arr_at value (js ''entries'')) entries_loop"

subsection \<open>Messages\<close>

definition ep_where :: "AgentEndpoint \<Rightarrow> jsstring" where
  "ep_where ep = podNamespace (ep_pod ep) @ [47] @ podName (ep_pod ep)"

definition failure :: "AgentEndpoint \<Rightarrow> jsstring \<Rightarrow> js_error \<Rightarrow> js_error" where
  "failure ep what cause =
     err [js ''The agent in '', ep_where ep, js '' could not '', what, js '': '', message cause]"

definition programOf :: "jsstring list \<Rightarrow> jsstring" where
  "programOf command = quote_string (case command of [] \<Rightarrow> [] | p # _ \<Rightarrow> p)"

definition runWhat :: "jsstring list \<Rightarrow> jsstring" where
  "runWhat command = js ''run '' @ programOf command"

definition filePath :: "jsstring \<Rightarrow> jsstring \<Rightarrow> jsstring result" where
  "filePath endpoint path =
     bindR (encodeURIComponent path) (\<lambda>p. Inr (endpoint @ js ''?path='' @ p))"

definition bodyOf :: "response \<Rightarrow> body_stream result" where
  "bodyOf response =
     (case rsp_body response of None \<Rightarrow> Inl (err [js ''the response had no body'']) | Some b \<Rightarrow> Inr b)"

definition boundedReadGiveUpMs :: "jsnum \<Rightarrow> jsnum" where
  "boundedReadGiveUpMs ms = num_min (num_add ms (of_whole BOUNDED_READ_SLACK_MS)) (of_whole MAX_TIMER_MS)"

fun readAtMost_loop :: "jsnum \<Rightarrow> nat \<Rightarrow> byte list \<Rightarrow> byte list list \<Rightarrow> js_error option \<Rightarrow> byte list option result" where
  "readAtMost_loop most seen acc [] broken =
     (case broken of Some e \<Rightarrow> Inl e | None \<Rightarrow> Inr (Some acc))"
| "readAtMost_loop most seen acc (chunk # rest) broken =
     (let seen' = seen + length chunk
      in if num_less most (of_whole (int seen')) then Inr None
         else readAtMost_loop most seen' (acc @ chunk) rest broken)"

definition readAtMost :: "body_stream \<Rightarrow> jsnum \<Rightarrow> byte list option result" where
  "readAtMost body most = readAtMost_loop most 0 [] (chunks body) (ending body)"

subsection \<open>Requests\<close>

definition bearer :: "AgentEndpoint \<Rightarrow> jsstring \<times> jsstring" where
  "bearer ep = (js ''authorization'', js ''Bearer '' @ ep_token ep)"

definition json_header :: "jsstring \<times> jsstring" where
  "json_header = (js ''content-type'', js ''application/json'')"

definition exec_request :: "AgentEndpoint \<Rightarrow> json \<Rightarrow> jsnum option \<Rightarrow> request" where
  "exec_request ep body signal =
     \<lparr>req_method = js ''POST'', req_url = ep_url ep @ js ''/exec'', req_headers = [json_header, bearer ep],
      req_body = Some (JsonBody body), req_timeout = signal\<rparr>"

definition agent_exec ::
  "platform \<Rightarrow> AgentEndpoint \<Rightarrow> json \<Rightarrow> jsnum option \<Rightarrow> ('a net_state_scheme, response) io" where
  "agent_exec pf ep body signal =
     bindIO (fetch pf (exec_request ep body signal)) (\<lambda>response.
       if \<not> rsp_ok response then
         bindIO (liftR (refusalOf response)) (\<lambda>refusal. throwIO (JsError (refusal_message refusal)))
       else returnIO response)"

datatype payload = NoPayload | RawPayload file_content | JsonPayload json

definition payload_body :: "payload \<Rightarrow> request_body option" where
  "payload_body p =
     (case p of
        NoPayload \<Rightarrow> None
      | RawPayload (TextContent t) \<Rightarrow> Some (TextBody t)
      | RawPayload (BytesContent b) \<Rightarrow> Some (BytesBody b)
      | JsonPayload v \<Rightarrow> Some (JsonBody v))"

definition plain_request ::
  "AgentEndpoint \<Rightarrow> jsstring \<Rightarrow> jsstring \<Rightarrow> payload \<Rightarrow> jsnum option \<Rightarrow> request" where
  "plain_request ep meth path body signal =
     \<lparr>req_method = meth, req_url = ep_url ep @ path,
      req_headers = [bearer ep] @ (case body of JsonPayload _ \<Rightarrow> [json_header] | _ \<Rightarrow> []),
      req_body = payload_body body, req_timeout = signal\<rparr>"

definition agent_request ::
  "platform \<Rightarrow> AgentEndpoint \<Rightarrow> jsstring \<Rightarrow> jsstring \<Rightarrow> jsstring \<Rightarrow> payload \<Rightarrow> jsnum option
     \<Rightarrow> ('a net_state_scheme, response) io" where
  "agent_request pf ep what meth path body signal =
     catchIO (fetch pf (plain_request ep meth path body signal)) (\<lambda>cause. throwIO (failure ep what cause))"

text \<open>\<open>if (!response.ok) throw this.failure(what, new Error((await refusalOf(response)).message))\<close>\<close>

definition or_refused ::
  "AgentEndpoint \<Rightarrow> jsstring \<Rightarrow> response \<Rightarrow> ('a net_state_scheme, 'r) io \<Rightarrow> ('a net_state_scheme, 'r) io" where
  "or_refused ep what response go =
     (if \<not> rsp_ok response then
        bindIO (liftR (refusalOf response)) (\<lambda>refusal.
          throwIO (failure ep what (JsError (refusal_message refusal))))
      else go)"

definition or_missing ::
  "AgentEndpoint \<Rightarrow> jsstring \<Rightarrow> jsstring \<Rightarrow> 'r option \<Rightarrow> ('a net_state_scheme, 'r) io" where
  "or_missing ep what text' found =
     (case found of None \<Rightarrow> throwIO (failure ep what (JsError text')) | Some x \<Rightarrow> returnIO x)"

subsection \<open>Readiness\<close>

definition health_request :: "AgentEndpoint \<Rightarrow> request" where
  "health_request ep =
     \<lparr>req_method = js ''GET'', req_url = ep_url ep @ js ''/healthz'', req_headers = [], req_body = None,
      req_timeout = Some (of_whole (int (READY_POLL_MS * 4)))\<rparr>"

text \<open>One probe: None when the agent answered, else why it did not.\<close>

definition probe :: "platform \<Rightarrow> AgentEndpoint \<Rightarrow> ('a net_state_scheme, jsstring option) io" where
  "probe pf ep =
     catchIO
       (bindIO (fetch pf (health_request ep)) (\<lambda>response.
          returnIO (if rsp_ok response then None else Some (js ''HTTP '' @ show_nat (rsp_status response)))))
       (\<lambda>cause. returnIO (Some (message cause)))"

definition not_ready :: "AgentEndpoint \<Rightarrow> nat \<Rightarrow> jsstring \<Rightarrow> js_error" where
  "not_ready ep ms why =
     err [js ''The agent in '', ep_where ep, js '' at '', ep_url ep, js '' did not answer within '',
       show_nat ms, js ''ms: '', why]"

definition probed :: "platform \<Rightarrow> AgentEndpoint \<Rightarrow> 'a net_state_scheme \<Rightarrow> jsstring option \<times> 'a net_state_scheme" where
  "probed pf ep s = (case probe pf ep s of (Inr r, t) \<Rightarrow> (r, t) | (Inl e, t) \<Rightarrow> (Some (message e), t))"

function ready_loop ::
  "platform \<Rightarrow> AgentEndpoint \<Rightarrow> nat \<Rightarrow> nat \<Rightarrow> 'a net_state_scheme \<Rightarrow> unit result \<times> 'a net_state_scheme" where
  "ready_loop pf ep ms deadline s =
     (case probed pf ep s of
        (None, t) \<Rightarrow> (Inr (), t)
      | (Some why, t) \<Rightarrow>
          if deadline \<le> clock t then (Inl (not_ready ep ms why), t)
          else ready_loop pf ep ms deadline (snd (sleep pf READY_POLL_MS t)))"
  by pat_completeness auto

lemma probed_state:
  assumes "probed pf ep s = (r, t)"
  shows "log t = log s @ [health_request ep]" "clock s \<le> clock t" "warnings t = warnings s"
    "net_state.more t = net_state.more s"
  using assms by (auto simp: probed_def probe_def io_eval fetch_def split: prod.splits sum.splits)

lemma sleep_state: "clock (snd (sleep pf ms t)) = clock t + ms + pf_lag pf (log t)" "log (snd (sleep pf ms t)) = log t"
  by (simp_all add: sleep_def io_eval)

termination ready_loop
proof (relation "measure (\<lambda>(pf, ep, ms, deadline, s). deadline - clock s)", goal_cases)
  case (2 pf ep ms deadline s r t why)
  have "clock s \<le> clock t" using 2(1,2) probed_state by (metis prod.collapse)
  then show ?case using 2 by (simp add: sleep_state READY_POLL_MS_def)
qed simp

declare ready_loop.simps [simp del]

definition agent_ready :: "platform \<Rightarrow> AgentEndpoint \<Rightarrow> nat \<Rightarrow> ('a net_state_scheme, unit) io" where
  "agent_ready pf ep ms = (\<lambda>s. ready_loop pf ep ms (clock s + ms) s)"

subsection \<open>Commands\<close>

fun run_events ::
  "json list \<Rightarrow> js_error option \<Rightarrow> byte list \<Rightarrow> byte list \<Rightarrow> AgentEvent option
     \<Rightarrow> (byte list \<times> byte list \<times> AgentEvent option) result" where
  "run_events [] broken out err' exit =
     (case broken of Some e \<Rightarrow> Inl e | None \<Rightarrow> Inr (out, err', exit))"
| "run_events (value # rest) broken out err' exit =
     bindR (asEvent value) (\<lambda>event.
       let out' = (case ae_stdout event of None \<Rightarrow> out | Some b \<Rightarrow> out @ unbase64 b);
           err'' = (case ae_stderr event of None \<Rightarrow> err' | Some b \<Rightarrow> err' @ unbase64 b)
       in case ae_error event of
            Some m \<Rightarrow> Inl (JsError m)
          | None \<Rightarrow> run_events rest broken out' err'' (if ae_exit event \<noteq> None then Some event else exit))"

definition content_bytes :: "file_content \<Rightarrow> byte list" where
  "content_bytes c = (case c of TextContent t \<Rightarrow> utf8_bytes t | BytesContent b \<Rightarrow> b)"

definition run_body :: "jsstring list \<Rightarrow> RunOptions \<Rightarrow> json" where
  "run_body command options =
     JObj ([(js ''cmd'', JArr (map JStr command))]
       @ (case run_stdin options of None \<Rightarrow> [] | Some c \<Rightarrow> [(js ''stdin'', JStr (base64 (content_bytes c)))])
       @ (case run_timeoutMs options of None \<Rightarrow> [] | Some n \<Rightarrow> [(js ''timeoutMs'', JNum n)]))"

definition finish_run ::
  "AgentEndpoint \<Rightarrow> jsstring list \<Rightarrow> RunOptions \<Rightarrow> byte list \<times> byte list \<times> AgentEvent option \<Rightarrow> CommandResult result" where
  "finish_run ep command options r =
     (case r of (out, err', exit) \<Rightarrow>
        (case Option.bind exit ae_exit of
           None \<Rightarrow> Inl (failure ep (runWhat command) (err [js ''the response ended without an exit status'']))
         | Some code \<Rightarrow>
             if ae_timedOut (the exit) then
               Inl (CommandTimeoutError (concat [js ''Command timed out after '',
                 (case run_timeoutMs options of None \<Rightarrow> js ''undefined'' | Some n \<Rightarrow> num_String n),
                 js ''ms in '', ep_where ep, js '': '', programOf command]))
             else Inr \<lparr>cr_stdout = buffer_text out, cr_stderr = buffer_text err', cr_exitCode = code\<rparr>))"

definition agent_run ::
  "platform \<Rightarrow> AgentEndpoint \<Rightarrow> jsstring list \<Rightarrow> RunOptions \<Rightarrow> ('a net_state_scheme, CommandResult) io" where
  "agent_run pf ep command options =
     bindIO
       (catchIO
         (bindIO (agent_exec pf ep (run_body command options)
             (map_option (\<lambda>n. num_add n (of_whole TIMEOUT_SLACK_MS)) (run_timeoutMs options))) (\<lambda>response.
          bindIO (liftR (bodyOf response)) (\<lambda>body.
            let (values, broken) = readNdjson (pf_syntax pf) body
            in liftR (run_events values broken [] [] None))))
         (\<lambda>cause. throwIO (failure ep (runWhat command) cause)))
       (\<lambda>r. liftR (finish_run ep command options r))"

fun stream_events ::
  "bool \<Rightarrow> (js_error \<Rightarrow> js_error) \<Rightarrow> json list \<Rightarrow> js_error option \<Rightarrow> byte list list \<times> js_error option" where
  "stream_events stopped fail' [] broken =
     ([], case broken of None \<Rightarrow> None | Some e \<Rightarrow> if stopped then None else Some (fail' e))"
| "stream_events stopped fail' (value # rest) broken =
     (case asEvent value of
        Inl e \<Rightarrow> ([], Some e)
      | Inr event \<Rightarrow>
          (case ae_error event of
             Some m \<Rightarrow> ([], Some (fail' (JsError m)))
           | None \<Rightarrow>
               (let (cs, e) = stream_events stopped fail' rest broken
                in (case ae_stdout event of None \<Rightarrow> cs | Some b \<Rightarrow> unbase64 b # cs, e))))"

definition agent_stream ::
  "platform \<Rightarrow> AgentEndpoint \<Rightarrow> bool \<Rightarrow> jsstring list \<Rightarrow> jsnum option \<Rightarrow> ('a net_state_scheme, body_stream) io" where
  "agent_stream pf ep stopped command ms =
     bindIO (catchIO (agent_exec pf ep (JObj [(js ''cmd'', JArr (map JStr command))]) ms)
         (\<lambda>cause. throwIO (failure ep (runWhat command) cause))) (\<lambda>response.
     bindIO (liftR (bodyOf response)) (\<lambda>body.
       let (values, broken) = readNdjson (pf_syntax pf) body;
           (cs, e) = stream_events stopped (failure ep (runWhat command)) values broken
       in returnIO \<lparr>chunks = cs, ending = e\<rparr>))"

subsection \<open>Files\<close>

definition agent_writeFile ::
  "platform \<Rightarrow> AgentEndpoint \<Rightarrow> jsstring \<Rightarrow> file_content \<Rightarrow> ('a net_state_scheme, unit) io" where
  "agent_writeFile pf ep path body =
     (let what = js ''write '' @ path in
      bindIO (liftR (filePath (js ''/files'') path)) (\<lambda>url.
      bindIO (agent_request pf ep what (js ''PUT'') url (RawPayload body) None) (\<lambda>response.
        or_refused ep what response (returnIO ()))))"

definition readRefused ::
  "AgentEndpoint \<Rightarrow> jsstring \<Rightarrow> response \<Rightarrow> ReadFileOutcome result" where
  "readRefused ep what response =
     bindR (refusalOf response) (\<lambda>refusal.
       if refusal_code refusal = Some (js ''not_found'') then Inr ReadNotFound
       else if refusal_code refusal = Some (js ''read_failed'') then Inr (ReadRefused (refusal_message refusal))
       else Inl (failure ep what (JsError (refusal_message refusal))))"

definition agent_readFile ::
  "platform \<Rightarrow> AgentEndpoint \<Rightarrow> jsstring \<Rightarrow> ('a net_state_scheme, ReadFileOutcome) io" where
  "agent_readFile pf ep path =
     (let what = js ''read '' @ path in
      bindIO (liftR (filePath (js ''/files'') path)) (\<lambda>url.
      bindIO (agent_request pf ep what (js ''GET'') url NoPayload None) (\<lambda>response.
        if rsp_ok response then liftR (bindR (response_bytes response) (\<lambda>bs. Inr (ReadOk bs)))
        else liftR (readRefused ep what response))))"

definition agent_readFileBounded ::
  "platform \<Rightarrow> AgentEndpoint \<Rightarrow> jsstring \<Rightarrow> ReadBudget \<Rightarrow> ('a net_state_scheme, ReadFileOutcome) io" where
  "agent_readFileBounded pf ep path budget =
     (let what = js ''read '' @ path in
      bindIO (liftR (filePath (js ''/files/bounded'') path)) (\<lambda>url.
      bindIO (agent_request pf ep what (js ''GET'')
          (url @ js ''&maxBytes='' @ num_String (budget_maxBytes budget)
             @ js ''&timeoutMs='' @ num_String (budget_timeoutMs budget))
          NoPayload (Some (boundedReadGiveUpMs (budget_timeoutMs budget)))) (\<lambda>response.
        if \<not> rsp_ok response then liftR (readRefused ep what response)
        else
          (case bindR (bodyOf response) (\<lambda>body. readAtMost body (budget_maxBytes budget)) of
             Inl cause \<Rightarrow> throwIO (failure ep what cause)
           | Inr None \<Rightarrow>
               returnIO (ReadRefused (concat [js ''the agent sent more than the budget of '',
                 num_String (budget_maxBytes budget), js '' bytes'']))
           | Inr (Some bs) \<Rightarrow> returnIO (ReadOk bs)))))"

definition agent_listFiles ::
  "platform \<Rightarrow> AgentEndpoint \<Rightarrow> jsstring \<Rightarrow> bool \<Rightarrow> ('a net_state_scheme, ListFilesOutcome) io" where
  "agent_listFiles pf ep path deep =
     (let what = js ''list '' @ path in
      bindIO (liftR (filePath (js ''/files/list'') path)) (\<lambda>url.
      bindIO (agent_request pf ep what (js ''GET'') (url @ (if deep then js ''&recursive=true'' else []))
          NoPayload None) (\<lambda>response.
        if \<not> rsp_ok response then
          bindIO (liftR (refusalOf response)) (\<lambda>refusal.
            if refusal_code refusal = Some (js ''not_a_directory'') then returnIO ListNotADirectory
            else if refusal_code refusal = Some (js ''not_found'') \<or> refusal_code refusal = Some (js ''list_failed'')
              then returnIO (ListRefused (refusal_message refusal))
            else throwIO (failure ep what (JsError (refusal_message refusal))))
        else
          bindIO (liftR (response_json pf response)) (\<lambda>v.
          bindIO (or_missing ep what (js ''the agent sent a listing with no entries'') (entriesOf v)) (\<lambda>entries.
            returnIO (ListOk entries))))))"

subsection \<open>Processes\<close>

definition agent_startProcess ::
  "platform \<Rightarrow> AgentEndpoint \<Rightarrow> jsstring list \<Rightarrow> jsstring option \<Rightarrow> ('a net_state_scheme, jsnum) io" where
  "agent_startProcess pf ep command cwd =
     (let what = js ''start '' @ programOf command in
      bindIO (agent_request pf ep what (js ''POST'') (js ''/process/start'')
          (JsonPayload (JObj ([(js ''cmd'', JArr (map JStr command))]
             @ (case cwd of None \<Rightarrow> [] | Some d \<Rightarrow> [(js ''cwd'', JStr d)])))) None) (\<lambda>response.
      or_refused ep what response
        (bindIO (liftR (response_json pf response)) (\<lambda>v.
           or_missing ep what (js ''the agent named no pid'') (pidOf v)))))"

definition agent_processStatus ::
  "platform \<Rightarrow> AgentEndpoint \<Rightarrow> jsnum \<Rightarrow> ('a net_state_scheme, ProcessStatus) io" where
  "agent_processStatus pf ep pid =
     (let what = js ''check process '' @ num_String pid in
      bindIO (agent_request pf ep what (js ''GET'') (js ''/process/status?pid='' @ num_String pid) NoPayload None)
        (\<lambda>response.
      or_refused ep what response
        (bindIO (liftR (response_json pf response)) (\<lambda>v.
           or_missing ep what (js ''the agent sent no status'') (statusOf v)))))"

definition agent_signalProcess ::
  "platform \<Rightarrow> AgentEndpoint \<Rightarrow> jsnum \<Rightarrow> jsstring \<Rightarrow> ('a net_state_scheme, unit) io" where
  "agent_signalProcess pf ep pid signal =
     (let what = js ''signal process '' @ num_String pid in
      bindIO (agent_request pf ep what (js ''POST'') (js ''/process/signal'')
          (JsonPayload (JObj [(js ''pid'', JNum pid), (js ''signal'', JStr signal)])) None) (\<lambda>response.
      or_refused ep what response (returnIO ())))"

definition agent_processLogs ::
  "platform \<Rightarrow> AgentEndpoint \<Rightarrow> jsnum \<Rightarrow> ('a net_state_scheme, jsstring) io" where
  "agent_processLogs pf ep pid =
     (let what = js ''read the log of process '' @ num_String pid in
      bindIO (agent_request pf ep what (js ''GET'') (js ''/process/logs?pid='' @ num_String pid) NoPayload None)
        (\<lambda>response. or_refused ep what response (liftR (response_text response))))"

definition probe_text :: "probe_mode \<Rightarrow> jsstring" where
  "probe_text m = (case m of Http \<Rightarrow> js ''http'' | Tcp \<Rightarrow> js ''tcp'')"

definition wait_body :: "int \<Rightarrow> jsnum \<Rightarrow> jsnum option \<Rightarrow> PortProbe option \<Rightarrow> json" where
  "wait_body port ms pid p =
     JObj ([(js ''port'', JNum (of_whole port)), (js ''timeoutMs'', JNum ms)]
       @ (case pid of None \<Rightarrow> [] | Some n \<Rightarrow> [(js ''pid'', JNum n)])
       @ (case Option.bind p probe_mode of None \<Rightarrow> [] | Some m \<Rightarrow> [(js ''mode'', JStr (probe_text m))])
       @ (case Option.bind p probe_path of None \<Rightarrow> [] | Some t \<Rightarrow> [(js ''path'', JStr t)]))"

definition agent_waitForPort ::
  "platform \<Rightarrow> AgentEndpoint \<Rightarrow> int \<Rightarrow> jsnum \<Rightarrow> jsnum option \<Rightarrow> PortProbe option
     \<Rightarrow> ('a net_state_scheme, PortWait) io" where
  "agent_waitForPort pf ep port ms pid p =
     (let what = js ''wait for port '' @ show_int port in
      bindIO (agent_request pf ep what (js ''POST'') (js ''/process/waitport'')
          (JsonPayload (wait_body port ms pid p)) (Some (num_add ms (of_whole TIMEOUT_SLACK_MS)))) (\<lambda>response.
      or_refused ep what response
        (bindIO (liftR (response_json pf response)) (\<lambda>v.
           or_missing ep what (js ''the agent sent no answer for the wait'') (portWaitOf v)))))"

subsection \<open>Polling ends\<close>

lemma probes_left:
  assumes "cs + 250 \<le> cu" and "cs < d"
  shows "Suc ((d - cu + 249) div 250) \<le> (d - cs + 249) div (250 :: nat)"
proof (cases "cs + 250 \<le> d")
  case True
  then have "d - cu + 249 \<le> (d - cs + 249) - 250" using assms by simp
  then have "(d - cu + 249) div 250 \<le> ((d - cs + 249) - 250) div 250" by (rule div_le_mono)
  also have "Suc \<dots> = (d - cs + 249) div 250" using True by (simp add: le_div_geq)
  finally show ?thesis by simp
next
  case False
  then have "d - cu = 0" using assms by simp
  moreover have "250 \<le> d - cs + 249" using assms by simp
  then have "1 \<le> (d - cs + 249) div 250" by (simp add: le_div_geq)
  ultimately show ?thesis by simp
qed

lemma ready_loop_bound:
  assumes "ready_loop pf ep ms deadline s = (r, t)"
  shows "length (log t) \<le> length (log s) + (deadline - clock s + 249) div 250 + 1
    \<and> (\<exists>n. log t = log s @ replicate (Suc n) (health_request ep))
    \<and> clock s \<le> clock t \<and> warnings t = warnings s \<and> net_state.more t = net_state.more s
    \<and> (r = Inr () \<or> deadline \<le> clock t)"
  using assms
proof (induction pf ep ms deadline s rule: ready_loop.induct)
  case (1 pf ep ms deadline s)
  obtain w u where p: "probed pf ep s = (w, u)" by fastforce
  note u = probed_state[OF p]
  show ?case
  proof (cases "w = None \<or> deadline \<le> clock u")
    case True
    then have "t = u" "r = Inr () \<or> deadline \<le> clock t"
      using 1(2) p by (auto simp: ready_loop.simps[of pf ep ms deadline s] split: option.splits)
    then show ?thesis using u by (auto intro!: exI[of _ 0])
  next
    case False
    then obtain why where w: "w = Some why" and late: "\<not> deadline \<le> clock u" by auto
    let ?v = "snd (sleep pf READY_POLL_MS u)"
    have "ready_loop pf ep ms deadline ?v = (r, t)"
      using 1(2) p w late by (simp add: ready_loop.simps[of pf ep ms deadline s])
    note IH = 1(1)[OF p[symmetric] w late this]
    have v: "log ?v = log s @ [health_request ep]" "clock s + 250 \<le> clock ?v"
      using u by (simp_all add: sleep_state READY_POLL_MS_def)
    have "clock s < deadline" using late u(2) by simp
    with v(2) have "Suc ((deadline - clock ?v + 249) div 250) \<le> (deadline - clock s + 249) div 250"
      by (rule probes_left)
    moreover obtain n where "log t = log s @ replicate (Suc (Suc n)) (health_request ep)"
      using IH v(1) by auto
    moreover have "warnings ?v = warnings s" "net_state.more ?v = net_state.more s"
      using u by (simp_all add: sleep_def io_eval)
    ultimately show ?thesis using IH v by (auto intro: exI[of _ "Suc n"])
  qed
qed

lemma agent_ready_loop:
  assumes "agent_ready pf ep ms s = (r, t)"
  shows "length (log t) \<le> length (log s) + (ms + 249) div 250 + 1"
    and "\<exists>n. log t = log s @ replicate (Suc n) (health_request ep)"
    and "r = Inr () \<or> clock s + ms \<le> clock t"
    and "clock s \<le> clock t" "warnings t = warnings s" "net_state.more t = net_state.more s"
  using ready_loop_bound[of pf ep ms "clock s + ms" s r t] assms by (auto simp: agent_ready_def)

text \<open>C31: Polling the agent always ends: whatever the platform answers and however late its timers fire, it
  makes between one probe and one more than a quarter-second fits into the timeout, all of the same
  harmless kind, without the token; when it gives up, at least the timeout has passed; and with a
  zero timeout it looks exactly once.\<close>

theorem agent_ready_bounded:
  "\<exists>n r t. agent_ready pf ep ms s = (r, t)
     \<and> log t = log s @ replicate (Suc n) (health_request ep) \<and> n \<le> (ms + 249) div 250
     \<and> req_headers (health_request ep) = []
     \<and> (case r of Inr _ \<Rightarrow> True | Inl e \<Rightarrow> clock s + ms \<le> clock t)"
proof -
  obtain r t where run: "agent_ready pf ep ms s = (r, t)" by fastforce
  note facts = agent_ready_loop[OF run]
  then show ?thesis using run by (cases r) (auto simp: health_request_def)
qed

subsection \<open>Whom the channel talks to\<close>

text \<open>A request to the agent: to the endpoint's address, and with its token unless it is a probe.\<close>

definition to_agent :: "AgentEndpoint \<Rightarrow> request \<Rightarrow> bool" where
  "to_agent ep req \<longleftrightarrow> startsWith (ep_url ep) (req_url req)
     \<and> (req_headers req = [] \<or> bearer ep \<in> set (req_headers req))
     \<and> (case req_body req of
          None \<Rightarrow> True
        | Some (JsonBody _) \<Rightarrow> True
        | Some (TextBody _) \<Rightarrow> True
        | Some (BytesBody _) \<Rightarrow> True
        | _ \<Rightarrow> False)"

lemma to_agent_requests [simp]:
  "to_agent ep (exec_request ep body signal)"
  "to_agent ep (plain_request ep meth path payload signal)"
  "to_agent ep (health_request ep)"
  by (simp_all add: to_agent_def exec_request_def plain_request_def health_request_def payload_body_def
      split: payload.split file_content.split)

lemma talks_agent_ready: "talks (to_agent ep) (agent_ready pf ep ms)"
proof (rule talksI)
  fix s t :: "'a net_state_scheme" and r assume run: "agent_ready pf ep ms s = (r, t)"
  from agent_ready_loop[OF run]
  show "\<exists>l. log t = log s @ l \<and> list_all (to_agent ep) l \<and> clock s \<le> clock t
     \<and> warnings t = warnings s \<and> net_state.more t = net_state.more s"
    by (auto simp: list_all_iff)
qed

lemma talks_agent_exec: "talks (to_agent ep) (agent_exec pf ep body signal)"
  unfolding agent_exec_def by (auto intro!: talks_bindIO talks_fetch)

lemma talks_agent_request: "talks (to_agent ep) (agent_request pf ep what meth path body signal)"
  unfolding agent_request_def by (auto intro!: talks_catchIO talks_fetch)

lemma talks_or_refused: "talks P go \<Longrightarrow> talks P (or_refused ep what response go)"
  unfolding or_refused_def by auto

lemma talks_or_missing [simp]: "talks P (or_missing ep what m found)"
  unfolding or_missing_def by (auto split: option.split)

lemmas agent_talks =
  talks_bindIO talks_catchIO talks_agent_exec talks_agent_request talks_or_refused

lemma talks_agent_commands:
  "talks (to_agent ep) (agent_run pf ep command options)"
  "talks (to_agent ep) (agent_stream pf ep stopped command ms)"
  unfolding agent_run_def agent_stream_def
  by (auto intro!: agent_talks split: prod.split)

lemma talks_agent_files:
  "talks (to_agent ep) (agent_writeFile pf ep path what)"
  "talks (to_agent ep) (agent_readFile pf ep path)"
  "talks (to_agent ep) (agent_readFileBounded pf ep path budget)"
  "talks (to_agent ep) (agent_listFiles pf ep path deep)"
  unfolding agent_writeFile_def agent_readFile_def agent_readFileBounded_def agent_listFiles_def Let_def
  by (auto intro!: agent_talks split: sum.split option.split)

lemma talks_agent_processes:
  "talks (to_agent ep) (agent_startProcess pf ep command cwd)"
  "talks (to_agent ep) (agent_processStatus pf ep pid)"
  "talks (to_agent ep) (agent_signalProcess pf ep pid signal)"
  "talks (to_agent ep) (agent_processLogs pf ep pid)"
  "talks (to_agent ep) (agent_waitForPort pf ep port wait opid p)"
  unfolding agent_startProcess_def agent_processStatus_def agent_signalProcess_def agent_processLogs_def
    agent_waitForPort_def Let_def
  by (auto intro!: agent_talks)

subsection \<open>The interface a sandbox relies on\<close>

text \<open>\<open>ControlChannel\<close>: the operations, and that each of them only sends requests of one kind and touches
  nothing a sandbox keeps.\<close>

locale control_channel =
  fixes allowed :: "request \<Rightarrow> bool"
    and ready :: "nat \<Rightarrow> ('a net_state_scheme, unit) io"
    and run :: "jsstring list \<Rightarrow> RunOptions \<Rightarrow> ('a net_state_scheme, CommandResult) io"
    and stream :: "bool \<Rightarrow> jsstring list \<Rightarrow> jsnum option \<Rightarrow> ('a net_state_scheme, body_stream) io"
    and writeFile :: "jsstring \<Rightarrow> file_content \<Rightarrow> ('a net_state_scheme, unit) io"
    and readFile :: "jsstring \<Rightarrow> ('a net_state_scheme, ReadFileOutcome) io"
    and readFileBounded :: "jsstring \<Rightarrow> ReadBudget \<Rightarrow> ('a net_state_scheme, ReadFileOutcome) io"
    and listFiles :: "jsstring \<Rightarrow> bool \<Rightarrow> ('a net_state_scheme, ListFilesOutcome) io"
    and startProcess :: "jsstring list \<Rightarrow> jsstring option \<Rightarrow> ('a net_state_scheme, jsnum) io"
    and processStatus :: "jsnum \<Rightarrow> ('a net_state_scheme, ProcessStatus) io"
    and signalProcess :: "jsnum \<Rightarrow> jsstring \<Rightarrow> ('a net_state_scheme, unit) io"
    and processLogs :: "jsnum \<Rightarrow> ('a net_state_scheme, jsstring) io"
    and waitForPort :: "int \<Rightarrow> jsnum \<Rightarrow> jsnum option \<Rightarrow> PortProbe option \<Rightarrow> ('a net_state_scheme, PortWait) io"
  assumes ready: "talks allowed (ready n)"
    and run: "talks allowed (run command options)"
    and stream: "talks allowed (stream stopped command ms)"
    and writeFile: "talks allowed (writeFile path what)"
    and readFile: "talks allowed (readFile path)"
    and readFileBounded: "talks allowed (readFileBounded path budget)"
    and listFiles: "talks allowed (listFiles path deep)"
    and startProcess: "talks allowed (startProcess command cwd)"
    and processStatus: "talks allowed (processStatus pid)"
    and signalProcess: "talks allowed (signalProcess pid signal)"
    and processLogs: "talks allowed (processLogs pid)"
    and waitForPort: "talks allowed (waitForPort port wait opid p)"
begin

lemmas talking =
  ready run stream writeFile readFile readFileBounded listFiles startProcess processStatus
  signalProcess processLogs waitForPort

text \<open>A session over the channel, whatever it does in whatever order, is confined in the same way.\<close>

lemma session:
  "talks allowed (bindIO (ready n) (\<lambda>_. bindIO (startProcess command cwd) (\<lambda>pid.
     bindIO (waitForPort port wait (Some pid) p) (\<lambda>_. processLogs pid))))"
  by (intro talks_bindIO talking)

lemma ready_confined: "ready n s = (r, t) \<Longrightarrow> net_state.more t = net_state.more s"
  using ready talks_more by blast

end

interpretation agent: control_channel "to_agent ep" "agent_ready pf ep" "agent_run pf ep" "agent_stream pf ep"
  "agent_writeFile pf ep" "agent_readFile pf ep" "agent_readFileBounded pf ep" "agent_listFiles pf ep"
  "agent_startProcess pf ep" "agent_processStatus pf ep" "agent_signalProcess pf ep" "agent_processLogs pf ep"
  "agent_waitForPort pf ep"
  by unfold_locales
    (rule talks_agent_ready talks_agent_commands talks_agent_files talks_agent_processes)+

subsection \<open>Running a command\<close>

text \<open>What the agent sends: pieces of the two outputs, and the exit status.\<close>

datatype output_piece = Out "byte list" | Err "byte list"

primrec piece_json :: "output_piece \<Rightarrow> json" where
  "piece_json (Out b) = JObj [(js ''stdout'', JStr (base64 b))]"
| "piece_json (Err b) = JObj [(js ''stderr'', JStr (base64 b))]"

definition exit_json :: "jsnum \<Rightarrow> bool \<Rightarrow> json" where
  "exit_json code late = JObj [(js ''exit'', JNum code), (js ''timedOut'', JBool late)]"

definition out_bytes :: "output_piece list \<Rightarrow> byte list" where
  "out_bytes ps = concat (map (\<lambda>p. case p of Out b \<Rightarrow> b | Err _ \<Rightarrow> []) ps)"

definition err_bytes :: "output_piece list \<Rightarrow> byte list" where
  "err_bytes ps = concat (map (\<lambda>p. case p of Out _ \<Rightarrow> [] | Err b \<Rightarrow> b) ps)"

lemma asEvent_piece:
  "asEvent (piece_json p) = Inr \<lparr>ae_stdout = (case p of Out b \<Rightarrow> Some (base64 b) | Err _ \<Rightarrow> None),
     ae_stderr = (case p of Out _ \<Rightarrow> None | Err b \<Rightarrow> Some (base64 b)), ae_exit = None, ae_timedOut = False,
     ae_error = None\<rparr>"
  by (cases p) (simp_all add: asEvent_def is_object_def str_at_def num_at_def is_true_def json_at_def)

lemma asEvent_exit:
  "asEvent (exit_json code late) = Inr \<lparr>ae_stdout = None, ae_stderr = None, ae_exit = Some code,
     ae_timedOut = late, ae_error = None\<rparr>"
  by (simp add: exit_json_def asEvent_def is_object_def str_at_def num_at_def is_true_def json_at_def)

lemma run_events_pieces:
  "run_events (map piece_json ps @ vs) broken out er ex = run_events vs broken (out @ out_bytes ps) (er @ err_bytes ps) ex"
  by (induction ps arbitrary: out er)
    (simp_all add: asEvent_piece out_bytes_def err_bytes_def split: output_piece.split)

lemma run_events_exit:
  "run_events (map piece_json ps @ [exit_json code late]) None [] [] None =
     Inr (out_bytes ps, err_bytes ps, Some \<lparr>ae_stdout = None, ae_stderr = None, ae_exit = Some code,
       ae_timedOut = late, ae_error = None\<rparr>)"
  by (simp add: run_events_pieces asEvent_exit Let_def)

text \<open>A command the agent ran, as the events of its response.\<close>

definition executed ::
  "platform \<Rightarrow> AgentEndpoint \<Rightarrow> jsstring list \<Rightarrow> RunOptions \<Rightarrow> 'a net_state_scheme \<Rightarrow> json list \<Rightarrow> js_error option
     \<Rightarrow> 'a net_state_scheme \<Rightarrow> bool" where
  "executed pf ep command options s values broken t \<longleftrightarrow>
     (\<exists>response body.
        agent_exec pf ep (run_body command options)
          (map_option (\<lambda>n. num_add n (of_whole TIMEOUT_SLACK_MS)) (run_timeoutMs options)) s = (Inr response, t)
        \<and> rsp_body response = Some body \<and> readNdjson (pf_syntax pf) body = (values, broken))"

lemma agent_run_executed:
  assumes "executed pf ep command options s values broken t"
  shows "agent_run pf ep command options s =
    (case run_events values broken [] [] None of
       Inl e \<Rightarrow> (Inl (failure ep (runWhat command) e), t)
     | Inr r \<Rightarrow> (finish_run ep command options r, t))"
  using assms
  by (auto simp: executed_def agent_run_def io_eval bodyOf_def split: sum.split)

text \<open>Note: A command's result is its output, byte for byte: however the agent interleaves and cuts the two
  streams, each arrives whole and in order, decoded as text only at the end, with the exit status the
  agent reported.\<close>

theorem agent_run_output:
  assumes "executed pf ep command options s (map piece_json ps @ [exit_json code False]) None t"
  shows "agent_run pf ep command options s =
    (Inr \<lparr>cr_stdout = buffer_text (out_bytes ps), cr_stderr = buffer_text (err_bytes ps), cr_exitCode = code\<rparr>, t)"
  unfolding agent_run_executed[OF assms] run_events_exit by (simp add: finish_run_def)

definition demo_endpoint :: AgentEndpoint where
  "demo_endpoint = \<lparr>ep_url = js ''http://pod'', ep_token = js ''tok'',
     ep_pod = \<lparr>clusterId = [], podName = js ''p'', podNamespace = js ''ns'', nodeName = None\<rparr>\<rparr>"

definition exit_text :: jsstring where
  "exit_text = jtext ''{`exit`:3,`timedOut`:false}''"

lemma exit_line: "JSON_parse exit_text = Some (exit_json (of_whole 3) False)"
  unfolding exit_json_def by code_simp

lemma exit_text_read:
  "readNdjson syn \<lparr>chunks = [utf8_bytes exit_text], ending = None\<rparr> = ([exit_json (of_whole 3) False], None)"
  using readNdjson_jtext[OF _ exit_line[unfolded exit_text_def]]
  by (simp add: exit_text_def jtext_def js_def is_space_def)

lemma executed_answering:
  assumes "readNdjson (\<lambda>_. js ''bad JSON'') \<lparr>chunks = [utf8_bytes body], ending = None\<rparr> = (vs, broken)"
  shows "\<exists>t. executed (answering body) ep command options s vs broken t"
  using assms
  by (auto simp: executed_def agent_exec_def answering_def quiet_platform_def fetch_def io_eval rsp_ok_def)

lemma agent_run_output_witness:
  "\<exists>t. agent_run (answering exit_text) demo_endpoint [js ''sh''] \<lparr>run_stdin = None, run_timeoutMs = None\<rparr> demo_state =
     (Inr \<lparr>cr_stdout = [], cr_stderr = [], cr_exitCode = of_whole 3\<rparr>, t)"
proof -
  obtain t where "executed (answering exit_text) demo_endpoint [js ''sh''] \<lparr>run_stdin = None, run_timeoutMs = None\<rparr>
      demo_state (map piece_json [] @ [exit_json (of_whole 3) False]) None t"
    using executed_answering[OF exit_text_read, where s = demo_state and ep = demo_endpoint
        and command = "[js ''sh'']" and options = "\<lparr>run_stdin = None, run_timeoutMs = None\<rparr>"] by auto
  from agent_run_output[OF this] show ?thesis
    by (auto simp: out_bytes_def err_bytes_def buffer_text_def utf8_points_def utf8_flush_def)
qed

lemma run_events_exit_from:
  "run_events vs broken out er ex = Inr (o', e', ex') \<Longrightarrow>
     broken = None \<and> (ex' = ex \<or> (\<exists>v \<in> set vs. \<exists>ev. asEvent v = Inr ev \<and> ex' = Some ev \<and> ae_exit ev \<noteq> None))"
proof (induction vs arbitrary: out er ex)
  case (Cons v rest)
  then obtain ev o1 e1 where ev: "asEvent v = Inr ev"
    and rest: "run_events rest broken o1 e1 (if ae_exit ev \<noteq> None then Some ev else ex) = Inr (o', e', ex')"
    by (auto simp: bindR_eq_Inr Let_def split: option.splits)
  from Cons.IH[OF rest] ev show ?case by (auto split: if_splits)
qed (auto split: option.splits)

text \<open>C32: A command counts as finished only with the agent's word for it: a result means the response came to its
  proper end and carried an exit status, that status, and no word of a timeout with it; a response
  that broke off or said nothing is an error.\<close>

theorem agent_run_sound:
  assumes "agent_run pf ep command options s = (Inr result, t)"
  shows "\<exists>values. executed pf ep command options s values None t
    \<and> (\<exists>v \<in> set values. num_at v (js ''exit'') = Some (cr_exitCode result) \<and> \<not> is_true v (js ''timedOut''))"
proof -
  from assms obtain response body vs broken r where ex:
    "agent_exec pf ep (run_body command options)
       (map_option (\<lambda>n. num_add n (of_whole TIMEOUT_SLACK_MS)) (run_timeoutMs options)) s = (Inr response, t)"
    "rsp_body response = Some body" "readNdjson (pf_syntax pf) body = (vs, broken)"
    and events: "run_events vs broken [] [] None = Inr r" and fin: "finish_run ep command options r = Inr result"
    unfolding agent_run_def
    by (auto elim!: bindIO_eqE catchIO_eqE simp: io_run bodyOf_def split: option.splits prod.splits)
  obtain out er exit where r: "r = (out, er, exit)" by (cases r)
  from fin obtain ev where exit: "exit = Some ev" "ae_exit ev = Some (cr_exitCode result)" "\<not> ae_timedOut ev"
    by (auto simp: finish_run_def r split: option.splits if_splits bind_splits)
  from run_events_exit_from[OF events[unfolded r]] exit
  obtain v where "broken = None" "v \<in> set vs" "asEvent v = Inr ev" by auto
  then show ?thesis
    using ex exit by (auto simp: executed_def asEvent_def split: if_splits)
qed

lemma agent_run_sound_witness:
  "\<exists>result t values. agent_run (answering exit_text) demo_endpoint [js ''sh'']
       \<lparr>run_stdin = None, run_timeoutMs = None\<rparr> demo_state = (Inr result, t)
     \<and> executed (answering exit_text) demo_endpoint [js ''sh''] \<lparr>run_stdin = None, run_timeoutMs = None\<rparr>
         demo_state values None t"
proof -
  obtain t where "executed (answering exit_text) demo_endpoint [js ''sh''] \<lparr>run_stdin = None, run_timeoutMs = None\<rparr>
      demo_state [exit_json (of_whole 3) False] None t"
    using executed_answering[OF exit_text_read, where s = demo_state and ep = demo_endpoint
        and command = "[js ''sh'']" and options = "\<lparr>run_stdin = None, run_timeoutMs = None\<rparr>"] by auto
  from agent_run_executed[OF this] have "\<exists>result. agent_run (answering exit_text) demo_endpoint [js ''sh'']
      \<lparr>run_stdin = None, run_timeoutMs = None\<rparr> demo_state = (Inr result, t)"
    using run_events_exit[of "[]"] by (simp add: finish_run_def)
  then show ?thesis using agent_run_sound by blast
qed

end
