(* ===== verification/Shell.thy ===== *)
theory Shell
  imports Json
begin

section \<open>Shell commands (\<open>src/shell.ts\<close>)\<close>

text \<open>
  The commands the adapter builds for \<open>sh -lc\<close>: quoting, the \<open>export\<close> prefix that replays the
  environment, the \<open>git clone\<close>, the stray-process report and its reader.  Beside them stands a
  reference reading of the shell fragment they use: \<open>sh_words\<close> splits a simple command into its
  words and gives up on anything that is not a plain or quoted character, and \<open>sh_prefix\<close> runs the
  leading \<open>export\<close> statements of a script.  The lemmas show that the shell sees exactly the
  values the adapter was given.
\<close>

subsection \<open>The source\<close>

text \<open>The replacement is the quote, a backslash, and two quotes.\<close>

definition shellQuote :: "jsstring \<Rightarrow> jsstring" where
  "shellQuote value = [39] @ replaceAll [39] [39, 92, 39, 39] value @ [39]"

definition env_name_regex :: regex where
  "env_name_regex =
     Seq (One_of [(65, 90), (97, 122), (95, 95)])
         (Star (One_of [(65, 90), (97, 122), (48, 57), (95, 95)]))"

definition assertEnvName :: "jsstring \<Rightarrow> jsstring result" where
  "assertEnvName name =
     (if \<not> regex_test env_name_regex name
      then Inl (JsError (js ''Invalid environment variable name: '' @ quote_string name))
      else Inr name)"

definition forced_export :: "jsstring \<times> jsstring \<Rightarrow> jsstring result" where
  "forced_export kv =
     (let (key, value) = kv in
      bindR (assertEnvName key) (\<lambda>name.
        Inr (js ''export '' @ name @ js ''='' @ shellQuote value @ js ''; '')))"

definition guarded_export :: "jsstring \<times> jsstring \<Rightarrow> jsstring result" where
  "guarded_export kv =
     (let (key, value) = kv in
      bindR (assertEnvName key) (\<lambda>name.
        Inr (js ''[ -n '' @ [34] @ js ''${'' @ name @ js '':-}'' @ [34] @ js '' ] || export '' @ key
          @ js ''='' @ shellQuote value @ js ''; '')))"

definition withEnvPrefix :: "jsstring \<Rightarrow> jsstring obj \<Rightarrow> jsstring obj \<Rightarrow> jsstring result" where
  "withEnvPrefix cmd env defaults =
     bindR (mapR forced_export env) (\<lambda>forced.
     bindR (mapR guarded_export defaults) (\<lambda>guarded.
       Inr (join [] forced @ join [] guarded @ cmd)))"

record git_options =
  git_branch :: "jsstring option"
  git_targetDir :: "jsstring option"

definition gitCloneCommand :: "jsstring \<Rightarrow> git_options option \<Rightarrow> jsstring" where
  "gitCloneCommand repo options =
     (let branch = Option.bind options git_branch;
          target = (case Option.bind options git_targetDir of Some t \<Rightarrow> t | None \<Rightarrow> js ''.'')
      in join (js '' '')
        ([js ''git'', js ''clone'']
         @ (case branch of Some b \<Rightarrow> [js ''--branch'', shellQuote b] | None \<Rightarrow> [])
         @ [shellQuote repo, shellQuote target]))"

definition strayProcessCommand :: jsstring where
  "strayProcessCommand = concat
     [js ''self=$$; for dir in /proc/[0-9]*; do pid=${dir#/proc/}; '',
      js ''[ '', [34], js ''$pid'', [34], js '' = 1 ] && continue; [ '', [34], js ''$pid'', [34], js '' = '',
      [34], js ''$self'', [34], js '' ] && continue; '',
      js ''rest=$(sed '', [39], js ''s/^.*) //'', [39], js '' $dir/stat 2>/dev/null) || continue; '',
      js ''set -- $rest; [ '', [34], js ''$2'', [34], js '' = '', [34], js ''$self'', [34], js '' ] && continue; '',
      js ''cmd=$(tr '', [39, 92], js ''0'', [39], js '' '', [39], js '' '', [39], js '' < $dir/cmdline 2>/dev/null); '',
      js ''printf '', [39], js ''%s'', [92], js ''t%s'', [92], js ''t%s'', [92], js ''0'', [39, 32],
      [34], js ''$pid'', [34], js '' '', [34], js ''$1'', [34], js '' '', [34], js ''$cmd'', [34], js ''; done'']"

record stray_process =
  stray_pid :: jsstring
  stray_state :: jsstring
  stray_command :: jsstring

fun parse_records :: "jsstring list \<Rightarrow> stray_process list" where
  "parse_records [] = []"
| "parse_records (record # rest) =
     (if record = [] then parse_records rest
      else
        (case splitOn 9 record of
           [] \<Rightarrow> parse_records rest
         | pid # columns \<Rightarrow>
             if pid = [] then parse_records rest
             else \<lparr>stray_pid = pid,
                   stray_state = (case columns of [] \<Rightarrow> [] | state # _ \<Rightarrow> state),
                   stray_command = trim (join [9] (drop 1 columns))\<rparr> # parse_records rest))"

definition parseStrayProcesses :: "jsstring \<Rightarrow> stray_process list" where
  "parseStrayProcesses stdout = parse_records (splitOn 0 stdout)"

subsection \<open>The reference reading of a simple command\<close>

text \<open>
  Outside quotes a blank ends a word, a backslash takes the next character as it is, and every
  other character with a meaning to the shell makes the command something else than a list of
  words, so the reading fails.  Inside single quotes nothing but the closing quote is special.
\<close>

definition sh_special :: "nat \<Rightarrow> bool" where
  "sh_special c \<longleftrightarrow> c \<in> set (js ''|&;<>()$`*?[]#~%!{}'') \<or> c = 34 \<or> c = 10"

definition sh_blank :: "nat \<Rightarrow> bool" where
  "sh_blank c \<longleftrightarrow> c = 32 \<or> c = 9"

fun sh_plain :: "jsstring option \<Rightarrow> jsstring \<Rightarrow> jsstring list option"
  and sh_quoted :: "jsstring \<Rightarrow> jsstring \<Rightarrow> jsstring list option" where
  "sh_plain w [] = Some (case w of None \<Rightarrow> [] | Some t \<Rightarrow> [t])"
| "sh_plain w (c # s) =
     (let t = (case w of None \<Rightarrow> [] | Some t \<Rightarrow> t) in
      if c = 39 then sh_quoted t s
      else if c = 92 then (case s of [] \<Rightarrow> None | d # s' \<Rightarrow> sh_plain (Some (t @ [d])) s')
      else if sh_blank c then
        (case w of None \<Rightarrow> sh_plain None s | Some t \<Rightarrow> map_option ((#) t) (sh_plain None s))
      else if sh_special c then None
      else sh_plain (Some (t @ [c])) s)"
| "sh_quoted t [] = None"
| "sh_quoted t (c # s) = (if c = 39 then sh_plain (Some t) s else sh_quoted (t @ [c]) s)"

definition sh_words :: "jsstring \<Rightarrow> jsstring list option" where
  "sh_words s = sh_plain None s"

lemma sh_quoted_body:
  "sh_quoted t (replaceAll [39] [39, 92, 39, 39] v @ 39 # s) = sh_plain (Some (t @ v)) s"
  by (induction v arbitrary: t) (auto simp: replaceAll_char)

lemma sh_plain_quote:
  "sh_plain w (shellQuote v @ s) =
     sh_plain (Some ((case w of None \<Rightarrow> [] | Some t \<Rightarrow> t) @ v)) s"
  by (simp add: shellQuote_def sh_quoted_body Let_def)

lemma sh_plain_ordinary:
  assumes "\<forall>c \<in> set x. c \<noteq> 39 \<and> c \<noteq> 92 \<and> \<not> sh_blank c \<and> \<not> sh_special c"
  shows "sh_plain (Some t) (x @ s) = sh_plain (Some (t @ x)) s"
  using assms by (induction x arbitrary: t) (auto simp: Let_def)

lemma sh_plain_first:
  assumes "\<forall>c \<in> set x. c \<noteq> 39 \<and> c \<noteq> 92 \<and> \<not> sh_blank c \<and> \<not> sh_special c" and "x \<noteq> []"
  shows "sh_plain None (x @ 32 # s) = map_option ((#) x) (sh_plain None s)"
proof -
  obtain c y where x: "x = c # y" using assms(2) by (cases x) auto
  then have "sh_plain None (x @ 32 # s) = sh_plain (Some [c]) (y @ 32 # s)"
    using assms by (simp add: Let_def)
  also have "\<dots> = sh_plain (Some x) (32 # s)"
    using assms x by (subst sh_plain_ordinary) auto
  finally show ?thesis by (simp add: sh_blank_def Let_def)
qed

lemma sh_plain_word: "sh_plain None (shellQuote v @ 32 # s) = map_option ((#) v) (sh_plain None s)"
  by (simp add: sh_plain_quote sh_blank_def Let_def)

lemma sh_plain_last: "sh_plain None (shellQuote v) = Some [v]"
  using sh_plain_quote[of None v "[]"] by simp

lemma js_ordinary:
  "list_all (\<lambda>c. c \<noteq> 39 \<and> c \<noteq> 92 \<and> \<not> sh_blank c \<and> \<not> sh_special c) (js ''git'')"
  "list_all (\<lambda>c. c \<noteq> 39 \<and> c \<noteq> 92 \<and> \<not> sh_blank c \<and> \<not> sh_special c) (js ''clone'')"
  "list_all (\<lambda>c. c \<noteq> 39 \<and> c \<noteq> 92 \<and> \<not> sh_blank c \<and> \<not> sh_special c) (js ''--branch'')"
  by (simp_all add: js_def sh_blank_def sh_special_def)

lemmas git_words = js_ordinary[unfolded list_all_iff, THEN sh_plain_first, simplified]

subsection \<open>The reference reading of the exports\<close>

text \<open>
  The value of an assignment is one word that ends at a semicolon.  An \<open>export\<close> statement sets its
  variable; a guarded one sets it only where the variable is unset or empty.  \<open>sh_prefix\<close> runs
  the leading statements of these two forms and returns the variables and what is left to run.
\<close>

fun sv_plain :: "jsstring \<Rightarrow> jsstring \<Rightarrow> (jsstring \<times> jsstring) option"
  and sv_quoted :: "jsstring \<Rightarrow> jsstring \<Rightarrow> (jsstring \<times> jsstring) option" where
  "sv_plain t [] = None"
| "sv_plain t (c # s) =
     (if c = 39 then sv_quoted t s
      else if c = 92 then (case s of [] \<Rightarrow> None | d # s' \<Rightarrow> sv_plain (t @ [d]) s')
      else if c = 59 then Some (t, s)
      else if sh_blank c \<or> sh_special c then None
      else sv_plain (t @ [c]) s)"
| "sv_quoted t [] = None"
| "sv_quoted t (c # s) = (if c = 39 then sv_plain t s else sv_quoted (t @ [c]) s)"

definition name_unit :: "nat \<Rightarrow> bool" where
  "name_unit c \<longleftrightarrow> in_class [(65, 90), (97, 122), (48, 57), (95, 95)] c"

definition sh_assign :: "jsstring \<Rightarrow> (jsstring \<times> jsstring \<times> jsstring) option" where
  "sh_assign s =
     (let name = takeWhile name_unit s; r = dropWhile name_unit s in
      if name \<noteq> [] \<and> startsWith (js ''='') r then
        (case sv_plain [] (drop 1 r) of
           Some (v, t) \<Rightarrow> if startsWith (js '' '') t then Some (name, v, drop 1 t) else None
         | None \<Rightarrow> None)
      else None)"

type_synonym sh_env = "jsstring \<Rightarrow> jsstring option"

definition sh_nonempty :: "sh_env \<Rightarrow> jsstring \<Rightarrow> bool" where
  "sh_nonempty E k = (case E k of None \<Rightarrow> False | Some v \<Rightarrow> v \<noteq> [])"

definition sh_default :: "jsstring \<times> jsstring \<Rightarrow> sh_env \<Rightarrow> sh_env" where
  "sh_default kv E = (if sh_nonempty E (fst kv) then E else E(fst kv \<mapsto> snd kv))"

definition sh_force :: "jsstring \<times> jsstring \<Rightarrow> sh_env \<Rightarrow> sh_env" where
  "sh_force kv E = E(fst kv \<mapsto> snd kv)"

definition guard_open :: jsstring where "guard_open = js ''[ -n '' @ [34] @ js ''${''"
definition guard_close :: jsstring where "guard_close = js '':-}'' @ [34] @ js '' ] || export ''"

definition sh_statement :: "sh_env \<Rightarrow> jsstring \<Rightarrow> (sh_env \<times> jsstring) option" where
  "sh_statement E s =
     (if startsWith (js ''export '') s then
        map_option (\<lambda>(k, v, r). (sh_force (k, v) E, r)) (sh_assign (drop 7 s))
      else if startsWith guard_open s then
        (let name = takeWhile name_unit (drop (length guard_open) s); r = dropWhile name_unit (drop (length guard_open) s) in
         if startsWith guard_close r then
           (case sh_assign (drop (length guard_close) r) of
              Some (k, v, t) \<Rightarrow> Some (if sh_nonempty E name then E else sh_force (k, v) E, t)
            | None \<Rightarrow> None)
         else None)
      else None)"

lemma sv_shorter:
  "sv_plain t s = Some (v, r) \<Longrightarrow> length r < length s"
  "sv_quoted t s = Some (v, r) \<Longrightarrow> length r < length s"
proof (induction t s and t s arbitrary: v r and v r rule: sv_plain_sv_quoted.induct)
  case (2 t c s)
  then show ?case by (fastforce split: if_splits list.splits)
next
  case (4 t c s)
  then show ?case by (fastforce split: if_splits)
qed auto

lemma sh_assign_shorter: "sh_assign s = Some (k, v, r) \<Longrightarrow> length r < length s"
  using sv_shorter(1) length_dropWhile_le[of name_unit s]
  by (fastforce simp: sh_assign_def Let_def split: if_splits option.splits prod.splits)

lemma sh_statement_shorter: "sh_statement E s = Some (E', r) \<Longrightarrow> length r < length s"
proof -
  have "length (dropWhile name_unit (drop (length guard_open) s)) \<le> length s"
    using length_dropWhile_le[of name_unit "drop (length guard_open) s"] by simp
  then show "sh_statement E s = Some (E', r) \<Longrightarrow> length r < length s"
    using sh_assign_shorter
    by (fastforce simp: sh_statement_def Let_def split: if_splits option.splits)
qed

function sh_prefix :: "sh_env \<Rightarrow> jsstring \<Rightarrow> sh_env \<times> jsstring" where
  "sh_prefix E s = (case sh_statement E s of None \<Rightarrow> (E, s) | Some (E', r) \<Rightarrow> sh_prefix E' r)"
  by pat_completeness auto
termination
  by (relation "measure (\<lambda>(E, s). length s)") (auto dest: sh_statement_shorter)

declare sh_prefix.simps [simp del]

subsection \<open>Names\<close>

lemma env_name_regex_iff:
  "regex_test env_name_regex name \<longleftrightarrow>
     name \<noteq> [] \<and> \<not> is_digit (hd name) \<and> (\<forall>c \<in> set name. name_unit c)"
proof -
  have "regex_test env_name_regex name \<longleftrightarrow>
      (\<exists>c t. name = c # t \<and> in_class [(65, 90), (97, 122), (95, 95)] c \<and> (\<forall>d \<in> set t. name_unit d))"
    by (auto simp: regex_test_iff env_name_regex_def lang_Star_class name_unit_def
        simp del: lang.simps(5)) (metis append_Cons append_Nil)
  then show ?thesis
    by (cases name) (auto simp: in_class_def name_unit_def is_digit_def)
qed

definition valid_env_name :: "jsstring \<Rightarrow> bool" where
  "valid_env_name name \<longleftrightarrow> name \<noteq> [] \<and> \<not> is_digit (hd name) \<and> list_all name_unit name"

lemma assertEnvName_Inr: "assertEnvName name = Inr n \<longleftrightarrow>
    n = name \<and> name \<noteq> [] \<and> \<not> is_digit (hd name) \<and> (\<forall>c \<in> set name. name_unit c)"
  by (auto simp: assertEnvName_def env_name_regex_iff)

lemma take_name:
  assumes "\<forall>c \<in> set name. name_unit c" and "\<not> name_unit d"
  shows "takeWhile name_unit (name @ d # s) = name" and "dropWhile name_unit (name @ d # s) = d # s"
  using assms by (simp_all add: takeWhile_append2 dropWhile_append2)

subsection \<open>What the shell makes of the prefix\<close>

lemma sv_quoted_body:
  "sv_quoted t (replaceAll [39] [39, 92, 39, 39] v @ 39 # s) = sv_plain (t @ v) s"
  by (induction v arbitrary: t) (auto simp: replaceAll_char)

lemma sv_plain_quote: "sv_plain t (shellQuote v @ 59 # s) = Some (t @ v, s)"
  by (simp add: shellQuote_def sv_quoted_body)

lemma sh_assign_quote:
  assumes "assertEnvName k = Inr n"
  shows "sh_assign (k @ js ''='' @ shellQuote v @ js ''; '' @ s) = Some (k, v, s)"
proof -
  have k: "k \<noteq> []" "\<forall>c \<in> set k. name_unit c" using assms by (simp_all add: assertEnvName_Inr)
  have "\<not> name_unit 61" by (simp add: name_unit_def in_class_def)
  note tk = take_name[OF k(2) this]
  show ?thesis
    using k(1) by (simp add: sh_assign_def js_def tk sv_plain_quote startsWith_def)
qed

lemma sh_statement_forced:
  "forced_export kv = Inr t \<Longrightarrow> sh_statement E (t @ s) = Some (sh_force kv E, s)"
proof -
  assume "forced_export kv = Inr t"
  then obtain n where n: "assertEnvName (fst kv) = Inr n"
    and t: "t = js ''export '' @ fst kv @ js ''='' @ shellQuote (snd kv) @ js ''; ''"
    by (auto simp: forced_export_def case_prod_beta Let_def assertEnvName_Inr bindR_eq_Inr)
  have "drop 7 (js ''export '' @ x) = x" for x by (simp add: js_def)
  with t sh_assign_quote[OF n] show ?thesis
    by (simp add: sh_statement_def)
qed

lemma sh_statement_guarded:
  "guarded_export kv = Inr t \<Longrightarrow> sh_statement E (t @ s) = Some (sh_default kv E, s)"
proof -
  assume "guarded_export kv = Inr t"
  then obtain n where n: "assertEnvName (fst kv) = Inr n"
    and t: "t = guard_open @ fst kv @ guard_close @ fst kv @ js ''='' @ shellQuote (snd kv) @ js ''; ''"
    by (auto simp: guarded_export_def case_prod_beta Let_def assertEnvName_Inr bindR_eq_Inr
        guard_open_def guard_close_def)
  have k: "\<forall>c \<in> set (fst kv). name_unit c" using n by (simp add: assertEnvName_Inr)
  obtain x where c: "guard_close = 58 # x" "\<not> name_unit 58"
    by (simp add: guard_close_def js_def name_unit_def in_class_def)
  have tk: "takeWhile name_unit (fst kv @ guard_close @ y) = fst kv"
    "dropWhile name_unit (fst kv @ guard_close @ y) = guard_close @ y" for y
    by (simp_all add: c(1) take_name[OF k c(2)])
  have "\<not> startsWith (js ''export '') (guard_open @ x)" for x
    by (simp add: guard_open_def js_def startsWith_def)
  with t tk sh_assign_quote[OF n] show ?thesis
    by (simp add: sh_statement_def sh_default_def sh_force_def Let_def)
qed

lemma sh_prefix_step: "sh_statement E s = Some (E', r) \<Longrightarrow> sh_prefix E s = sh_prefix E' r"
  by (simp add: sh_prefix.simps[of E s])

lemma sh_prefix_forced:
  "mapR forced_export env = Inr ts \<Longrightarrow> sh_prefix E (concat ts @ s) = sh_prefix (fold sh_force env E) s"
  by (induction env arbitrary: ts E) (auto simp: bindR_eq_Inr sh_prefix_step[OF sh_statement_forced])

lemma sh_prefix_guarded:
  "mapR guarded_export env = Inr ts \<Longrightarrow> sh_prefix E (concat ts @ s) = sh_prefix (fold sh_default env E) s"
  by (induction env arbitrary: ts E) (auto simp: bindR_eq_Inr sh_prefix_step[OF sh_statement_guarded])

text \<open>What a sequence of exports leaves in a variable.\<close>

lemma fold_force: "obj_wf env \<Longrightarrow>
    fold sh_force env E k = (case obj_get env k of Some v \<Rightarrow> Some v | None \<Rightarrow> E k)"
proof (induction env arbitrary: E)
  case (Cons p env)
  then show ?case
    by (cases p) (auto simp: obj_wf_Cons sh_force_def split: option.splits)
qed simp

lemma sh_default_apply:
  "sh_default (i, x) E k = (if i = k \<and> \<not> sh_nonempty E k then Some x else E k)"
  by (simp add: sh_default_def)

lemma sh_nonempty_default: "i \<noteq> k \<Longrightarrow> sh_nonempty (sh_default (i, x) E) k = sh_nonempty E k"
  by (simp add: sh_nonempty_def sh_default_apply)

lemma fold_default: "obj_wf env \<Longrightarrow>
    fold sh_default env E k =
      (case obj_get env k of Some v \<Rightarrow> if sh_nonempty E k then E k else Some v | None \<Rightarrow> E k)"
proof (induction env arbitrary: E)
  case (Cons p env)
  obtain i x where p: "p = (i, x)" by fastforce
  with Cons show ?case
    by (cases "i = k")
      (auto simp: obj_wf_Cons sh_default_apply sh_nonempty_default split: option.splits)
qed simp

definition env_after :: "jsstring obj \<Rightarrow> jsstring obj \<Rightarrow> sh_env \<Rightarrow> sh_env" where
  "env_after env defaults E = fold sh_default defaults (fold sh_force env E)"

lemma withEnvPrefix_Inr:
  "withEnvPrefix cmd env defaults = Inr s \<longleftrightarrow>
     (\<exists>fs gs. mapR forced_export env = Inr fs \<and> mapR guarded_export defaults = Inr gs
        \<and> s = concat fs @ concat gs @ cmd)"
  by (auto simp: withEnvPrefix_def bindR_eq_Inr)

lemma env_after_get:
  assumes "obj_wf env" and "obj_wf defaults"
  shows "env_after env defaults E k =
    (case obj_get env k of
       Some v \<Rightarrow> if v \<noteq> [] then Some v else (case obj_get defaults k of Some d \<Rightarrow> Some d | None \<Rightarrow> Some [])
     | None \<Rightarrow>
         (case obj_get defaults k of Some d \<Rightarrow> if sh_nonempty E k then E k else Some d | None \<Rightarrow> E k))"
  using assms
  by (auto simp: env_after_def fold_default fold_force sh_nonempty_def split: option.splits)

lemma prefix_runs: "withEnvPrefix cmd env defaults = Inr s \<Longrightarrow> sh_prefix E s = sh_prefix (env_after env defaults E) cmd"
  by (auto simp: withEnvPrefix_Inr env_after_def sh_prefix_forced sh_prefix_guarded)

lemma mapR_fails: "(\<exists>x \<in> set xs. fails (f x)) \<longleftrightarrow> fails (mapR f xs)"
proof (induction xs)
  case (Cons x xs)
  then show ?case by (cases "f x"; cases "mapR f xs") auto
qed simp

lemma export_fails:
  "fails (forced_export kv) \<longleftrightarrow> fails (assertEnvName (fst kv))"
  "fails (guarded_export kv) \<longleftrightarrow> fails (assertEnvName (fst kv))"
  by (auto simp: forced_export_def guarded_export_def case_prod_beta fails_def bindR_def
      split: sum.splits)

lemma withEnvPrefix_valid:
  assumes "list_all valid_env_name (obj_keys env)" and "list_all valid_env_name (obj_keys defaults)"
  shows "\<not> fails (withEnvPrefix cmd env defaults)"
proof -
  have "\<not> fails (mapR forced_export env)" "\<not> fails (mapR guarded_export defaults)"
    using assms unfolding mapR_fails[symmetric]
    by (auto simp: export_fails obj_keys_def list_all_iff valid_env_name_def not_fails_iff assertEnvName_Inr)
  then show ?thesis by (auto simp: withEnvPrefix_def not_fails_iff)
qed

subsection \<open>The stray-process report\<close>

text \<open>One record as the command prints it: pid, state and command line, ended by a NUL.\<close>

definition stray_record :: "stray_process \<Rightarrow> jsstring" where
  "stray_record p = stray_pid p @ [9] @ stray_state p @ [9] @ stray_command p @ [0]"

definition printable_stray :: "stray_process \<Rightarrow> bool" where
  "printable_stray p \<longleftrightarrow> stray_pid p \<noteq> [] \<and> 0 \<notin> set (stray_pid p @ stray_state p @ stray_command p)
     \<and> 9 \<notin> set (stray_pid p @ stray_state p)"

lemma parse_one_record:
  assumes "printable_stray p"
  shows "parse_records ((stray_pid p @ 9 # stray_state p @ 9 # stray_command p) # rest) =
    p\<lparr>stray_command := trim (stray_command p)\<rparr> # parse_records rest"
proof -
  have "9 \<notin> set (stray_pid p)" "9 \<notin> set (stray_state p)" "stray_pid p \<noteq> []"
    using assms by (simp_all add: printable_stray_def)
  then show ?thesis by (simp add: splitOn_append join_splitOn)
qed

subsection \<open>Properties\<close>

text \<open>C34: A quoted value is one word to the shell, and that word is the value, whatever
  characters it holds: \<open>shellQuote\<close> lets nothing out.\<close>

theorem shellQuote_word: "sh_words (shellQuote v) = Some [v]"
  by (simp add: sh_words_def sh_plain_last)

text \<open>Note: The clone command runs \<open>git clone\<close> with the branch (when one is given), the repository
  and the target (the working directory by default) as single arguments, whatever they hold.\<close>

theorem gitCloneCommand_words:
  "sh_words (gitCloneCommand repo options) =
     Some ([js ''git'', js ''clone'']
       @ (case Option.bind options git_branch of Some b \<Rightarrow> [js ''--branch'', b] | None \<Rightarrow> [])
       @ [repo, case Option.bind options git_targetDir of Some t \<Rightarrow> t | None \<Rightarrow> js ''.''])"
proof -
  have space: "js '' '' = [32]" by (simp add: js_def)
  show ?thesis
    by (simp add: sh_words_def gitCloneCommand_def Let_def space git_words sh_plain_word sh_plain_last
        split: option.split)
qed

text \<open>C35: Running the prefix leaves the command to run in an environment where a forced variable has
  its value, and a default holds only where the variable was unset or empty.  A forced value that
  is the empty string counts as unset to the guard that follows it, so the default of the same
  name wins over it.\<close>

theorem withEnvPrefix_runs:
  assumes "withEnvPrefix cmd env defaults = Inr s" and "obj_wf env" and "obj_wf defaults"
  shows "\<exists>E'. sh_prefix E s = sh_prefix E' cmd \<and>
    (\<forall>k. E' k =
      (case obj_get env k of
         Some v \<Rightarrow> if v \<noteq> [] then Some v
                   else (case obj_get defaults k of Some d \<Rightarrow> Some d | None \<Rightarrow> Some [])
       | None \<Rightarrow>
           (case obj_get defaults k of
              Some d \<Rightarrow> if sh_nonempty E k then E k else Some d
            | None \<Rightarrow> E k)))"
  using prefix_runs[OF assms(1)] env_after_get[OF assms(2,3)] by blast

lemma withEnvPrefix_runs_witness:
  "\<exists>E'. sh_prefix (\<lambda>_. None) (js ''export K=''  @ shellQuote [] @ js ''; [ -n '' @ [34] @ js ''${K:-}''
       @ [34] @ js '' ] || export K='' @ shellQuote (js ''d'') @ js ''; run'') = sh_prefix E' (js ''run'')
     \<and> E' (js ''K'') = Some (js ''d'')"
proof -
  have ok: "assertEnvName (js ''K'') = Inr (js ''K'')"
    by (simp add: assertEnvName_Inr js_def name_unit_def in_class_def is_digit_def)
  have "withEnvPrefix (js ''run'') [(js ''K'', [])] [(js ''K'', js ''d'')] =
    Inr (js ''export K=''  @ shellQuote [] @ js ''; [ -n '' @ [34] @ js ''${K:-}''
       @ [34] @ js '' ] || export K='' @ shellQuote (js ''d'') @ js ''; run'')"
    by (simp add: withEnvPrefix_def forced_export_def guarded_export_def ok) (simp add: js_def)
  from withEnvPrefix_runs[OF this, of "\<lambda>_. None"] show ?thesis
    by (force simp: obj_wf_def)
qed

text \<open>Note: Building the prefix fails exactly when some name, forced or default, is not one a shell
  accepts: letters, digits and underscores, not starting with a digit.\<close>

theorem withEnvPrefix_fails_iff:
  "fails (withEnvPrefix cmd env defaults) \<longleftrightarrow>
     \<not> list_all (\<lambda>kv. valid_env_name (fst kv)) (env @ defaults)"
proof -
  have "fails (assertEnvName k) \<longleftrightarrow> \<not> valid_env_name k" for k
    using not_fails_iff[of "assertEnvName k"]
    by (auto simp: assertEnvName_Inr valid_env_name_def list_all_iff)
  moreover have "fails (withEnvPrefix cmd env defaults) \<longleftrightarrow>
      fails (mapR forced_export env) \<or> fails (mapR guarded_export defaults)"
    by (cases "mapR forced_export env"; cases "mapR guarded_export defaults")
      (simp_all add: withEnvPrefix_def)
  ultimately show ?thesis
    by (auto simp flip: mapR_fails simp: export_fails list_all_iff)
qed

text \<open>Note: Parsing the report of the stray-process command gives back the processes it printed, each
  with its command line trimmed, in order.\<close>

theorem parseStrayProcesses_report:
  assumes "\<forall>p \<in> set ps. printable_stray p"
  shows "parseStrayProcesses (concat (map stray_record ps)) =
    map (\<lambda>p. p\<lparr>stray_command := trim (stray_command p)\<rparr>) ps"
  using assms
proof (induction ps)
  case Nil
  then show ?case by (simp add: parseStrayProcesses_def)
next
  case (Cons p ps)
  then have p: "printable_stray p" by simp
  then have "0 \<notin> set (stray_pid p @ 9 # stray_state p @ 9 # stray_command p)"
    by (simp add: printable_stray_def)
  then have "splitOn 0 (concat (map stray_record (p # ps))) =
      (stray_pid p @ 9 # stray_state p @ 9 # stray_command p) # splitOn 0 (concat (map stray_record ps))"
    using splitOn_append[of 0 "stray_pid p @ 9 # stray_state p @ 9 # stray_command p"]
    by (simp add: stray_record_def[of p])
  with Cons parse_one_record[OF p] show ?case
    by (simp add: parseStrayProcesses_def del: parse_records.simps)
qed

lemma parseStrayProcesses_report_witness:
  "parseStrayProcesses (js ''42'' @ [9] @ js ''S'' @ [9] @ js ''sleep 30 '' @ [0]) =
     [\<lparr>stray_pid = js ''42'', stray_state = js ''S'', stray_command = trim (js ''sleep 30 '')\<rparr>]"
  using parseStrayProcesses_report
    [of "[\<lparr>stray_pid = js ''42'', stray_state = js ''S'', stray_command = js ''sleep 30 ''\<rparr>]"]
  by (simp add: printable_stray_def stray_record_def js_def)

end
