(* ===== verification/Sha256.thy ===== *)
theory Sha256
  imports Utf8
begin

unbundle bit_operations_syntax

section \<open>SHA-256 and HMAC\<close>

text \<open>
  \<open>createHash('sha256')\<close> and \<open>createHmac('sha256', key)\<close> with \<open>digest('hex')\<close>, as FIPS 180-4 and
  RFC 2104 define them, over words of 32 bits.  Text that goes in is encoded as UTF-8.
\<close>

type_synonym word32 = "32 word"

definition rotr :: "nat \<Rightarrow> word32 \<Rightarrow> word32" where
  "rotr n w = (drop_bit n w) OR (push_bit (32 - n) w)"

definition sha_ch :: "word32 \<Rightarrow> word32 \<Rightarrow> word32 \<Rightarrow> word32" where
  "sha_ch x y z = (x AND y) XOR (NOT x AND z)"

definition sha_maj :: "word32 \<Rightarrow> word32 \<Rightarrow> word32 \<Rightarrow> word32" where
  "sha_maj x y z = (x AND y) XOR (x AND z) XOR (y AND z)"

definition sha_S0 :: "word32 \<Rightarrow> word32" where "sha_S0 x = rotr 2 x XOR rotr 13 x XOR rotr 22 x"
definition sha_S1 :: "word32 \<Rightarrow> word32" where "sha_S1 x = rotr 6 x XOR rotr 11 x XOR rotr 25 x"
definition sha_s0 :: "word32 \<Rightarrow> word32" where "sha_s0 x = rotr 7 x XOR rotr 18 x XOR drop_bit 3 x"
definition sha_s1 :: "word32 \<Rightarrow> word32" where "sha_s1 x = rotr 17 x XOR rotr 19 x XOR drop_bit 10 x"

text \<open>The constants of the standard: the first thirty-two bits of the fractional parts of the
  cube roots of the first sixty-four primes, and of the square roots of the first eight.  The root
  of \<open>p \<cdot> 2\<^sup>3\<^sup>2\<^sup>k\<close> is found bit by bit, and the conversion to a word drops its integer part.\<close>

definition primes_below :: "nat \<Rightarrow> nat list" where
  "primes_below n = filter (\<lambda>p. list_all (\<lambda>d. p mod d \<noteq> 0) [2..<p]) [2..<n]"

fun root_bits :: "nat \<Rightarrow> int \<Rightarrow> nat \<Rightarrow> int \<Rightarrow> int" where
  "root_bits k n 0 r = r"
| "root_bits k n (Suc b) r = root_bits k n b (if (r + 2 ^ b) ^ k \<le> n then r + 2 ^ b else r)"

definition frac_root :: "nat \<Rightarrow> nat \<Rightarrow> word32" where
  "frac_root k p = of_int (root_bits k (int p * 2 ^ (32 * k)) 36 0)"

definition sha_K :: "word32 list" where
  "sha_K = map (frac_root 3) (primes_below 312)"

definition sha_H0 :: "word32 list" where
  "sha_H0 = map (frac_root 2) (primes_below 20)"

lemma length_sha_H0 [simp]: "length sha_H0 = 8"
proof -
  have "length (primes_below 20) = 8" by code_simp
  then show ?thesis by (simp add: sha_H0_def)
qed

text \<open>The message schedule: the window holds the last sixteen words, the oldest first.\<close>

fun sha_schedule :: "nat \<Rightarrow> word32 list \<Rightarrow> word32 list" where
  "sha_schedule 0 w = w"
| "sha_schedule (Suc n) w =
     (case w of
        w0 # rest \<Rightarrow>
          w0 # sha_schedule n (rest @ [sha_s1 (w ! 14) + w ! 9 + sha_s0 (w ! 1) + w0])
      | [] \<Rightarrow> [])"

fun sha_round :: "word32 list \<Rightarrow> word32 \<times> word32 \<Rightarrow> word32 list" where
  "sha_round [a, b, c, d, e, f, g, h] (k, w) =
     (let t1 = h + sha_S1 e + sha_ch e f g + k + w; t2 = sha_S0 a + sha_maj a b c
      in [t1 + t2, a, b, c, d + t1, e, f, g])"
| "sha_round st _ = st"

definition sha_block :: "word32 list \<Rightarrow> word32 list \<Rightarrow> word32 list" where
  "sha_block st m = map2 (+) st (foldl sha_round st (zip sha_K (sha_schedule 48 m)))"

fun be_words :: "byte list \<Rightarrow> word32 list" where
  "be_words (a # b # c # d # bs) =
     (push_bit 24 (ucast a) OR push_bit 16 (ucast b) OR push_bit 8 (ucast c) OR ucast d) # be_words bs"
| "be_words _ = []"

definition be_bytes :: "nat \<Rightarrow> nat \<Rightarrow> byte list" where
  "be_bytes k n = map (\<lambda>i. of_nat (n div 256 ^ (k - 1 - i))) [0..<k]"

definition sha_pad :: "byte list \<Rightarrow> byte list" where
  "sha_pad bs =
     bs @ 0x80 # replicate ((119 - length bs mod 64) mod 64) 0 @ be_bytes 8 (8 * length bs)"

function sha_blocks :: "word32 list \<Rightarrow> word32 list \<Rightarrow> word32 list" where
  "sha_blocks st ws = (if ws = [] then st else sha_blocks (sha_block st (take 16 ws)) (drop 16 ws))"
  by pat_completeness auto
termination
  by (relation "measure (\<lambda>(st, ws). length ws)") auto

declare sha_blocks.simps [simp del]

definition sha256 :: "byte list \<Rightarrow> byte list" where
  "sha256 bs = concat (map (\<lambda>w. be_bytes 4 (unat w)) (sha_blocks sha_H0 (be_words (sha_pad bs))))"

definition hmac_sha256 :: "byte list \<Rightarrow> byte list \<Rightarrow> byte list" where
  "hmac_sha256 key m =
     (let k0 = (if 64 < length key then sha256 key else key);
          k = k0 @ replicate (64 - length k0) 0
      in sha256 (map (\<lambda>b. b XOR 0x5c) k @ sha256 (map (\<lambda>b. b XOR 0x36) k @ m)))"

definition hex_unit :: "nat \<Rightarrow> nat" where
  "hex_unit n = (if n < 10 then 48 + n else 87 + n)"

definition hex_of :: "byte list \<Rightarrow> jsstring" where
  "hex_of bs = concat (map (\<lambda>b. [hex_unit (unat b div 16), hex_unit (unat b mod 16)]) bs)"

definition is_hex :: "nat \<Rightarrow> bool" where
  "is_hex c \<longleftrightarrow> (48 \<le> c \<and> c \<le> 57) \<or> (97 \<le> c \<and> c \<le> 102)"

subsection \<open>The shape of a digest\<close>

lemma length_sha_round [simp]: "length (sha_round st kw) = length st"
  by (cases "(st, kw)" rule: sha_round.cases) (auto simp: Let_def)

lemma length_foldl_sha_round [simp]: "length (foldl sha_round st kws) = length st"
  by (induction kws arbitrary: st) auto

lemma length_sha_blocks [simp]: "length (sha_blocks st ws) = length st"
proof (induction st ws rule: sha_blocks.induct)
  case (1 st ws)
  then show ?case
    by (subst sha_blocks.simps) (simp add: sha_block_def)
qed

lemma length_sha256 [simp]: "length (sha256 bs) = 32"
  by (simp add: sha256_def length_concat comp_def be_bytes_def sum_list_triv)

lemma length_hex_of [simp]: "length (hex_of bs) = 2 * length bs"
  by (induction bs) (auto simp: hex_of_def)

lemma hex_of_hex: "c \<in> set (hex_of bs) \<Longrightarrow> is_hex c"
proof -
  have "n < 16 \<Longrightarrow> is_hex (hex_unit n)" for n
    by (auto simp: hex_unit_def is_hex_def)
  moreover have "unat (b :: byte) div 16 < 16" for b
    using unsigned_less[of b, where ?'a = nat] by auto
  ultimately show "c \<in> set (hex_of bs) \<Longrightarrow> is_hex c"
    by (auto simp: hex_of_def)
qed

end
