(* ===== verification/Sandbox.thy ===== *)
theory Sandbox
  imports Channel Shell Sha256
begin

section \<open>A sandbox (\<open>src/sandbox.ts\<close>)\<close>

text \<open>
  \<open>ArmadaSandbox\<close> is the record of its fields, the constructor's parameters included; the field
  \<open>this\<close> of the state holds it while one of its methods runs, next to what the provider shares between
  instances: the queues remembered and the placements.  A method runs to its end, and every way it
  can end is a branch: the platform decides what Armada, Lookout and the agent answer.  Which of
  several failed writes of one batch is reported depends on which failed first, so \<open>writeFiles\<close>
  takes that choice as an argument.  A \<open>ControlChannel\<close> is the endpoint of its \<open>AgentChannel\<close>.
\<close>

subsection \<open>Helpers\<close>

definition decodeUtf8 :: "byte list \<Rightarrow> jsstring option" where
  "decodeUtf8 bytes = utf8_fatal bytes"

definition is_control :: "nat \<Rightarrow> bool" where
  "is_control c \<longleftrightarrow> c \<le> 31 \<or> c = 127"

definition oneLine :: "jsstring \<Rightarrow> jsstring" where
  "oneLine t = concat (map (\<lambda>c. if is_control c then butlast (tl (quote_string [c])) else [c]) t)"

definition reason :: "js_error \<Rightarrow> jsstring" where
  "reason e = message e"

text \<open>The divisions and products stay within the integers doubles represent: for a safe integer the
  quotient is rounded by less than its distance to the next integer, and the product is by four.\<close>

definition num_div :: "jsnum \<Rightarrow> int \<Rightarrow> jsnum" where
  "num_div n k = (case n of Fin r \<Rightarrow> Fin (r / of_int k) | _ \<Rightarrow> n)"

definition num_times :: "int \<Rightarrow> jsnum \<Rightarrow> jsnum" where
  "num_times k n = (case n of Fin r \<Rightarrow> Fin (of_int k * r) | _ \<Rightarrow> n)"

definition isValidBudget :: "BoundedReadOptions \<Rightarrow> bool" where
  "isValidBudget options \<longleftrightarrow>
     isSafeInteger (maxBytes options)
     \<and> num_le (of_whole 0) (maxBytes options)
     \<and> isSafeInteger (num_times 4 (num_ceil (num_div (maxBytes options) 3)))
     \<and> isFinite (timeoutMs options)
     \<and> num_less (of_whole 0) (timeoutMs options)
     \<and> num_le (timeoutMs options) (of_whole (2 ^ 31 - 1))"

definition agentToken :: "jsstring \<Rightarrow> SandboxId \<Rightarrow> jsstring" where
  "agentToken secret sid = hex_of (hmac_sha256 (utf8_bytes secret) (utf8_bytes sid))"

definition token_hash :: "jsstring \<Rightarrow> jsstring" where
  "token_hash token = hex_of (sha256 (utf8_bytes token))"

definition WRITE_CONCURRENCY :: nat where "WRITE_CONCURRENCY = 8"
definition AGENT_READY_TIMEOUT_MS :: nat where "AGENT_READY_TIMEOUT_MS = 30000"
definition PORT_READY_TIMEOUT_MS :: int where "PORT_READY_TIMEOUT_MS = 0"

definition toExecResult :: "CommandResult \<Rightarrow> ExecResult" where
  "toExecResult result =
     (if cr_exitCode result = of_whole 0 then ExecSuccess (cr_stdout result) (cr_stderr result)
      else ExecFailure (cr_stdout result) (cr_stderr result) COMMAND_FAILED)"

definition strip_lead_slash :: "jsstring \<Rightarrow> jsstring" where
  "strip_lead_slash t = (case t of [] \<Rightarrow> [] | c # r \<Rightarrow> if c = 47 then r else t)"

definition entry_name :: "AgentFileEntry \<Rightarrow> jsstring" where
  "entry_name entry = slice_from (lastIndexOf 47 (afe_path entry) + 1) (afe_path entry)"

definition toFileInfo :: "jsstring \<Rightarrow> AgentFileEntry \<Rightarrow> FileInfo" where
  "toFileInfo rootPath entry =
     \<lparr>fi_name = entry_name entry, fi_absolutePath = afe_path entry,
      fi_relativePath =
        (if startsWith rootPath (afe_path entry)
         then strip_lead_slash (drop (length rootPath) (afe_path entry)) else afe_path entry),
      fi_type = afe_type entry, fi_size = afe_size entry\<rparr>"

fun toFileInfos :: "AgentFileEntry list \<Rightarrow> jsstring \<Rightarrow> ListFilesOptions option \<Rightarrow> FileInfo list" where
  "toFileInfos [] rootPath options = []"
| "toFileInfos (entry # rest) rootPath options =
     (if Option.bind options includeHidden \<noteq> Some True \<and> startsWith [46] (entry_name entry)
      then toFileInfos rest rootPath options
      else toFileInfo rootPath entry # toFileInfos rest rootPath options)"

definition probeOf :: "WaitForPortOptions option \<Rightarrow> PortProbe option" where
  "probeOf options =
     (if Option.bind options wait_mode = None \<and> Option.bind options wait_path = None then None
      else Some \<lparr>probe_mode = Option.bind options wait_mode, probe_path = Option.bind options wait_path\<rparr>)"

subsection \<open>State\<close>

record Placement =
  pl_job :: SubmittedJob
  pl_pod :: "PodLocation option"
  pl_channel :: AgentEndpoint

record ArmadaSandbox =
  sb_id :: SandboxId
  sb_options :: "CreateSandboxOptions option"
  sb_attachOnly :: bool
  sb_token :: jsstring
  sb_job :: "SubmittedJob option"
  sb_pod :: "PodLocation option"
  sb_channel :: "AgentEndpoint option"
  sb_env :: "jsstring obj"
  sb_envDefaults :: "jsstring obj"

record world = queue_state +
  placements :: "SandboxId \<Rightarrow> Placement option"

record sandbox_state = world +
  this :: ArmadaSandbox

type_synonym ('a, 'r) sandbox_io = "('a sandbox_state_scheme, 'r) io"

definition new_sandbox ::
  "ArmadaConfig \<Rightarrow> SandboxId \<Rightarrow> CreateSandboxOptions option \<Rightarrow> bool \<Rightarrow> ArmadaSandbox" where
  "new_sandbox config sid options attachOnly =
     \<lparr>sb_id = sid, sb_options = options, sb_attachOnly = attachOnly,
      sb_token = agentToken (cfg_agentTokenSecret config) sid,
      sb_job = None, sb_pod = None, sb_channel = None, sb_env = [], sb_envDefaults = []\<rparr>"

definition set_this :: "(ArmadaSandbox \<Rightarrow> ArmadaSandbox) \<Rightarrow> ('a, unit) sandbox_io" where
  "set_this f = updIO (\<lambda>s. s\<lparr>this := f (this s)\<rparr>)"

definition place :: "SandboxId \<Rightarrow> Placement option \<Rightarrow> ('a, unit) sandbox_io" where
  "place sid p = updIO (\<lambda>s. s\<lparr>placements := (placements s)(sid := p)\<rparr>)"

subsection \<open>Reaching the agent\<close>

definition sandbox_queue :: "platform \<Rightarrow> ArmadaConfig \<Rightarrow> ('a, jsstring) sandbox_io" where
  "sandbox_queue pf config =
     bindIO (getIO this) (\<lambda>sb.
       case sb_job sb of
         Some job \<Rightarrow> returnIO (job_queue job)
       | None \<Rightarrow> resolve config (Some (findQueue pf config)) (sb_id sb) (Option.bind (sb_options sb) opt_owner))"

definition sandbox_submit :: "platform \<Rightarrow> ArmadaConfig \<Rightarrow> ('a, SubmittedJob) sandbox_io" where
  "sandbox_submit pf config =
     bindIO (getIO this) (\<lambda>sb.
     bindIO (liftR (buildPodSpec config \<lparr>tokenSha256 = token_hash (sb_token sb)\<rparr> (sb_options sb))) (\<lambda>spec.
     bindIO (sandbox_queue pf config) (\<lambda>queue.
       submit pf config (sb_id sb) spec queue)))"

definition no_job :: "SandboxId \<Rightarrow> jsstring \<Rightarrow> js_error" where
  "no_job sid queue =
     err [js ''Sandbox '', sid, js '' has no unfinished job in queue '', [34], queue, [34],
       js '' to attach to, and attaching never submits one'']"

definition existingJob :: "platform \<Rightarrow> ArmadaConfig \<Rightarrow> ('a, SubmittedJob) sandbox_io" where
  "existingJob pf config =
     bindIO (getIO this) (\<lambda>sb.
     bindIO (sandbox_queue pf config) (\<lambda>queue.
     bindIO (findJob pf config (sb_id sb) queue) (\<lambda>job.
       case job of None \<Rightarrow> throwIO (no_job (sb_id sb) queue) | Some j \<Rightarrow> returnIO j)))"

text \<open>\<open>this.job ??= \<dots>\<close>\<close>

definition ensure_job :: "platform \<Rightarrow> ArmadaConfig \<Rightarrow> ('a, SubmittedJob) sandbox_io" where
  "ensure_job pf config =
     bindIO (getIO this) (\<lambda>sb.
       case sb_job sb of
         Some job \<Rightarrow> returnIO job
       | None \<Rightarrow>
           bindIO (if sb_attachOnly sb then existingJob pf config else sandbox_submit pf config) (\<lambda>job.
           bindIO (set_this (\<lambda>b. b\<lparr>sb_job := Some job\<rparr>)) (\<lambda>_. returnIO job)))"

text \<open>One look at a placement another instance left: taken over when its agent answers, else dropped.\<close>

definition take_over :: "platform \<Rightarrow> SandboxId \<Rightarrow> Placement \<Rightarrow> ('a, bool) sandbox_io" where
  "take_over pf sid known =
     catchIO
       (bindIO (agent_ready pf (pl_channel known) 0) (\<lambda>_.
        bindIO (set_this (\<lambda>b. b\<lparr>sb_job := Some (pl_job known), sb_pod := pl_pod known,
           sb_channel := Some (pl_channel known)\<rparr>)) (\<lambda>_. returnIO True)))
       (\<lambda>_. bindIO (place sid None) (\<lambda>_. returnIO False))"

definition connect ::
  "platform \<Rightarrow> SubmittedJob \<Rightarrow> PodLocation \<Rightarrow> jsstring \<Rightarrow> ('a, unit) sandbox_io" where
  "connect pf job pod url =
     bindIO (getIO this) (\<lambda>sb.
       let channel = \<lparr>ep_url = url, ep_token = sb_token sb, ep_pod = pod\<rparr> in
       bindIO (agent_ready pf channel AGENT_READY_TIMEOUT_MS) (\<lambda>_.
       bindIO (set_this (\<lambda>b. b\<lparr>sb_channel := Some channel\<rparr>)) (\<lambda>_.
         place (sb_id sb) (Some \<lparr>pl_job = job, pl_pod = Some pod, pl_channel = channel\<rparr>))))"

definition reach :: "platform \<Rightarrow> ArmadaConfig \<Rightarrow> ('a, unit) sandbox_io" where
  "reach pf config =
     bindIO (ensure_job pf config) (\<lambda>job.
     bindIO (waitForRunning pf config job) (\<lambda>pod.
     bindIO (set_this (\<lambda>b. b\<lparr>sb_pod := Some pod\<rparr>)) (\<lambda>_.
     bindIO (portUrl pf config job (cfg_agentPort config)) (\<lambda>url.
       connect pf job pod url))))"

definition sandbox_ready :: "platform \<Rightarrow> ArmadaConfig \<Rightarrow> ('a, unit) sandbox_io" where
  "sandbox_ready pf config =
     bindIO (getIO this) (\<lambda>sb.
       if sb_channel sb \<noteq> None then returnIO ()
       else
         bindIO (getIO (\<lambda>s. placements s (sb_id sb))) (\<lambda>known.
           case known of
             None \<Rightarrow> reach pf config
           | Some p \<Rightarrow>
               bindIO (take_over pf (sb_id sb) p) (\<lambda>taken.
                 if taken then returnIO () else reach pf config)))"

definition sandbox_open :: "platform \<Rightarrow> ArmadaConfig \<Rightarrow> ('a, AgentEndpoint) sandbox_io" where
  "sandbox_open pf config =
     bindIO (getIO (sb_channel \<circ> this)) (\<lambda>before.
     bindIO (if before = None then sandbox_ready pf config else returnIO ()) (\<lambda>_.
     bindIO (getIO this) (\<lambda>sb.
       case sb_channel sb of
         None \<Rightarrow> throwIO (err [js ''Sandbox '', sb_id sb, js '' has no agent after ready()''])
       | Some channel \<Rightarrow> returnIO channel)))"

definition isPortReady ::
  "platform \<Rightarrow> int \<Rightarrow> WaitForPortOptions option \<Rightarrow> ('a, bool) sandbox_io" where
  "isPortReady pf port options =
     bindIO (getIO this) (\<lambda>sb.
     bindIO (getIO (\<lambda>s. map_option pl_channel (placements s (sb_id sb)))) (\<lambda>known.
       case (case sb_channel sb of Some c \<Rightarrow> Some c | None \<Rightarrow> known) of
         None \<Rightarrow> returnIO False
       | Some channel \<Rightarrow>
           catchIO
             (bindIO (agent_waitForPort pf channel port (of_whole PORT_READY_TIMEOUT_MS) None
                (probeOf (Some \<lparr>wait_mode = Some (or_else (Option.bind options wait_mode) Http),
                   wait_path = Option.bind options wait_path, wait_timeout = None\<rparr>)))
               (\<lambda>wait. returnIO (pw_open wait)))
             (\<lambda>_. returnIO False)))"

text \<open>\<open>get placement()\<close>\<close>

definition placement_of :: "ArmadaSandbox \<Rightarrow> PodLocation option" where
  "placement_of sb = sb_pod sb"

subsection \<open>Commands\<close>

definition login_shell :: "jsstring \<Rightarrow> jsstring list" where
  "login_shell command = [js ''sh'', js ''-lc'', command]"

definition backstop :: "ArmadaConfig \<Rightarrow> jsnum option \<Rightarrow> jsnum option" where
  "backstop config wait =
     (if wait = None \<and> 0 < cfg_commandMaxSeconds config
      then Some (of_whole (cfg_commandMaxSeconds config * 1000)) else None)"

definition is_timeout :: "js_error \<Rightarrow> bool" where
  "is_timeout e = (case e of CommandTimeoutError _ \<Rightarrow> True | _ \<Rightarrow> False)"

definition sandbox_exec ::
  "platform \<Rightarrow> ArmadaConfig \<Rightarrow> jsstring \<Rightarrow> jsnum option \<Rightarrow> ('a, ExecResult) sandbox_io" where
  "sandbox_exec pf config cmd wait =
     bindIO (getIO this) (\<lambda>sb.
     bindIO (liftR (withEnvPrefix cmd (sb_env sb) (sb_envDefaults sb))) (\<lambda>command.
       let backstopMs = backstop config wait;
           deadline = (case wait of Some n \<Rightarrow> Some n | None \<Rightarrow> backstopMs)
       in catchIO
            (bindIO (sandbox_open pf config) (\<lambda>channel.
             bindIO (agent_run pf channel (login_shell command) \<lparr>run_stdin = None, run_timeoutMs = deadline\<rparr>) (\<lambda>result.
               returnIO (toExecResult result))))
            (\<lambda>e. returnIO (ExecFailure []
               (if is_timeout e \<and> backstopMs \<noteq> None
                then concat [js ''Command ran past ARMADA_COMMAND_MAX_SECONDS ('',
                  show_int (cfg_commandMaxSeconds config), js ''s) and was killed: '', cmd]
                else reason e) BACKEND_ERROR))))"

definition execStream ::
  "platform \<Rightarrow> ArmadaConfig \<Rightarrow> bool \<Rightarrow> jsstring \<Rightarrow> jsnum option \<Rightarrow> ('a, body_stream) sandbox_io" where
  "execStream pf config stopped cmd wait =
     bindIO (sandbox_open pf config) (\<lambda>channel.
     bindIO (getIO this) (\<lambda>sb.
     bindIO (liftR (withEnvPrefix cmd (sb_env sb) (sb_envDefaults sb))) (\<lambda>command.
       agent_stream pf channel stopped (login_shell command) wait)))"

definition gitCheckout ::
  "platform \<Rightarrow> ArmadaConfig \<Rightarrow> jsstring \<Rightarrow> git_options option \<Rightarrow> ('a, unit) sandbox_io" where
  "gitCheckout pf config repo options =
     bindIO (sandbox_exec pf config (gitCloneCommand repo options) None) (\<lambda>result.
       case result of
         ExecSuccess _ _ \<Rightarrow> returnIO ()
       | ExecFailure _ stderr _ \<Rightarrow> throwIO (err [js ''git checkout failed: '', stderr]))"

definition setEnvVars :: "jsstring obj \<Rightarrow> bool \<Rightarrow> ('a, unit) sandbox_io" where
  "setEnvVars vars onlyIfUnset =
     bindIO (liftR (each (\<lambda>name. bindR (assertEnvName name) (\<lambda>_. Inr ())) (obj_keys vars))) (\<lambda>_.
       if onlyIfUnset then set_this (\<lambda>b. b\<lparr>sb_envDefaults := obj_spread (sb_envDefaults b) vars\<rparr>)
       else set_this (\<lambda>b. b\<lparr>sb_env := obj_spread (sb_env b) vars\<rparr>))"

definition mountBucket :: "('a, unit) sandbox_io" where
  "mountBucket =
     throwIO (err [js ''mountBucket is not supported on the armada backend; using file copy fallback''])"

definition unmountBucket :: "('a, unit) sandbox_io" where
  "unmountBucket = returnIO ()"

subsection \<open>Files\<close>

definition mask_token :: "jsstring \<Rightarrow> jsstring \<Rightarrow> jsstring" where
  "mask_token token line = replaceAll token (js ''<token>'') line"

definition code_text :: "error_code \<Rightarrow> jsstring" where
  "code_text code = (case code of READ_FAILED \<Rightarrow> js ''READ_FAILED'' | _ \<Rightarrow> js ''BACKEND_ERROR'')"

definition read_line :: "SandboxId \<Rightarrow> jsstring \<Rightarrow> error_code \<Rightarrow> jsstring \<Rightarrow> jsstring" where
  "read_line sid path code why =
     concat [js ''marimohub-compute-armada: sandbox '', sid, js '' could not read '', oneLine path,
       js '' ('', code_text code, js ''): '', oneLine why]"

definition readFailed :: "jsstring \<Rightarrow> error_code \<Rightarrow> jsstring \<Rightarrow> ('a, ReadFileResult) sandbox_io" where
  "readFailed path code why =
     bindIO (getIO this) (\<lambda>sb.
     bindIO (console_warn (mask_token (sb_token sb) (read_line (sb_id sb) path code why))) (\<lambda>_.
       returnIO (ReadFileFailure code)))"

definition readThrough ::
  "platform \<Rightarrow> ArmadaConfig \<Rightarrow> jsstring \<Rightarrow> (AgentEndpoint \<Rightarrow> ('a, ReadFileOutcome) sandbox_io)
     \<Rightarrow> (byte list \<Rightarrow> ReadFileResult) \<Rightarrow> ('a, ReadFileResult) sandbox_io" where
  "readThrough pf config path read encode = (\<lambda>s.
     case bindIO (sandbox_open pf config) read s of
       (Inl e, t) \<Rightarrow> readFailed path BACKEND_ERROR (reason e) t
     | (Inr ReadNotFound, t) \<Rightarrow> (Inr (ReadFileFailure NOT_FOUND), t)
     | (Inr (ReadRefused m), t) \<Rightarrow> readFailed path READ_FAILED m t
     | (Inr (ReadOk bytes), t) \<Rightarrow> (Inr (encode bytes), t))"

definition as_base64 :: "byte list \<Rightarrow> ReadFileResult" where
  "as_base64 bytes = ReadFileSuccess (base64 bytes) BASE64"

definition as_text :: "byte list \<Rightarrow> ReadFileResult" where
  "as_text bytes =
     (case decodeUtf8 bytes of None \<Rightarrow> as_base64 bytes | Some t \<Rightarrow> ReadFileSuccess t UTF_8)"

definition sandbox_readFile :: "platform \<Rightarrow> ArmadaConfig \<Rightarrow> jsstring \<Rightarrow> ('a, ReadFileResult) sandbox_io" where
  "sandbox_readFile pf config path =
     readThrough pf config path (\<lambda>channel. agent_readFile pf channel path) as_text"

definition sandbox_readFileBounded ::
  "platform \<Rightarrow> ArmadaConfig \<Rightarrow> jsstring \<Rightarrow> BoundedReadOptions \<Rightarrow> ('a, ReadFileResult) sandbox_io" where
  "sandbox_readFileBounded pf config path options =
     (if \<not> isValidBudget options then
        readFailed path READ_FAILED
          (concat [js ''maxBytes '', num_String (maxBytes options), js '' and timeoutMs '',
            num_String (timeoutMs options), js '' are not a valid budget''])
      else
        readThrough pf config path (\<lambda>channel. agent_readFileBounded pf channel path
          \<lparr>budget_maxBytes = maxBytes options, budget_timeoutMs = num_ceil (timeoutMs options)\<rparr>) as_base64)"

definition sandbox_listFiles ::
  "platform \<Rightarrow> ArmadaConfig \<Rightarrow> jsstring \<Rightarrow> ListFilesOptions option \<Rightarrow> ('a, ListFilesResult) sandbox_io" where
  "sandbox_listFiles pf config path options = (\<lambda>s.
     case bindIO (sandbox_open pf config)
            (\<lambda>channel. agent_listFiles pf channel path (Option.bind options recursive = Some True)) s of
       (Inl _, t) \<Rightarrow> (Inr (ListFilesFailure BACKEND_ERROR), t)
     | (Inr ListNotADirectory, t) \<Rightarrow> (Inr (ListFilesFailure NOT_A_DIRECTORY), t)
     | (Inr (ListRefused _), t) \<Rightarrow> (Inr (ListFilesFailure LIST_FAILED), t)
     | (Inr (ListOk entries), t) \<Rightarrow> (Inr (ListFilesSuccess (toFileInfos entries path options)), t))"

text \<open>\<open>Promise.all\<close>: every operation is started, in order, and runs to its end; when some fail, one of the
  errors, the first in time, is the error of the whole.\<close>

fun run_all :: "('s, 'r) io list \<Rightarrow> 's \<Rightarrow> js_error list \<times> 's" where
  "run_all [] s = ([], s)"
| "run_all (m # ms) s =
     (case m s of (r, t) \<Rightarrow>
        (case run_all ms t of (es, u) \<Rightarrow> (case r of Inl e \<Rightarrow> e # es | Inr _ \<Rightarrow> es, u)))"

definition Promise_all :: "(js_error list \<Rightarrow> nat) \<Rightarrow> ('s, 'r) io list \<Rightarrow> ('s, unit) io" where
  "Promise_all earliest ms = (\<lambda>s.
     case run_all ms s of
       ([], t) \<Rightarrow> (Inr (), t)
     | (es, t) \<Rightarrow> (Inl (es ! (earliest es mod length es)), t))"

definition write_one :: "platform \<Rightarrow> AgentEndpoint \<Rightarrow> SandboxFileWrite \<Rightarrow> ('a net_state_scheme, unit) io" where
  "write_one pf channel file =
     catchIO (agent_writeFile pf channel (fw_path file) (fw_content file))
       (\<lambda>e. throwIO (err [js ''Writing '', fw_path file, js '' failed: '', reason e]))"

function write_batches ::
  "(js_error list \<Rightarrow> nat) \<Rightarrow> (SandboxFileWrite \<Rightarrow> ('s, unit) io) \<Rightarrow> SandboxFileWrite list \<Rightarrow> ('s, unit) io" where
  "write_batches earliest write files =
     (if files = [] then returnIO ()
      else bindIO (Promise_all earliest (map write (take WRITE_CONCURRENCY files))) (\<lambda>_.
        write_batches earliest write (drop WRITE_CONCURRENCY files)))"
  by pat_completeness auto
termination
  by (relation "measure (\<lambda>(e, w, files). length files)") (auto simp: WRITE_CONCURRENCY_def)

declare write_batches.simps [simp del]

definition writeFiles ::
  "platform \<Rightarrow> ArmadaConfig \<Rightarrow> (js_error list \<Rightarrow> nat) \<Rightarrow> SandboxFileWrite list \<Rightarrow> ('a, unit) sandbox_io" where
  "writeFiles pf config earliest files =
     (if files = [] then returnIO ()
      else bindIO (sandbox_open pf config) (\<lambda>channel.
        write_batches earliest (write_one pf channel) files))"

subsection \<open>Processes and ports\<close>

record ArmadaProcess =
  pr_id :: jsstring
  pr_command :: jsstring
  pr_channel :: AgentEndpoint
  pr_where :: jsstring
  pr_pid :: jsnum

fun process_env :: "(jsstring \<times> jsstring option) list \<Rightarrow> jsstring obj \<Rightarrow> jsstring obj" where
  "process_env [] env = env"
| "process_env ((name, value) # rest) env =
     process_env rest (case value of None \<Rightarrow> env | Some v \<Rightarrow> obj_set name v env)"

definition sandbox_startProcess ::
  "platform \<Rightarrow> ArmadaConfig \<Rightarrow> jsstring \<Rightarrow> StartProcessOptions option \<Rightarrow> ('a, ArmadaProcess) sandbox_io" where
  "sandbox_startProcess pf config cmd options =
     bindIO (sandbox_open pf config) (\<lambda>channel.
     bindIO (getIO this) (\<lambda>sb.
     let processEnv = process_env (or_else (Option.bind options start_env) []) [] in
     bindIO (liftR (bindR (withEnvPrefix cmd processEnv []) (\<lambda>inner.
         withEnvPrefix inner (sb_env sb) (sb_envDefaults sb)))) (\<lambda>command.
     bindIO (catchIO (agent_startProcess pf channel (login_shell command) (Option.bind options start_cwd))
         (\<lambda>e. throwIO (err [js ''Starting '', [34], cmd, [34], js '' failed: '', reason e]))) (\<lambda>pid.
     bindIO (getIO this) (\<lambda>now.
       returnIO \<lparr>pr_id = or_else (Option.bind options start_processId) (js ''armada-proc-'' @ num_String pid),
         pr_command = cmd, pr_channel = channel,
         pr_where = (case sb_pod now of None \<Rightarrow> sb_id now | Some pod \<Rightarrow> podNamespace pod @ [47] @ podName pod),
         pr_pid = pid\<rparr>)))))"

definition exposePort :: "platform \<Rightarrow> ArmadaConfig \<Rightarrow> int \<Rightarrow> ('a, jsstring) sandbox_io" where
  "exposePort pf config port =
     bindIO (sandbox_ready pf config) (\<lambda>_.
     bindIO (getIO this) (\<lambda>sb.
       case sb_job sb of
         None \<Rightarrow> throwIO (err [js ''Sandbox '', sb_id sb, js '' has no job after ready()''])
       | Some job \<Rightarrow> portUrl pf config job port))"

definition destroy :: "platform \<Rightarrow> ArmadaConfig \<Rightarrow> ('a, unit) sandbox_io" where
  "destroy pf config =
     bindIO (getIO this) (\<lambda>sb.
     bindIO (case sb_job sb of
         None \<Rightarrow> bindIO (sandbox_queue pf config) (\<lambda>queue. cancelSet pf config (sb_id sb) queue)
       | Some job \<Rightarrow> cancel pf config job) (\<lambda>_.
     bindIO (forget (sb_id sb)) (\<lambda>_.
     bindIO (place (sb_id sb) None) (\<lambda>_.
       set_this (\<lambda>b. b\<lparr>sb_pod := None, sb_channel := None\<rparr>)))))"

definition process_kill :: "platform \<Rightarrow> ArmadaProcess \<Rightarrow> jsstring option \<Rightarrow> ('a net_state_scheme, unit) io" where
  "process_kill pf p signal =
     catchIO (agent_signalProcess pf (pr_channel p) (pr_pid p) (or_else signal (js ''TERM''))) (\<lambda>_. returnIO ())"

definition logsQuietly :: "platform \<Rightarrow> ArmadaProcess \<Rightarrow> ('a net_state_scheme, jsstring) io" where
  "logsQuietly pf p = catchIO (agent_processLogs pf (pr_channel p) (pr_pid p)) (\<lambda>_. returnIO [])"

definition getLogs :: "platform \<Rightarrow> ArmadaProcess \<Rightarrow> ('a net_state_scheme, jsstring \<times> jsstring) io" where
  "getLogs pf p =
     bindIO (agent_processLogs pf (pr_channel p) (pr_pid p)) (\<lambda>stdout. returnIO (stdout, []))"

definition process_waitForPort ::
  "platform \<Rightarrow> ArmadaProcess \<Rightarrow> int \<Rightarrow> WaitForPortOptions option \<Rightarrow> ('a net_state_scheme, unit) io" where
  "process_waitForPort pf p port options =
     (let wait_ms = or_else (Option.bind options wait_timeout) (of_whole 30000) in
      bindIO (agent_waitForPort pf (pr_channel p) port wait_ms (Some (pr_pid p)) (probeOf options)) (\<lambda>wait.
        if pw_open wait then returnIO ()
        else
          bindIO (logsQuietly pf p) (\<lambda>printed.
            if pw_exited wait then
              throwIO (JsError (trim (concat [js ''process exited before port '', show_int port,
                js '' opened.'', [10], printed])))
            else
              throwIO (err [js ''timed out waiting for port '', show_int port, js '' in '', pr_where p,
                js '' after '', num_String wait_ms, js ''ms.'', [10], printed]))))"

end
