(* ===== verification/SandboxReach.thy ===== *)
theory SandboxReach
  imports Sandbox
begin

section \<open>What every method of a sandbox keeps\<close>

text \<open>
  The requests an instance may make are its own: to Armada or Lookout, where a submission is of its own
  id, carries nothing of its token but the hash and is never made by an attached instance, or to an agent under its
  own token.  \<open>tidy\<close> is the invariant of the state: the instance knows its token, its job is in the
  job set of its id, and every placement shared between instances belongs to the sandbox it is filed
  under.  \<open>stays config s0\<close> says that a method started in \<open>s0\<close> has stayed within its sandbox so far:
  it has kept the invariant and its identity, made only its own requests, and left what is shared about
  other sandboxes alone.  Each method keeps it, however it ends.
\<close>

subsection \<open>The invariant\<close>

definition own_submit :: "ArmadaConfig \<Rightarrow> ArmadaSandbox \<Rightarrow> JobSubmitRequest \<Rightarrow> bool" where
  "own_submit config sb r \<longleftrightarrow>
     \<not> sb_attachOnly sb
     \<and> (\<exists>spec queue.
          buildPodSpec config \<lparr>tokenSha256 = token_hash (sb_token sb)\<rparr> (sb_options sb) = Inr spec
          \<and> r = submit_request config (sb_id sb) spec queue)"

definition own :: "ArmadaConfig \<Rightarrow> ArmadaSandbox \<Rightarrow> request \<Rightarrow> bool" where
  "own config sb req \<longleftrightarrow>
     to_armada config (own_submit config sb) req \<or> (\<exists>ep. ep_token ep = sb_token sb \<and> to_agent ep req)"

definition valid_env :: "jsstring obj \<Rightarrow> bool" where
  "valid_env env \<longleftrightarrow> obj_wf env \<and> list_all valid_env_name (obj_keys env)"

definition sandbox_ok :: "ArmadaConfig \<Rightarrow> ArmadaSandbox \<Rightarrow> bool" where
  "sandbox_ok config sb \<longleftrightarrow>
     sb_token sb = agentToken (cfg_agentTokenSecret config) (sb_id sb)
     \<and> (case sb_job sb of None \<Rightarrow> True | Some job \<Rightarrow> job_setId job = sb_id sb)
     \<and> (case sb_channel sb of
          None \<Rightarrow> True
        | Some ep \<Rightarrow> ep_token ep = sb_token sb \<and> sb_job sb \<noteq> None \<and> sb_pod sb \<noteq> None)
     \<and> valid_env (sb_env sb) \<and> valid_env (sb_envDefaults sb)"

definition placement_ok :: "ArmadaConfig \<Rightarrow> SandboxId \<Rightarrow> Placement \<Rightarrow> bool" where
  "placement_ok config sid p \<longleftrightarrow>
     job_setId (pl_job p) = sid \<and> pl_pod p = Some (ep_pod (pl_channel p))
     \<and> ep_token (pl_channel p) = agentToken (cfg_agentTokenSecret config) sid"

definition placements_ok :: "ArmadaConfig \<Rightarrow> (SandboxId \<Rightarrow> Placement option) \<Rightarrow> bool" where
  "placements_ok config ps \<longleftrightarrow> (\<forall>sid p. ps sid = Some p \<longrightarrow> placement_ok config sid p)"

definition tidy :: "ArmadaConfig \<Rightarrow> 'a sandbox_state_scheme \<Rightarrow> bool" where
  "tidy config s \<longleftrightarrow> placements_ok config (placements s) \<and> sandbox_ok config (this s)"

definition same_sandbox :: "ArmadaSandbox \<Rightarrow> ArmadaSandbox \<Rightarrow> bool" where
  "same_sandbox a b \<longleftrightarrow> sb_id a = sb_id b \<and> sb_options a = sb_options b \<and> sb_attachOnly a = sb_attachOnly b
     \<and> sb_token a = sb_token b"

definition stays :: "ArmadaConfig \<Rightarrow> 'a sandbox_state_scheme \<Rightarrow> 'a sandbox_state_scheme \<Rightarrow> bool" where
  "stays config s0 s \<longleftrightarrow>
     tidy config s \<and> same_sandbox (this s) (this s0)
     \<and> (\<exists>l. log s = log s0 @ l \<and> list_all (own config (this s0)) l)
     \<and> clock s0 \<le> clock s
     \<and> (\<forall>sid. sid \<noteq> sb_id (this s0) \<longrightarrow>
          placements s sid = placements s0 sid \<and> remembered s sid = remembered s0 sid)
     \<and> sandbox_state.more s = sandbox_state.more s0"

lemma stays_start: "tidy config s \<Longrightarrow> stays config s s"
  by (auto simp: stays_def same_sandbox_def)

subsection \<open>Operations of the other components\<close>

lemma more_fields:
  assumes "net_state.more t = net_state.more (s :: 'a sandbox_state_scheme)"
  shows "remembered t = remembered s" "placements t = placements s" "this t = this s"
    "sandbox_state.more t = sandbox_state.more s"
  using assms by (cases s; cases t; simp)+

text \<open>A condition is stable when requests of one kind do not disturb it.\<close>

definition stable :: "(request \<Rightarrow> bool) \<Rightarrow> ('a sandbox_state_scheme \<Rightarrow> bool) \<Rightarrow> bool" where
  "stable P I \<longleftrightarrow> (\<forall>s t l. I s \<longrightarrow> log t = log s @ l \<longrightarrow> list_all P l \<longrightarrow> clock s \<le> clock t \<longrightarrow>
     net_state.more t = net_state.more s \<longrightarrow> I t)"

lemma triple_talks:
  assumes "talks P m" and "stable P I"
  shows "triple I m (\<lambda>_. I) (\<lambda>_. I)"
  by (rule tripleI) (use assms in \<open>auto elim!: talksE simp: stable_def\<close>)

lemma keeps_talks: "talks P m \<Longrightarrow> stable P I \<Longrightarrow> keeps I m"
  using triple_talks keeps_triple by blast

lemma stays_stable: "stable (own config (this s0)) (stays config s0)"
  unfolding stable_def stays_def tidy_def by (auto dest: more_fields)

lemma stable_conj:
  assumes "stable P I" and "\<And>s t. net_state.more t = net_state.more s \<Longrightarrow> J s \<Longrightarrow> J t"
  shows "stable P (\<lambda>s. I s \<and> J s)"
  using assms unfolding stable_def by blast

lemma stable_this: "stable P I \<Longrightarrow> stable P (\<lambda>s. I s \<and> J (this s))"
  by (rule stable_conj) (auto dest: more_fields(3))

lemma own_armada: "talks (to_armada config (own_submit config sb)) m \<Longrightarrow> talks (own config sb) m"
  by (erule talks_mono) (simp add: own_def)

lemma own_agent: "talks (to_agent ep) m \<Longrightarrow> ep_token ep = sb_token sb \<Longrightarrow> talks (own config sb) m"
  by (erule talks_mono) (auto simp: own_def)

lemmas own_client = client.talking[where fine = "own_submit config sb" for config sb, THEN own_armada]

lemma keeps_resolve:
  assumes "stable (own config sb) I" and "\<And>s q. I s \<Longrightarrow> I (s\<lparr>remembered := (remembered s)(sid := q)\<rparr>)"
  shows "keeps I (resolve config (Some (findQueue pf config)) sid owner)"
proof -
  have "keeps I (findQueue pf config sid)" using own_client(6) assms(1) by (rule keeps_talks)
  then show ?thesis
    unfolding resolve_def place_new_def remember_def Let_def
    by (auto intro!: keeps_bindIO keeps_catchIO simp: keeps_updIO assms(2) split: option.split)
qed

lemma stays_remember:
  "stays config s0 s \<Longrightarrow> stays config s0 (s\<lparr>remembered := (remembered s)(sb_id (this s0) := q)\<rparr>)"
  by (auto simp: stays_def tidy_def)

lemma stays_place:
  assumes "stays config s0 s" and "\<And>p. q = Some p \<Longrightarrow> placement_ok config (sb_id (this s0)) p"
  shows "stays config s0 (s\<lparr>placements := (placements s)(sb_id (this s0) := q)\<rparr>)"
  using assms by (auto simp: stays_def tidy_def placements_ok_def)

lemma stays_this:
  assumes "stays config s0 s" and "sandbox_ok config sb" and "same_sandbox sb (this s)"
  shows "stays config s0 (s\<lparr>this := sb\<rparr>)"
  using assms by (auto simp: stays_def tidy_def same_sandbox_def)

lemma stays_id:
  "stays config s0 s \<Longrightarrow> sb_id (this s) = sb_id (this s0)"
  "stays config s0 s \<Longrightarrow> sb_token (this s) = sb_token (this s0)"
  "stays config s0 s \<Longrightarrow> sb_options (this s) = sb_options (this s0)"
  "stays config s0 s \<Longrightarrow> sb_attachOnly (this s) = sb_attachOnly (this s0)"
  by (auto simp: stays_def same_sandbox_def)

lemma stays_tidy: "stays config s0 s \<Longrightarrow> tidy config s"
  by (simp add: stays_def)

subsection \<open>Staying within a sandbox\<close>

text \<open>\<open>safe config s0 m F\<close>: \<open>m\<close> stays within the sandbox, and the value it returns satisfies \<open>F\<close>.\<close>

definition safe ::
  "ArmadaConfig \<Rightarrow> 'a sandbox_state_scheme \<Rightarrow> ('a, 'r) sandbox_io \<Rightarrow> ('r \<Rightarrow> bool) \<Rightarrow> bool" where
  "safe config s0 m F \<longleftrightarrow>
     triple (stays config s0) m (\<lambda>x s. stays config s0 s \<and> F x) (\<lambda>_. stays config s0)"

lemma safeI:
  assumes "\<And>s r t. stays config s0 s \<Longrightarrow> m s = (r, t) \<Longrightarrow> stays config s0 t"
    and "\<And>s x t. stays config s0 s \<Longrightarrow> m s = (Inr x, t) \<Longrightarrow> F x"
  shows "safe config s0 m F"
  unfolding safe_def by (rule tripleI) (use assms in blast)+

lemma safe_stays: "safe config s0 m F \<Longrightarrow> stays config s0 s \<Longrightarrow> m s = (r, t) \<Longrightarrow> stays config s0 t"
  unfolding safe_def by (cases r) (auto dest: triple_Inl triple_Inr)

lemma safe_value: "safe config s0 m F \<Longrightarrow> stays config s0 s \<Longrightarrow> m s = (Inr x, t) \<Longrightarrow> F x"
  unfolding safe_def by (auto dest: triple_Inr)

lemma safe_weaken: "safe config s0 m F \<Longrightarrow> (\<And>x. F x \<Longrightarrow> G x) \<Longrightarrow> safe config s0 m G"
  by (rule safeI) (auto dest: safe_stays safe_value)

lemma safe_bind:
  assumes "safe config s0 m F" and "\<And>x. F x \<Longrightarrow> safe config s0 (f x) G"
  shows "safe config s0 (bindIO m f) G"
  by (rule safeI) (use assms in \<open>auto elim!: bindIO_eqE dest: safe_stays safe_value\<close>)

lemma safe_catch:
  assumes "safe config s0 m F" and "\<And>e. safe config s0 (h e) F"
  shows "safe config s0 (catchIO m h) F"
  by (rule safeI) (use assms in \<open>auto elim!: catchIO_eqE dest: safe_stays safe_value\<close>)

lemma safe_basic [simp]:
  "F x \<Longrightarrow> safe config s0 (returnIO x) F"
  "safe config s0 (throwIO e) F"
  "(\<And>x. r = Inr x \<Longrightarrow> F x) \<Longrightarrow> safe config s0 (liftR r) F"
  "(\<And>s. stays config s0 s \<Longrightarrow> F (g s)) \<Longrightarrow> safe config s0 (getIO g) F"
  by (auto intro!: safeI simp: io_run)

lemma safe_lift: "safe config s0 (liftR r) (\<lambda>x. r = Inr x)"
  by simp

lemma safe_if [intro]:
  "(b \<Longrightarrow> safe config s0 m F) \<Longrightarrow> (\<not> b \<Longrightarrow> safe config s0 m' F) \<Longrightarrow> safe config s0 (if b then m else m') F"
  by simp

lemma safe_option [intro]:
  "(x = None \<Longrightarrow> safe config s0 m F) \<Longrightarrow> (\<And>y. x = Some y \<Longrightarrow> safe config s0 (f y) F) \<Longrightarrow>
     safe config s0 (case x of None \<Rightarrow> m | Some y \<Rightarrow> f y) F"
  by (cases x) auto

lemma stays_talks: "talks (own config (this s0)) m \<Longrightarrow> stays config s0 s \<Longrightarrow> m s = (r, t) \<Longrightarrow> stays config s0 t"
  by (rule keepsD[OF keeps_talks[OF _ stays_stable]])

lemma safe_talks:
  assumes "talks (own config (this s0)) m" and "\<And>s x t. m s = (Inr x, t) \<Longrightarrow> F x"
  shows "safe config s0 m F"
  using assms by (auto intro!: safeI dest: stays_talks)

text \<open>Reading the instance gives a record of the same sandbox, in order.\<close>

definition this_ok :: "ArmadaConfig \<Rightarrow> 'a sandbox_state_scheme \<Rightarrow> ArmadaSandbox \<Rightarrow> bool" where
  "this_ok config s0 sb \<longleftrightarrow> same_sandbox sb (this s0) \<and> sandbox_ok config sb"

lemma stays_this_ok: "stays config s0 s \<Longrightarrow> this_ok config s0 (this s)"
  by (simp add: stays_def tidy_def this_ok_def)

lemma safe_this: "safe config s0 (getIO this) (this_ok config s0)"
  by (simp add: stays_this_ok)

lemma this_ok_same:
  "this_ok config s0 sb \<Longrightarrow> sb_id sb = sb_id (this s0) \<and> sb_token sb = sb_token (this s0)
     \<and> sb_options sb = sb_options (this s0) \<and> sb_attachOnly sb = sb_attachOnly (this s0)"
  by (simp add: this_ok_def same_sandbox_def)

lemma safe_set_this:
  assumes "\<And>sb. this_ok config s0 sb \<Longrightarrow> this_ok config s0 (f sb)"
  shows "safe config s0 (set_this f) (\<lambda>_. True)"
proof (rule safeI)
  fix s r t assume s: "stays config s0 s" and run: "set_this f s = (r, t)"
  have "this_ok config s0 (f (this s))" using s by (intro assms stays_this_ok)
  then show "stays config s0 t"
    using s run stays_this[OF s] by (auto simp: set_this_def io_run this_ok_def same_sandbox_def stays_id)
qed simp

lemma safe_place:
  assumes "sid = sb_id (this s0)" and "\<And>p. q = Some p \<Longrightarrow> placement_ok config sid p"
  shows "safe config s0 (place sid q) (\<lambda>_. True)"
  using assms by (auto intro!: safeI stays_place simp: place_def io_run)

lemma safe_forget: "sid = sb_id (this s0) \<Longrightarrow> safe config s0 (forget sid) (\<lambda>_. True)"
  by (auto intro!: safeI stays_remember simp: forget_def io_run)

subsection \<open>Reaching the agent\<close>

lemma safe_queue: "safe config s0 (sandbox_queue pf config) (\<lambda>_. True)"
  unfolding sandbox_queue_def
proof (rule safe_bind[OF safe_this], rule safe_option)
  fix sb assume "this_ok config s0 sb"
  then have "sb_id sb = sb_id (this s0)" by (simp add: this_ok_same)
  then have "keeps (stays config s0) (resolve config (Some (findQueue pf config)) (sb_id sb) owner)" for owner
    by (intro keeps_resolve[OF stays_stable]) (simp add: stays_remember)
  then show "safe config s0 (resolve config (Some (findQueue pf config)) (sb_id sb) owner) (\<lambda>_. True)" for owner
    by (intro safeI) (auto dest: keepsD)
qed simp

lemma safe_submit:
  assumes "\<not> sb_attachOnly (this s0)"
  shows "safe config s0 (sandbox_submit pf config) (\<lambda>job. job_setId job = sb_id (this s0))"
  unfolding sandbox_submit_def
proof (intro safe_bind[OF safe_this] safe_bind[OF safe_lift] safe_bind[OF safe_queue])
  fix sb spec queue
  assume sb: "this_ok config s0 sb" and pod: "buildPodSpec config \<lparr>tokenSha256 = token_hash (sb_token sb)\<rparr> (sb_options sb) = Inr spec"
  have "talks (own config (this s0)) (submit pf config (sb_id sb) spec queue)"
    using pod assms this_ok_same[OF sb] by (intro own_armada client.submit) (auto simp: own_submit_def)
  then show "safe config s0 (submit pf config (sb_id sb) spec queue) (\<lambda>job. job_setId job = sb_id (this s0))"
    using this_ok_same[OF sb] by (auto intro!: safe_talks dest: submit_Inr)
qed

lemma safe_existingJob:
  "safe config s0 (existingJob pf config) (\<lambda>job. job_setId job = sb_id (this s0))"
  unfolding existingJob_def
proof (intro safe_bind[OF safe_this] safe_bind[OF safe_queue])
  fix sb queue assume sb: "this_ok config s0 sb"
  have "safe config s0 (findJob pf config (sb_id sb) queue) (\<lambda>j. \<forall>job. j = Some job \<longrightarrow> job_setId job = sb_id sb)"
    by (intro safe_talks own_client(5)) (auto dest: findJob_Inr)
  then show "safe config s0 (bindIO (findJob pf config (sb_id sb) queue)
      (\<lambda>job. case job of None \<Rightarrow> throwIO (no_job (sb_id sb) queue) | Some j \<Rightarrow> returnIO j))
      (\<lambda>job. job_setId job = sb_id (this s0))"
    using this_ok_same[OF sb] by (auto intro!: safe_bind)
qed

text \<open>What reading the address and the agent needs of the instance: its job and then its pod are known.\<close>

lemma safe_ensure_job: "safe config s0 (ensure_job pf config) (\<lambda>job. job_setId job = sb_id (this s0))"
  unfolding ensure_job_def
proof (rule safe_bind[OF safe_this], rule safe_option)
  fix sb assume sb: "this_ok config s0 sb"
  have get: "safe config s0 (if sb_attachOnly sb then existingJob pf config else sandbox_submit pf config)
      (\<lambda>job. job_setId job = sb_id (this s0))"
    using this_ok_same[OF sb] by (auto intro: safe_submit safe_existingJob)
  show "safe config s0 (bindIO (if sb_attachOnly sb then existingJob pf config else sandbox_submit pf config)
      (\<lambda>job. bindIO (set_this (\<lambda>b. b\<lparr>sb_job := Some job\<rparr>)) (\<lambda>_. returnIO job)))
      (\<lambda>job. job_setId job = sb_id (this s0))"
  proof (rule safe_bind[OF get])
    fix job :: SubmittedJob assume job: "job_setId job = sb_id (this s0)"
    then have "safe config s0 (set_this (\<lambda>b. b\<lparr>sb_job := Some job\<rparr>)) (\<lambda>_. True)"
      by (intro safe_set_this) (auto simp: this_ok_def sandbox_ok_def same_sandbox_def split: option.splits)
    then show "safe config s0 (bindIO (set_this (\<lambda>b. b\<lparr>sb_job := Some job\<rparr>)) (\<lambda>_. returnIO job))
        (\<lambda>job. job_setId job = sb_id (this s0))"
      using job by (auto intro: safe_bind)
  qed
  show "safe config s0 (returnIO job) (\<lambda>job. job_setId job = sb_id (this s0))" if "sb_job sb = Some job" for job
    using sb that by (simp add: this_ok_def sandbox_ok_def same_sandbox_def)
qed

lemma ensure_job_knows: "ensure_job pf config s = (Inr job, t) \<Longrightarrow> sb_job (this t) = Some job"
  unfolding ensure_job_def
  by (auto simp: io_run set_this_def elim!: bindIO_eqE split: option.splits)

lemma safe_take_over:
  assumes "sid = sb_id (this s0)" and "placement_ok config sid p" and "tidy config s0"
  shows "safe config s0 (take_over pf sid p) (\<lambda>_. True)"
proof -
  have token: "ep_token (pl_channel p) = sb_token (this s0)"
    using assms by (simp add: placement_ok_def tidy_def sandbox_ok_def)
  have "safe config s0 (set_this (\<lambda>b. b\<lparr>sb_job := Some (pl_job p), sb_pod := pl_pod p,
      sb_channel := Some (pl_channel p)\<rparr>)) (\<lambda>_. True)"
    using assms token
    by (intro safe_set_this) (auto simp: this_ok_def sandbox_ok_def same_sandbox_def placement_ok_def)
  moreover have "talks (own config (this s0)) (agent_ready pf (pl_channel p) 0)"
    using agent.ready token by (rule own_agent)
  ultimately show ?thesis
    unfolding take_over_def using assms(1)
    by (intro safe_catch safe_bind[where F = "\<lambda>_. True"])
      (auto intro: safe_talks[where F = "\<lambda>_. True"] safe_place)
qed

lemma triple_set_this:
  assumes "\<And>sb. this_ok config s0 sb \<Longrightarrow> K sb \<Longrightarrow> this_ok config s0 (f sb) \<and> L (f sb)"
  shows "triple (\<lambda>s. stays config s0 s \<and> K (this s)) (set_this f)
    (\<lambda>_ s. stays config s0 s \<and> L (this s)) (\<lambda>_. stays config s0)"
proof (rule tripleI)
  fix s x t assume s: "stays config s0 s \<and> K (this s)" and run: "set_this f s = (Inr x, t)"
  then have "this_ok config s0 (f (this s)) \<and> L (f (this s))" by (intro assms stays_this_ok) auto
  then show "stays config s0 t \<and> L (this t)"
    using s run stays_this[of config s0 s] by (auto simp: set_this_def io_run this_ok_def same_sandbox_def stays_id)
qed (simp add: set_this_def io_run)

lemma triple_talks_this:
  assumes "talks (own config (this s0)) m"
  shows "triple (\<lambda>s. stays config s0 s \<and> K (this s)) m (\<lambda>_ s. stays config s0 s \<and> K (this s))
    (\<lambda>_. stays config s0)"
  using triple_talks[OF assms stable_this[OF stays_stable]] by (rule triple_weaken) auto

text \<open>From here on the job is known, then the pod, and only then the channel.\<close>

abbreviation has_job :: "ArmadaSandbox \<Rightarrow> bool" where
  "has_job sb \<equiv> sb_job sb \<noteq> None"

abbreviation has_pod :: "ArmadaSandbox \<Rightarrow> bool" where
  "has_pod sb \<equiv> sb_job sb \<noteq> None \<and> sb_pod sb \<noteq> None"

lemma triple_connect:
  assumes "job_setId job = sb_id (this s0)"
  shows "triple (\<lambda>s. stays config s0 s \<and> has_pod (this s)) (connect pf job pod url)
    (\<lambda>_ s. stays config s0 s \<and> sb_channel (this s) \<noteq> None) (\<lambda>_. stays config s0)"
  unfolding connect_def Let_def
proof (rule triple_bind[OF triple_get], rule triple_assume)
  fix sb assume sb: "this_ok config s0 sb"
  let ?ep = "\<lparr>ep_url = url, ep_token = sb_token sb, ep_pod = pod\<rparr>"
  let ?p = "\<lparr>pl_job = job, pl_pod = Some pod, pl_channel = ?ep\<rparr>"
  let ?rest = "bindIO (agent_ready pf ?ep AGENT_READY_TIMEOUT_MS) (\<lambda>_.
       bindIO (set_this (\<lambda>b. b\<lparr>sb_channel := Some ?ep\<rparr>)) (\<lambda>_. place (sb_id sb) (Some ?p)))"
  have ask: "triple (\<lambda>s. stays config s0 s \<and> has_pod (this s)) (agent_ready pf ?ep AGENT_READY_TIMEOUT_MS)
      (\<lambda>_ s. stays config s0 s \<and> has_pod (this s)) (\<lambda>_. stays config s0)"
    using this_ok_same[OF sb] by (intro triple_talks_this own_agent[OF agent.ready]) simp
  have set: "triple (\<lambda>s. stays config s0 s \<and> has_pod (this s)) (set_this (\<lambda>b. b\<lparr>sb_channel := Some ?ep\<rparr>))
      (\<lambda>_ s. stays config s0 s \<and> sb_channel (this s) \<noteq> None) (\<lambda>_. stays config s0)"
    using this_ok_same[OF sb]
    by (intro triple_set_this) (auto simp: this_ok_def sandbox_ok_def same_sandbox_def)
  have p: "placement_ok config (sb_id (this s0)) ?p" "sb_id sb = sb_id (this s0)"
    using sb assms by (auto simp: placement_ok_def this_ok_def sandbox_ok_def same_sandbox_def)
  have "triple (\<lambda>s. stays config s0 s \<and> sb_channel (this s) \<noteq> None) (place (sb_id sb) (Some ?p))
      (\<lambda>_ s. stays config s0 s \<and> sb_channel (this s) \<noteq> None) (\<lambda>_. stays config s0)"
    unfolding place_def p(2) by (rule triple_update) (use p(1) in \<open>auto intro: stays_place\<close>)
  then have "triple (\<lambda>s. stays config s0 s \<and> has_pod (this s)) ?rest
      (\<lambda>_ s. stays config s0 s \<and> sb_channel (this s) \<noteq> None) (\<lambda>_. stays config s0)"
    by (rule triple_bind[OF ask triple_bind[OF set]])
  then show "triple (\<lambda>s. (stays config s0 s \<and> has_pod (this s)) \<and> sb = this s) ?rest
      (\<lambda>_ s. stays config s0 s \<and> sb_channel (this s) \<noteq> None) (\<lambda>_. stays config s0)"
    by (rule triple_weaken) auto
qed (auto intro: stays_this_ok)

lemma triple_reach:
  "triple (stays config s0) (reach pf config)
     (\<lambda>_ s. stays config s0 s \<and> sb_channel (this s) \<noteq> None) (\<lambda>_. stays config s0)"
  unfolding reach_def
proof (rule triple_bind)
  show "triple (stays config s0) (ensure_job pf config)
      (\<lambda>job s. (stays config s0 s \<and> has_job (this s)) \<and> job_setId job = sb_id (this s0)) (\<lambda>_. stays config s0)"
    by (rule tripleI) (auto dest: safe_stays[OF safe_ensure_job] safe_value[OF safe_ensure_job] ensure_job_knows)
next
  fix job :: SubmittedJob
  have set: "triple (\<lambda>s. stays config s0 s \<and> has_job (this s)) (set_this (\<lambda>b. b\<lparr>sb_pod := Some pod\<rparr>))
      (\<lambda>_ s. stays config s0 s \<and> has_pod (this s)) (\<lambda>_. stays config s0)" for pod
    by (rule triple_set_this) (auto simp: this_ok_def sandbox_ok_def same_sandbox_def split: option.splits)
  show "triple (\<lambda>s. (stays config s0 s \<and> has_job (this s)) \<and> job_setId job = sb_id (this s0))
      (bindIO (waitForRunning pf config job) (\<lambda>pod. bindIO (set_this (\<lambda>b. b\<lparr>sb_pod := Some pod\<rparr>)) (\<lambda>_.
       bindIO (portUrl pf config job (cfg_agentPort config)) (\<lambda>url. connect pf job pod url))))
      (\<lambda>_ s. stays config s0 s \<and> sb_channel (this s) \<noteq> None) (\<lambda>_. stays config s0)" (is "triple _ ?m _ _")
  proof (rule triple_assume)
    assume "job_setId job = sb_id (this s0)"
    from triple_bind[OF triple_talks_this[OF own_client(1)]
        triple_bind[OF set triple_bind[OF triple_talks_this[OF own_client(2)] triple_connect[OF this]]]]
    show "triple (\<lambda>s. (stays config s0 s \<and> has_job (this s)) \<and> job_setId job = sb_id (this s0)) ?m
      (\<lambda>_ s. stays config s0 s \<and> sb_channel (this s) \<noteq> None) (\<lambda>_. stays config s0)"
      by (rule triple_weaken) auto
  qed simp
qed

lemma triple_take_over:
  assumes "sid = sb_id (this s0)" and "placement_ok config sid p" and "tidy config s0"
  shows "triple (stays config s0) (take_over pf sid p)
    (\<lambda>taken s. stays config s0 s \<and> (taken \<longrightarrow> sb_channel (this s) \<noteq> None)) (\<lambda>_. stays config s0)"
proof (rule tripleI)
  fix s x t assume s: "stays config s0 s" and run: "take_over pf sid p s = (Inr x, t)"
  then show "stays config s0 t \<and> (x \<longrightarrow> sb_channel (this t) \<noteq> None)"
    using safe_stays[OF safe_take_over[OF assms] s run]
    by (auto simp: take_over_def io_run set_this_def elim!: catchIO_eqE bindIO_eqE)
qed (rule safe_stays[OF safe_take_over[OF assms]])

lemma triple_ready:
  assumes "tidy config s0"
  shows "triple (stays config s0) (sandbox_ready pf config)
    (\<lambda>_ s. stays config s0 s \<and> sb_channel (this s) \<noteq> None) (\<lambda>_. stays config s0)"
  unfolding sandbox_ready_def
proof (rule triple_bind[OF triple_get], rule triple_if)
  fix sb :: ArmadaSandbox
  let ?Q = "\<lambda>_ s. stays config s0 s \<and> sb_channel (this s) \<noteq> None"
  have taken: "triple (\<lambda>s. stays config s0 s \<and> (taken \<longrightarrow> sb_channel (this s) \<noteq> None))
      (if taken then returnIO () else reach pf config) ?Q (\<lambda>_. stays config s0)" for taken
    by (cases taken) (auto intro: triple_return triple_reach simp del: not_None_eq)
  have go: "triple (\<lambda>s. stays config s0 s \<and> sb_id sb = sb_id (this s0) \<and> known = placements s (sb_id sb))
      (case known of None \<Rightarrow> reach pf config
       | Some p \<Rightarrow> bindIO (take_over pf (sb_id sb) p) (\<lambda>taken. if taken then returnIO () else reach pf config))
      ?Q (\<lambda>_. stays config s0)" for known
  proof (rule triple_option)
    show "triple (\<lambda>s. stays config s0 s \<and> sb_id sb = sb_id (this s0) \<and> known = placements s (sb_id sb))
        (reach pf config) ?Q (\<lambda>_. stays config s0)"
      using triple_reach by (rule triple_weaken) auto
    fix p assume known: "known = Some p"
    show "triple (\<lambda>s. stays config s0 s \<and> sb_id sb = sb_id (this s0) \<and> known = placements s (sb_id sb))
        (bindIO (take_over pf (sb_id sb) p) (\<lambda>taken. if taken then returnIO () else reach pf config))
        ?Q (\<lambda>_. stays config s0)"
    proof (rule triple_assume)
      assume own: "sb_id sb = sb_id (this s0) \<and> placement_ok config (sb_id sb) p"
      show ?thesis
        by (rule triple_weaken[OF triple_bind[OF triple_take_over taken]]) (use own assms in auto)
    qed (use known in \<open>auto simp: stays_def tidy_def placements_ok_def\<close>)
  qed
  show "triple (\<lambda>s. stays config s0 s \<and> sb = this s)
      (bindIO (getIO (\<lambda>s. placements s (sb_id sb))) (\<lambda>known. case known of None \<Rightarrow> reach pf config
       | Some p \<Rightarrow> bindIO (take_over pf (sb_id sb) p) (\<lambda>taken. if taken then returnIO () else reach pf config)))
      ?Q (\<lambda>_. stays config s0)"
    by (rule triple_bind[OF _ go], rule triple_weaken[OF triple_get]) (auto simp: stays_id)
qed (auto intro!: triple_return)

lemma safe_ready: "tidy config s0 \<Longrightarrow> safe config s0 (sandbox_ready pf config) (\<lambda>_. True)"
  unfolding safe_def using triple_ready by (rule triple_weaken) auto

text \<open>The channel a method works with carries the instance's own token.\<close>

lemma safe_open:
  assumes "tidy config s0"
  shows "safe config s0 (sandbox_open pf config) (\<lambda>ep. ep_token ep = sb_token (this s0))"
  unfolding sandbox_open_def
proof (rule safe_bind[where F = "\<lambda>_. True"])
  fix before :: "AgentEndpoint option"
  show "safe config s0 (bindIO (if before = None then sandbox_ready pf config else returnIO ()) (\<lambda>_.
     bindIO (getIO this) (\<lambda>sb. case sb_channel sb of
         None \<Rightarrow> throwIO (err [js ''Sandbox '', sb_id sb, js '' has no agent after ready()''])
       | Some channel \<Rightarrow> returnIO channel))) (\<lambda>ep. ep_token ep = sb_token (this s0))"
    by (intro safe_bind[where F = "\<lambda>_. True"] safe_bind[OF safe_this] safe_option safe_if)
      (auto intro: safe_ready[OF assms] simp: this_ok_def sandbox_ok_def same_sandbox_def)
qed simp

text \<open>After reaching, an instance has its channel: the guards behind \<open>ready\<close> never fire.\<close>

lemma open_reached:
  assumes "tidy config s" and "sandbox_open pf config s = (Inr ep, t)"
  shows "sb_channel (this t) = Some ep"
  using assms(2) unfolding sandbox_open_def
  by (auto simp: io_run elim!: bindIO_eqE split: option.splits)

lemma open_fails:
  assumes tidy: "tidy config s" and run: "sandbox_open pf config s = (Inl e, t)"
  shows "sandbox_ready pf config s = (Inl e, t)"
proof -
  have "sb_channel (this u) \<noteq> None" if "sandbox_ready pf config s = (Inr x, u)" for x u
    using triple_Inr[OF triple_ready[OF tidy] stays_start[OF tidy] that] by simp
  then show ?thesis
    using run unfolding sandbox_open_def
    by (auto simp: io_run elim!: bindIO_eqE split: option.splits if_splits)
qed

subsection \<open>The methods\<close>

lemmas own_channel = agent.talking[THEN own_agent]

lemma safe_own: "talks (own config (this s0)) m \<Longrightarrow> safe config s0 m (\<lambda>_. True)"
  by (rule safe_talks) simp_all

lemma safe_channel: "talks (to_agent ep) m \<Longrightarrow> ep_token ep = sb_token (this s0) \<Longrightarrow> safe config s0 m (\<lambda>_. True)"
  by (intro safe_own own_agent)

lemmas safe_agent = agent.talking[THEN safe_channel]

lemma safe_any: "safe config s0 m F \<Longrightarrow> safe config s0 m (\<lambda>_. True)"
  by (erule safe_weaken) simp

lemma safe_exec:
  assumes "tidy config s0"
  shows "safe config s0 (sandbox_exec pf config cmd wait) (\<lambda>_. True)"
  unfolding sandbox_exec_def Let_def
  by (intro safe_bind[OF safe_this] safe_bind[OF safe_lift] safe_bind[OF safe_open[OF assms]] safe_catch
      safe_bind[OF safe_agent(2)]) simp_all

lemma safe_execStream:
  assumes "tidy config s0"
  shows "safe config s0 (execStream pf config stopped cmd wait) (\<lambda>_. True)"
  unfolding execStream_def
  by (intro safe_bind[OF safe_this] safe_bind[OF safe_lift] safe_bind[OF safe_open[OF assms]] safe_agent(3))

lemma safe_isPortReady:
  assumes "tidy config s0"
  shows "safe config s0 (isPortReady pf port options) (\<lambda>_. True)"
  unfolding isPortReady_def
proof (rule safe_bind[OF safe_this], rule safe_bind)
  fix sb assume sb: "this_ok config s0 sb"
  show "safe config s0 (getIO (\<lambda>s. map_option pl_channel (placements s (sb_id sb))))
      (\<lambda>known. \<forall>ep. known = Some ep \<longrightarrow> ep_token ep = sb_token (this s0))"
    using sb
    by (intro safe_basic(4)) (auto simp: stays_def tidy_def placements_ok_def placement_ok_def this_ok_def
        sandbox_ok_def same_sandbox_def)
next
  fix sb and known :: "AgentEndpoint option"
  assume sb: "this_ok config s0 sb" and known: "\<forall>ep. known = Some ep \<longrightarrow> ep_token ep = sb_token (this s0)"
  have "ep_token ep = sb_token (this s0)" if "(case sb_channel sb of Some c \<Rightarrow> Some c | None \<Rightarrow> known) = Some ep" for ep
    using that sb known by (auto simp: this_ok_def sandbox_ok_def same_sandbox_def split: option.splits)
  then show "safe config s0 (case case sb_channel sb of Some c \<Rightarrow> Some c | None \<Rightarrow> known of
         None \<Rightarrow> returnIO False
       | Some channel \<Rightarrow>
           catchIO
             (bindIO (agent_waitForPort pf channel port (of_whole PORT_READY_TIMEOUT_MS) None
                (probeOf (Some \<lparr>wait_mode = Some (or_else (Option.bind options wait_mode) Http),
                   wait_path = Option.bind options wait_path, wait_timeout = None\<rparr>)))
               (\<lambda>wait. returnIO (pw_open wait)))
             (\<lambda>_. returnIO False)) (\<lambda>_. True)"
    by (intro safe_option safe_catch safe_bind[OF safe_agent(12)]) simp_all
qed

lemma safe_readFailed: "safe config s0 (readFailed path code why) (\<lambda>_. True)"
proof -
  have "safe config s0 (console_warn line) (\<lambda>_. True)" for line
    by (rule safeI) (auto simp: console_warn_def io_run stays_def tidy_def)
  then show ?thesis
    unfolding readFailed_def by (intro safe_bind[OF safe_this] safe_bind[where F = "\<lambda>_. True"]) simp_all
qed

lemma safe_readThrough:
  assumes "tidy config s0" and "\<And>ep. ep_token ep = sb_token (this s0) \<Longrightarrow> safe config s0 (read ep) (\<lambda>_. True)"
  shows "safe config s0 (readThrough pf config path read encode) (\<lambda>_. True)"
proof -
  have "safe config s0 (bindIO (sandbox_open pf config) read) (\<lambda>_. True)"
    by (intro safe_bind[OF safe_open] assms)
  note run = safe_stays[OF this] safe_stays[OF safe_readFailed]
  show ?thesis
  proof (rule safeI)
    fix s r t assume s: "stays config s0 s" and go: "readThrough pf config path read encode s = (r, t)"
    obtain r' u where ask: "bindIO (sandbox_open pf config) read s = (r', u)" by fastforce
    note u = run(1)[OF s ask]
    show "stays config s0 t"
    proof (cases r')
      case (Inl e)
      then show ?thesis using go ask run(2)[OF u] by (simp add: readThrough_def)
    next
      case (Inr outcome)
      then show ?thesis using go ask u run(2)[OF u] by (cases outcome) (simp_all add: readThrough_def)
    qed
  qed simp
qed

lemma safe_reads:
  assumes "tidy config s0"
  shows "safe config s0 (sandbox_readFile pf config path) (\<lambda>_. True)"
    and "safe config s0 (sandbox_readFileBounded pf config path options) (\<lambda>_. True)"
  unfolding sandbox_readFile_def sandbox_readFileBounded_def using assms
  by (auto intro!: safe_if safe_readFailed safe_readThrough safe_agent)

lemma safe_listFiles:
  assumes "tidy config s0"
  shows "safe config s0 (sandbox_listFiles pf config path options) (\<lambda>_. True)"
proof -
  have "safe config s0 (bindIO (sandbox_open pf config) (\<lambda>ep. agent_listFiles pf ep path deep)) (\<lambda>_. True)" for deep
    by (intro safe_bind[OF safe_open[OF assms]] safe_agent)
  note run = safe_stays[OF this]
  show ?thesis
    unfolding sandbox_listFiles_def
    by (rule safeI) (auto split: prod.splits sum.splits ListFilesOutcome.splits dest: run)
qed

lemma run_all_stays:
  assumes "\<And>m. m \<in> set ms \<Longrightarrow> safe config s0 m (\<lambda>_. True)" and "run_all ms s = (es, t)" and "stays config s0 s"
  shows "stays config s0 t"
  using assms
proof (induction ms arbitrary: s es)
  case (Cons m ms)
  obtain r u where m: "m s = (r, u)" by fastforce
  obtain es' where rest: "run_all ms u = (es', t)" using Cons.prems(2) m by (auto split: prod.splits)
  have "stays config s0 u" using Cons.prems m by (auto intro: safe_stays[of config s0 m])
  with Cons.IH[OF _ rest] Cons.prems(1) show ?case by simp
qed simp

lemma safe_Promise_all:
  assumes "\<And>m. m \<in> set ms \<Longrightarrow> safe config s0 m (\<lambda>_. True)"
  shows "safe config s0 (Promise_all earliest ms) (\<lambda>_. True)"
  unfolding Promise_all_def
  by (rule safeI) (use run_all_stays[OF assms] in \<open>auto split: prod.splits list.splits\<close>)

lemma safe_write_batches:
  assumes "\<And>f. safe config s0 (w f) (\<lambda>_. True)"
  shows "safe config s0 (write_batches earliest w files) (\<lambda>_. True)"
  using assms
proof (induction earliest w files rule: write_batches.induct)
  case (1 earliest w files)
  then show ?case
    by (subst write_batches.simps) (auto intro!: safe_bind safe_Promise_all)
qed

lemma safe_writeFiles:
  assumes "tidy config s0"
  shows "safe config s0 (writeFiles pf config earliest files) (\<lambda>_. True)"
proof -
  have "safe config s0 (write_one pf ep f) (\<lambda>_. True)" if "ep_token ep = sb_token (this s0)" for ep f
    unfolding write_one_def using that by (intro safe_catch safe_agent) simp_all
  then show ?thesis
    unfolding writeFiles_def
    by (intro safe_if safe_bind[OF safe_open[OF assms]] safe_write_batches) simp_all
qed

lemma safe_gitCheckout:
  assumes "tidy config s0"
  shows "safe config s0 (gitCheckout pf config repo options) (\<lambda>_. True)"
  unfolding gitCheckout_def
  by (rule safe_bind[OF safe_exec[OF assms]]) (simp split: ExecResult.split)

lemma valid_env_spread:
  assumes "valid_env a" and "list_all valid_env_name (obj_keys b)"
  shows "valid_env (obj_spread a b)"
  using assms
proof (induction b arbitrary: a)
  case (Cons kv b)
  obtain k v where kv: "kv = (k, v)" by (cases kv)
  have "valid_env (obj_set k v a)"
    using Cons.prems kv keys_obj_set[of k v a] by (auto simp: valid_env_def obj_keys_def list_all_iff)
  from Cons.IH[OF this] Cons.prems kv show ?case by (simp add: obj_keys_def)
qed simp

lemma safe_setEnvVars: "safe config s0 (setEnvVars vars onlyIfUnset) (\<lambda>_. True)"
  unfolding setEnvVars_def
proof (rule safe_bind[OF safe_lift])
  fix u assume "each (\<lambda>name. bindR (assertEnvName name) (\<lambda>_. Inr ())) (obj_keys vars) = Inr u"
  then have "list_all valid_env_name (obj_keys vars)"
    by (auto simp: list_all_iff bindR_eq_Inr assertEnvName_Inr valid_env_name_def)
  then show "safe config s0 (if onlyIfUnset then set_this (\<lambda>b. b\<lparr>sb_envDefaults := obj_spread (sb_envDefaults b) vars\<rparr>)
       else set_this (\<lambda>b. b\<lparr>sb_env := obj_spread (sb_env b) vars\<rparr>)) (\<lambda>_. True)"
    by (intro safe_if safe_set_this)
      (auto simp: this_ok_def sandbox_ok_def same_sandbox_def valid_env_spread split: option.splits)
qed

lemma safe_startProcess:
  assumes "tidy config s0"
  shows "safe config s0 (sandbox_startProcess pf config cmd options)
    (\<lambda>p. ep_token (pr_channel p) = sb_token (this s0))"
  unfolding sandbox_startProcess_def Let_def
  by (intro safe_bind[OF safe_open[OF assms]] safe_bind[OF safe_this] safe_bind[OF safe_lift] safe_catch
      safe_bind[where F = "\<lambda>_. True"] safe_agent(8)) (auto intro!: safe_catch safe_agent(8))

lemma safe_exposePort:
  assumes "tidy config s0"
  shows "safe config s0 (exposePort pf config port) (\<lambda>_. True)"
  unfolding exposePort_def
  by (intro safe_bind[OF safe_ready[OF assms]] safe_bind[OF safe_this] safe_option safe_own own_client(2)) simp

lemma safe_destroy: "safe config s0 (destroy pf config) (\<lambda>_. True)"
  unfolding destroy_def
proof (rule safe_bind[OF safe_this])
  fix sb assume sb: "this_ok config s0 sb"
  have "safe config s0 (set_this (\<lambda>b. b\<lparr>sb_pod := None, sb_channel := None\<rparr>)) (\<lambda>_. True)"
    by (rule safe_set_this) (auto simp: this_ok_def sandbox_ok_def same_sandbox_def split: option.splits)
  then show "safe config s0 (bindIO (case sb_job sb of
         None \<Rightarrow> bindIO (sandbox_queue pf config) (\<lambda>queue. cancelSet pf config (sb_id sb) queue)
       | Some job \<Rightarrow> cancel pf config job) (\<lambda>_.
     bindIO (forget (sb_id sb)) (\<lambda>_. bindIO (place (sb_id sb) None) (\<lambda>_.
       set_this (\<lambda>b. b\<lparr>sb_pod := None, sb_channel := None\<rparr>))))) (\<lambda>_. True)"
    using this_ok_same[OF sb]
    by (intro safe_bind[where F = "\<lambda>_. True"] safe_option safe_forget safe_place safe_queue) (auto intro: safe_own own_client)
qed

end
