(* ===== verification/Provider.thy ===== *)
theory Provider
  imports SandboxReach
begin

section \<open>The provider and its process (\<open>src/provider.ts\<close>, \<open>src/index.ts\<close>)\<close>

text \<open>
  \<open>ArmadaCompute\<close> holds the configuration, the queues remembered and the placements, and hands out
  sandboxes; the last two are the fields of \<open>world\<close>.  A running adapter is a \<open>process_state\<close>: that world,
  every instance the host was given and every process started through one.  Each step of the process
  is one call of the host: a sandbox made or attached to, a method of one, a method of a process, an
  enumeration.  Here a call runs to its end before the next one starts; \<open>Interleaving\<close> lifts that.  The instances of one id share
  nothing but the world.
\<close>

subsection \<open>The source\<close>

record capabilities =
  multiPort :: bool
  computeProfiles :: bool
  gpuProfiles :: bool

definition capabilities_of :: "ArmadaConfig \<Rightarrow> capabilities" where
  "capabilities_of config =
     \<lparr>multiPort = cfg_surfacePorts config \<noteq> [], computeProfiles = True,
      gpuProfiles = obj_keys (cfg_gpuNodeSelectors config) \<noteq> []\<rparr>"

text \<open>The optional member \<open>listActive\<close>: absent without a Lookout.\<close>

fun remember_all :: "ActiveJob list \<Rightarrow> 'a queue_state_scheme \<Rightarrow> 'a queue_state_scheme" where
  "remember_all [] s = s"
| "remember_all (job # jobs) s = remember_all jobs (snd (remember (act_id job) (act_queue job) s))"

definition without_queue :: "ActiveJob \<Rightarrow> ActiveSandbox" where
  "without_queue job = \<lparr>as_id = act_id job, as_createdAt = act_createdAt job\<rparr>"

definition provider_listActive ::
  "ArmadaConfig \<Rightarrow>
     (nat \<Rightarrow> platform \<Rightarrow> 'a queue_state_scheme \<Rightarrow> (ActiveSandbox list result \<times> 'a queue_state_scheme) option) option" where
  "provider_listActive config =
     (if cfg_lookoutUrl config = None then None
      else Some (\<lambda>fuel pf s.
        case client_listActive fuel pf config s of
          None \<Rightarrow> None
        | Some (Inl e, t) \<Rightarrow> Some (Inl e, t)
        | Some (Inr jobs, t) \<Rightarrow> Some (Inr (map without_queue jobs), remember_all jobs t)))"

definition provider_create :: "ArmadaConfig \<Rightarrow> SandboxId \<Rightarrow> CreateSandboxOptions option \<Rightarrow> ArmadaSandbox" where
  "provider_create config sid options = new_sandbox config sid options False"

definition connectExisting :: "ArmadaConfig \<Rightarrow> SandboxId \<Rightarrow> CreateSandboxOptions option \<Rightarrow> ArmadaSandbox" where
  "connectExisting config sid options = new_sandbox config sid options True"

definition provider_proxy :: "request \<Rightarrow> response option" where
  "provider_proxy _ = None"

text \<open>\<open>manifest.create\<close>: the adapter starts with a configuration, or not at all.\<close>

definition manifest_create :: "host \<Rightarrow> env \<Rightarrow> compute_context option \<Rightarrow> (ArmadaConfig \<times> capabilities) result" where
  "manifest_create h env compute =
     bindR (readConfig h env compute) (\<lambda>config. Inr (config, capabilities_of config))"

subsection \<open>The interface of an instance\<close>

datatype call =
    Ready
  | Queue
  | IsPortReady int "WaitForPortOptions option"
  | Exec jsstring "jsnum option"
  | ExecStream bool jsstring "jsnum option"
  | ReadFile jsstring
  | ReadFileBounded jsstring BoundedReadOptions
  | ListFiles jsstring "ListFilesOptions option"
  | WriteFiles "js_error list \<Rightarrow> nat" "SandboxFileWrite list"
  | GitCheckout jsstring "git_options option"
  | SetEnvVars "jsstring obj" bool
  | MountBucket
  | UnmountBucket
  | StartProcess jsstring "StartProcessOptions option"
  | ExposePort int
  | Destroy

definition forget_value :: "('s, 'r) io \<Rightarrow> ('s, unit) io" where
  "forget_value m = bindIO m (\<lambda>_. returnIO ())"

fun perform :: "platform \<Rightarrow> ArmadaConfig \<Rightarrow> call \<Rightarrow> ('a, unit) sandbox_io" where
  "perform pf config Ready = sandbox_ready pf config"
| "perform pf config Queue = forget_value (sandbox_queue pf config)"
| "perform pf config (IsPortReady port options) = forget_value (isPortReady pf port options)"
| "perform pf config (Exec cmd wait) = forget_value (sandbox_exec pf config cmd wait)"
| "perform pf config (ExecStream stopped cmd wait) = forget_value (execStream pf config stopped cmd wait)"
| "perform pf config (ReadFile path) = forget_value (sandbox_readFile pf config path)"
| "perform pf config (ReadFileBounded path options) = forget_value (sandbox_readFileBounded pf config path options)"
| "perform pf config (ListFiles path options) = forget_value (sandbox_listFiles pf config path options)"
| "perform pf config (WriteFiles earliest files) = writeFiles pf config earliest files"
| "perform pf config (GitCheckout repo options) = gitCheckout pf config repo options"
| "perform pf config (SetEnvVars vars onlyIfUnset) = setEnvVars vars onlyIfUnset"
| "perform pf config MountBucket = mountBucket"
| "perform pf config UnmountBucket = unmountBucket"
| "perform pf config (StartProcess cmd options) = forget_value (sandbox_startProcess pf config cmd options)"
| "perform pf config (ExposePort port) = forget_value (exposePort pf config port)"
| "perform pf config Destroy = destroy pf config"

datatype process_call =
    Kill "jsstring option"
  | WaitForPort int "WaitForPortOptions option"
  | GetLogs

fun perform_process :: "platform \<Rightarrow> ArmadaProcess \<Rightarrow> process_call \<Rightarrow> ('a net_state_scheme, unit) io" where
  "perform_process pf p (Kill signal) = process_kill pf p signal"
| "perform_process pf p (WaitForPort port options) = process_waitForPort pf p port options"
| "perform_process pf p GetLogs = forget_value (getLogs pf p)"

subsection \<open>Every method stays within its sandbox\<close>

lemma safe_forget_value: "safe config s0 m F \<Longrightarrow> safe config s0 (forget_value m) (\<lambda>_. True)"
  unfolding forget_value_def by (erule safe_bind) simp

lemma safe_perform:
  assumes "tidy config s0"
  shows "safe config s0 (perform pf config c) (\<lambda>_. True)"
  by (cases c)
    (auto intro!: safe_ready safe_writeFiles safe_gitCheckout safe_setEnvVars safe_destroy assms
      simp: mountBucket_def unmountBucket_def
      intro: safe_forget_value safe_queue safe_isPortReady safe_exec safe_execStream safe_reads safe_listFiles
        safe_startProcess safe_exposePort)

lemma perform_stays:
  assumes "tidy config s" and "perform pf config c s = (r, t)"
  shows "stays config s t"
  using safe_stays[OF safe_perform[OF assms(1)] stays_start[OF assms(1)] assms(2)] .

lemma talks_perform_process: "talks (to_agent (pr_channel p)) (perform_process pf p c)"
proof (cases c)
  case (Kill signal)
  then show ?thesis by (auto simp: process_kill_def intro!: talks_catchIO agent.talking)
next
  case (WaitForPort port options)
  then show ?thesis
    by (auto simp: process_waitForPort_def logsQuietly_def Let_def intro!: talks_bindIO talks_catchIO agent.talking)
next
  case GetLogs
  then show ?thesis
    by (auto simp: getLogs_def forget_value_def intro!: talks_bindIO agent.talking)
qed

end
