(* ===== verification/Turns.thy ===== *)
theory Turns
  imports Prelude
begin

section \<open>Calls as turns of the event loop\<close>

text \<open>
  A call of an \<open>async\<close> function runs in turns: from where it is resumed to the next \<open>await\<close>, without
  interruption, and between two turns of one call others may take theirs.  A \<open>task\<close> is what is left of
  such a call: its outcome, or a next turn.  \<open>run\<close> takes the turns of a task one after another, which
  gives the operation the call is when nothing comes between; \<open>resumed\<close> lets anything happen to the state between
  them.
\<close>

subsection \<open>Tasks\<close>

datatype ('s, 'r) task =
    Settled "'r result"
  | Turn "'s \<Rightarrow> ('s, 'r) task \<times> 's"

text \<open>\<open>settle t f h\<close>: a promise followed by what happens when it is fulfilled and when it is rejected.\<close>

primrec settle ::
  "('s, 'a) task \<Rightarrow> ('a \<Rightarrow> ('s, 'b) task) \<Rightarrow> (js_error \<Rightarrow> ('s, 'b) task) \<Rightarrow> ('s, 'b) task" where
  "settle (Settled r) f h = (case r of Inl e \<Rightarrow> h e | Inr x \<Rightarrow> f x)"
| "settle (Turn g) f h = Turn (\<lambda>s. map_prod (\<lambda>t. settle t f h) id (g s))"

text \<open>An awaited operation of another component: its requests are sent in the current turn, and what follows comes
  in a later one.\<close>

definition io :: "('s, 'a) io \<Rightarrow> ('s, 'a) task" where
  "io m = Turn (\<lambda>s. case m s of (r, t) \<Rightarrow> (Settled r, t))"

text \<open>Code without an \<open>await\<close>, and then on in the same turn.\<close>

definition now :: "('s, 'a) io \<Rightarrow> ('a \<Rightarrow> ('s, 'b) task) \<Rightarrow> ('s, 'b) task" where
  "now m f = Turn (\<lambda>s. case m s of
       (Inl e, t) \<Rightarrow> (Settled (Inl e), t)
     | (Inr x, t) \<Rightarrow> (case f x of Settled r \<Rightarrow> (Settled r, t) | Turn g \<Rightarrow> g t))"

text \<open>\<open>await\<close> ends the turn even when the promise is settled already.\<close>

definition await :: "('s, 'a) task \<Rightarrow> ('a \<Rightarrow> ('s, 'b) task) \<Rightarrow> ('s, 'b) task" where
  "await t f =
     (case t of
        Settled r \<Rightarrow> Turn (\<lambda>s. (settle (Settled r) f (\<lambda>e. Settled (Inl e)), s))
      | Turn g \<Rightarrow> settle (Turn g) f (\<lambda>e. Settled (Inl e)))"

subsection \<open>Running a task alone\<close>

primrec run :: "('s, 'r) task \<Rightarrow> ('s, 'r) io" where
  "run (Settled r) = (\<lambda>s. (r, s))"
| "run (Turn g) = (\<lambda>s. case map_prod run id (g s) of (m, t) \<Rightarrow> m t)"

lemma run_Turn: "run (Turn g) s = (case g s of (k, t) \<Rightarrow> run k t)"
  by (simp split: prod.split)

lemma run_settle: "run (settle t f h) s = (case run t s of (Inl e, u) \<Rightarrow> run (h e) u | (Inr x, u) \<Rightarrow> run (f x) u)"
proof (induction t arbitrary: s)
  case (Settled r)
  then show ?case by (simp split: sum.split)
next
  case (Turn g)
  obtain k u where g: "g s = (k, u)" by fastforce
  then have "(k, u) \<in> range g" by (metis rangeI)
  from Turn.IH[OF this, of k u] show ?case by (simp add: g)
qed

declare run.simps [simp del] settle.simps [simp del]

named_theorems turns "running tasks as operations"

lemma run_Settled [turns]: "run (Settled (Inr x)) = returnIO x" "run (Settled (Inl e)) = throwIO e"
  by (simp_all add: fun_eq_iff io_run run.simps)

lemma run_io [turns]: "run (io m) = m"
  by (simp add: fun_eq_iff io_def run.simps split: prod.split)

lemma run_now [turns]: "run (now m f) = bindIO m (\<lambda>x. run (f x))"
proof
  fix s
  obtain r t where m: "m s = (r, t)" by fastforce
  show "run (now m f) s = bindIO m (\<lambda>x. run (f x)) s"
  proof (cases r)
    case (Inr x)
    then show ?thesis by (cases "f x") (simp_all add: now_def m bindIO_run run.simps split: prod.split)
  qed (simp add: now_def m bindIO_run run.simps)
qed

lemma run_await [turns]: "run (await t f) = bindIO (run t) (\<lambda>x. run (f x))"
proof
  fix s
  show "run (await t f) s = bindIO (run t) (\<lambda>x. run (f x)) s"
  proof (cases t)
    case (Settled r)
    then show ?thesis by (simp add: await_def bindIO_run run.simps settle.simps split: sum.split)
  next
    case (Turn g)
    then show ?thesis
      by (simp only: await_def task.case run_settle bindIO_run) (simp add: run.simps split: prod.split sum.split)
  qed
qed

lemma run_settle_catch [turns]:
  "run (settle t (\<lambda>x. Settled (Inr x)) h) = catchIO (run t) (\<lambda>e. run (h e))"
  by (rule ext) (simp add: run_settle catchIO_run run.simps split: prod.split sum.split)

subsection \<open>Tasks under interference\<close>

text \<open>\<open>resumed n env t\<close>: what is left of \<open>t\<close> after \<open>n\<close> turns, where the \<open>i\<close>-th turn starts in the state \<open>env i\<close>, whatever
  the others made of it.\<close>

fun resumed :: "nat \<Rightarrow> (nat \<Rightarrow> 's) \<Rightarrow> ('s, 'r) task \<Rightarrow> ('s, 'r) task" where
  "resumed 0 env t = t"
| "resumed (Suc n) env (Settled r) = Settled r"
| "resumed (Suc n) env (Turn g) = resumed n (env \<circ> Suc) (fst (g (env 0)))"

text \<open>Every call settles after finitely many turns of its own.\<close>

lemma settles: "\<exists>n r. resumed n env t = Settled r"
proof (induction t arbitrary: env)
  case (Settled r)
  have "resumed 0 env (Settled r) = Settled r" by simp
  then show ?case by blast
next
  case (Turn g)
  obtain k u where g: "g (env 0) = (k, u)" by fastforce
  then have "k \<in> Basic_BNFs.fsts (g (env 0))" by (simp add: prod_set_simps)
  with Turn obtain n r where "resumed n (env \<circ> Suc) k = Settled r" by blast
  then have "resumed (Suc n) env (Turn g) = Settled r" by (simp add: g)
  then show ?case by blast
qed

end
