(* ===== verification/SandboxTurns.thy ===== *)
theory SandboxTurns
  imports Provider Turns
begin

section \<open>The methods of a sandbox turn by turn (\<open>src/sandbox.ts\<close>, \<open>src/queues.ts\<close>)\<close>

text \<open>
  The methods again, split at their \<open>await\<close>s.  A turn of a method reads and writes the fields of the
  instance and what instances share, and ends by asking another component; what it read before an
  \<open>await\<close> may be out of date after it, so every read stands where the source has it.  Polling the
  agent, which touches neither, counts as one operation.  Run without interruption each is the
  method of \<open>Sandbox\<close>.
\<close>

subsection \<open>The source\<close>

text \<open>A read of a member of \<open>undefined\<close>, which only an interruption makes possible; the wording is the engine's.\<close>

definition undefined_read :: js_error where
  "undefined_read = JsError (js ''undefined is not an object'')"

definition resolve_task ::
  "platform \<Rightarrow> ArmadaConfig \<Rightarrow> SandboxId \<Rightarrow> SandboxOwner option \<Rightarrow> ('a queue_state_scheme, jsstring) task" where
  "resolve_task pf config sid owner =
     now (getIO (\<lambda>s. remembered s sid)) (\<lambda>known.
       case known of
         Some queue \<Rightarrow> Settled (Inr queue)
       | None \<Rightarrow>
           if \<not> queue_mapped config then Settled (Inr (cfg_queue config))
           else
             settle (io (findQueue pf config sid))
               (\<lambda>found. case found of
                  Some queue \<Rightarrow> now (remember sid queue) (\<lambda>_. Settled (Inr queue))
                | None \<Rightarrow> io (place_new config sid owner))
               (\<lambda>cause. Settled (Inl (queue_unknown sid cause))))"

definition queue_task :: "platform \<Rightarrow> ArmadaConfig \<Rightarrow> ('a sandbox_state_scheme, jsstring) task" where
  "queue_task pf config =
     now (getIO this) (\<lambda>sb.
       case sb_job sb of
         Some job \<Rightarrow> Settled (Inr (job_queue job))
       | None \<Rightarrow> resolve_task pf config (sb_id sb) (Option.bind (sb_options sb) opt_owner))"

definition submit_task :: "platform \<Rightarrow> ArmadaConfig \<Rightarrow> ('a sandbox_state_scheme, SubmittedJob) task" where
  "submit_task pf config =
     now (getIO this) (\<lambda>sb.
     now (liftR (buildPodSpec config \<lparr>tokenSha256 = token_hash (sb_token sb)\<rparr> (sb_options sb))) (\<lambda>spec.
     await (queue_task pf config) (\<lambda>queue.
       io (submit pf config (sb_id sb) spec queue))))"

definition existing_task :: "platform \<Rightarrow> ArmadaConfig \<Rightarrow> ('a sandbox_state_scheme, SubmittedJob) task" where
  "existing_task pf config =
     now (getIO this) (\<lambda>sb.
     await (queue_task pf config) (\<lambda>queue.
     await (io (findJob pf config (sb_id sb) queue)) (\<lambda>job.
       case job of None \<Rightarrow> Settled (Inl (no_job (sb_id sb) queue)) | Some j \<Rightarrow> Settled (Inr j))))"

text \<open>The last turn of \<open>ready\<close>: job and pod are read again.\<close>

definition publish :: "AgentEndpoint \<Rightarrow> ('a, unit) sandbox_io" where
  "publish channel =
     bindIO (set_this (\<lambda>b. b\<lparr>sb_channel := Some channel\<rparr>)) (\<lambda>_.
     bindIO (getIO this) (\<lambda>sb.
       case sb_job sb of
         None \<Rightarrow> throwIO undefined_read
       | Some job \<Rightarrow> place (sb_id sb) (Some \<lparr>pl_job = job, pl_pod = sb_pod sb, pl_channel = channel\<rparr>)))"

definition connect_task :: "platform \<Rightarrow> jsstring \<Rightarrow> ('a sandbox_state_scheme, unit) task" where
  "connect_task pf url =
     now (getIO this) (\<lambda>sb.
       case sb_pod sb of
         None \<Rightarrow> Settled (Inl undefined_read)
       | Some pod \<Rightarrow>
           (let channel = \<lparr>ep_url = url, ep_token = sb_token sb, ep_pod = pod\<rparr> in
            await (io (agent_ready pf channel AGENT_READY_TIMEOUT_MS)) (\<lambda>_. io (publish channel))))"

definition watch_task :: "platform \<Rightarrow> ArmadaConfig \<Rightarrow> SubmittedJob \<Rightarrow> ('a sandbox_state_scheme, unit) task" where
  "watch_task pf config job =
     await (io (waitForRunning pf config job)) (\<lambda>pod.
     now (set_this (\<lambda>b. b\<lparr>sb_pod := Some pod\<rparr>)) (\<lambda>_.
     now (getIO this) (\<lambda>sb.
       case sb_job sb of
         None \<Rightarrow> Settled (Inl undefined_read)
       | Some j \<Rightarrow> await (io (portUrl pf config j (cfg_agentPort config))) (\<lambda>url. connect_task pf url))))"

definition reach_task :: "platform \<Rightarrow> ArmadaConfig \<Rightarrow> ('a sandbox_state_scheme, unit) task" where
  "reach_task pf config =
     now (getIO this) (\<lambda>sb.
       case sb_job sb of
         Some job \<Rightarrow> watch_task pf config job
       | None \<Rightarrow>
           await (if sb_attachOnly sb then existing_task pf config else submit_task pf config) (\<lambda>job.
           now (set_this (\<lambda>b. b\<lparr>sb_job := Some job\<rparr>)) (\<lambda>_. watch_task pf config job)))"

definition ready_task :: "platform \<Rightarrow> ArmadaConfig \<Rightarrow> ('a sandbox_state_scheme, unit) task" where
  "ready_task pf config =
     now (getIO this) (\<lambda>sb.
       if sb_channel sb \<noteq> None then Settled (Inr ())
       else
         now (getIO (\<lambda>s. placements s (sb_id sb))) (\<lambda>known.
           case known of
             None \<Rightarrow> reach_task pf config
           | Some p \<Rightarrow>
               settle (io (agent_ready pf (pl_channel p) 0))
                 (\<lambda>_. io (set_this (\<lambda>b. b\<lparr>sb_job := Some (pl_job p), sb_pod := pl_pod p,
                   sb_channel := Some (pl_channel p)\<rparr>)))
                 (\<lambda>_. now (place (sb_id sb) None) (\<lambda>_. reach_task pf config))))"

definition opened :: "('a, AgentEndpoint) sandbox_io" where
  "opened =
     bindIO (getIO this) (\<lambda>sb.
       case sb_channel sb of
         None \<Rightarrow> throwIO (err [js ''Sandbox '', sb_id sb, js '' has no agent after ready()''])
       | Some channel \<Rightarrow> returnIO channel)"

definition open_task :: "platform \<Rightarrow> ArmadaConfig \<Rightarrow> ('a sandbox_state_scheme, AgentEndpoint) task" where
  "open_task pf config =
     now (getIO (sb_channel \<circ> this)) (\<lambda>before.
       if before = None then await (ready_task pf config) (\<lambda>_. io opened) else io opened)"

definition isPortReady_task ::
  "platform \<Rightarrow> int \<Rightarrow> WaitForPortOptions option \<Rightarrow> ('a sandbox_state_scheme, bool) task" where
  "isPortReady_task pf port options =
     now (getIO this) (\<lambda>sb.
     now (getIO (\<lambda>s. map_option pl_channel (placements s (sb_id sb)))) (\<lambda>known.
       case (case sb_channel sb of Some c \<Rightarrow> Some c | None \<Rightarrow> known) of
         None \<Rightarrow> Settled (Inr False)
       | Some channel \<Rightarrow>
           settle (io (agent_waitForPort pf channel port (of_whole PORT_READY_TIMEOUT_MS) None
               (probeOf (Some \<lparr>wait_mode = Some (or_else (Option.bind options wait_mode) Http),
                  wait_path = Option.bind options wait_path, wait_timeout = None\<rparr>))))
             (\<lambda>wait. Settled (Inr (pw_open wait))) (\<lambda>_. Settled (Inr False))))"

definition exec_task ::
  "platform \<Rightarrow> ArmadaConfig \<Rightarrow> jsstring \<Rightarrow> jsnum option \<Rightarrow> ('a sandbox_state_scheme, ExecResult) task" where
  "exec_task pf config cmd wait =
     now (getIO this) (\<lambda>sb.
     now (liftR (withEnvPrefix cmd (sb_env sb) (sb_envDefaults sb))) (\<lambda>command.
       let backstopMs = backstop config wait;
           deadline = (case wait of Some n \<Rightarrow> Some n | None \<Rightarrow> backstopMs)
       in settle
            (await (open_task pf config) (\<lambda>channel.
               io (agent_run pf channel (login_shell command) \<lparr>run_stdin = None, run_timeoutMs = deadline\<rparr>)))
            (\<lambda>result. Settled (Inr (toExecResult result)))
            (\<lambda>e. Settled (Inr (ExecFailure []
               (if is_timeout e \<and> backstopMs \<noteq> None
                then concat [js ''Command ran past ARMADA_COMMAND_MAX_SECONDS ('',
                  show_int (cfg_commandMaxSeconds config), js ''s) and was killed: '', cmd]
                else reason e) BACKEND_ERROR)))))"

definition execStream_task ::
  "platform \<Rightarrow> ArmadaConfig \<Rightarrow> bool \<Rightarrow> jsstring \<Rightarrow> jsnum option \<Rightarrow> ('a sandbox_state_scheme, body_stream) task" where
  "execStream_task pf config stopped cmd wait =
     await (open_task pf config) (\<lambda>channel.
     now (getIO this) (\<lambda>sb.
     now (liftR (withEnvPrefix cmd (sb_env sb) (sb_envDefaults sb))) (\<lambda>command.
       io (agent_stream pf channel stopped (login_shell command) wait))))"

definition gitCheckout_task ::
  "platform \<Rightarrow> ArmadaConfig \<Rightarrow> jsstring \<Rightarrow> git_options option \<Rightarrow> ('a sandbox_state_scheme, unit) task" where
  "gitCheckout_task pf config repo options =
     await (exec_task pf config (gitCloneCommand repo options) None) (\<lambda>result.
       case result of
         ExecSuccess _ _ \<Rightarrow> Settled (Inr ())
       | ExecFailure _ stderr _ \<Rightarrow> Settled (Inl (err [js ''git checkout failed: '', stderr])))"

definition readThrough_task ::
  "platform \<Rightarrow> ArmadaConfig \<Rightarrow> jsstring \<Rightarrow> (AgentEndpoint \<Rightarrow> ('a, ReadFileOutcome) sandbox_io)
     \<Rightarrow> (byte list \<Rightarrow> ReadFileResult) \<Rightarrow> ('a sandbox_state_scheme, ReadFileResult) task" where
  "readThrough_task pf config path read encode =
     settle (await (open_task pf config) (\<lambda>channel. io (read channel)))
       (\<lambda>outcome. case outcome of
          ReadNotFound \<Rightarrow> Settled (Inr (ReadFileFailure NOT_FOUND))
        | ReadRefused m \<Rightarrow> io (readFailed path READ_FAILED m)
        | ReadOk bytes \<Rightarrow> Settled (Inr (encode bytes)))
       (\<lambda>e. io (readFailed path BACKEND_ERROR (reason e)))"

definition readFile_task ::
  "platform \<Rightarrow> ArmadaConfig \<Rightarrow> jsstring \<Rightarrow> ('a sandbox_state_scheme, ReadFileResult) task" where
  "readFile_task pf config path =
     readThrough_task pf config path (\<lambda>channel. agent_readFile pf channel path) as_text"

definition readFileBounded_task ::
  "platform \<Rightarrow> ArmadaConfig \<Rightarrow> jsstring \<Rightarrow> BoundedReadOptions \<Rightarrow> ('a sandbox_state_scheme, ReadFileResult) task" where
  "readFileBounded_task pf config path options =
     (if \<not> isValidBudget options then
        io (readFailed path READ_FAILED
          (concat [js ''maxBytes '', num_String (maxBytes options), js '' and timeoutMs '',
            num_String (timeoutMs options), js '' are not a valid budget'']))
      else
        readThrough_task pf config path (\<lambda>channel. agent_readFileBounded pf channel path
          \<lparr>budget_maxBytes = maxBytes options, budget_timeoutMs = num_ceil (timeoutMs options)\<rparr>) as_base64)"

definition listFiles_task ::
  "platform \<Rightarrow> ArmadaConfig \<Rightarrow> jsstring \<Rightarrow> ListFilesOptions option
     \<Rightarrow> ('a sandbox_state_scheme, ListFilesResult) task" where
  "listFiles_task pf config path options =
     settle
       (await (open_task pf config)
          (\<lambda>channel. io (agent_listFiles pf channel path (Option.bind options recursive = Some True))))
       (\<lambda>listed. Settled (Inr (case listed of
          ListNotADirectory \<Rightarrow> ListFilesFailure NOT_A_DIRECTORY
        | ListRefused _ \<Rightarrow> ListFilesFailure LIST_FAILED
        | ListOk entries \<Rightarrow> ListFilesSuccess (toFileInfos entries path options))))
       (\<lambda>_. Settled (Inr (ListFilesFailure BACKEND_ERROR)))"

text \<open>The writes of a batch all send their request in the turn that starts them.\<close>

function batches_task ::
  "(js_error list \<Rightarrow> nat) \<Rightarrow> (SandboxFileWrite \<Rightarrow> ('s, unit) io) \<Rightarrow> SandboxFileWrite list \<Rightarrow> ('s, unit) task" where
  "batches_task earliest write files =
     (if files = [] then Settled (Inr ())
      else await (io (Promise_all earliest (map write (take WRITE_CONCURRENCY files)))) (\<lambda>_.
        batches_task earliest write (drop WRITE_CONCURRENCY files)))"
  by pat_completeness auto
termination
  by (relation "measure (\<lambda>(e, w, files). length files)") (auto simp: WRITE_CONCURRENCY_def)

declare batches_task.simps [simp del]

definition writeFiles_task ::
  "platform \<Rightarrow> ArmadaConfig \<Rightarrow> (js_error list \<Rightarrow> nat) \<Rightarrow> SandboxFileWrite list
     \<Rightarrow> ('a sandbox_state_scheme, unit) task" where
  "writeFiles_task pf config earliest files =
     (if files = [] then Settled (Inr ())
      else await (open_task pf config) (\<lambda>channel. batches_task earliest (write_one pf channel) files))"

definition startProcess_task ::
  "platform \<Rightarrow> ArmadaConfig \<Rightarrow> jsstring \<Rightarrow> StartProcessOptions option
     \<Rightarrow> ('a sandbox_state_scheme, ArmadaProcess) task" where
  "startProcess_task pf config cmd options =
     await (open_task pf config) (\<lambda>channel.
     now (getIO this) (\<lambda>sb.
     let processEnv = process_env (or_else (Option.bind options start_env) []) [] in
     now (liftR (bindR (withEnvPrefix cmd processEnv []) (\<lambda>inner.
         withEnvPrefix inner (sb_env sb) (sb_envDefaults sb)))) (\<lambda>command.
     settle (io (agent_startProcess pf channel (login_shell command) (Option.bind options start_cwd)))
       (\<lambda>pid. now (getIO this) (\<lambda>then'.
          Settled (Inr
            \<lparr>pr_id = or_else (Option.bind options start_processId) (js ''armada-proc-'' @ num_String pid),
             pr_command = cmd, pr_channel = channel,
             pr_where = (case sb_pod then' of None \<Rightarrow> sb_id then' | Some pod \<Rightarrow> podNamespace pod @ [47] @ podName pod),
             pr_pid = pid\<rparr>)))
       (\<lambda>e. Settled (Inl (err [js ''Starting '', [34], cmd, [34], js '' failed: '', reason e]))))))"

definition exposePort_task :: "platform \<Rightarrow> ArmadaConfig \<Rightarrow> int \<Rightarrow> ('a sandbox_state_scheme, jsstring) task" where
  "exposePort_task pf config port =
     await (ready_task pf config) (\<lambda>_.
     now (getIO this) (\<lambda>sb.
       case sb_job sb of
         None \<Rightarrow> Settled (Inl (err [js ''Sandbox '', sb_id sb, js '' has no job after ready()'']))
       | Some job \<Rightarrow> io (portUrl pf config job port)))"

definition forget_all :: "SandboxId \<Rightarrow> ('a, unit) sandbox_io" where
  "forget_all sid =
     bindIO (forget sid) (\<lambda>_.
     bindIO (place sid None) (\<lambda>_.
       set_this (\<lambda>b. b\<lparr>sb_pod := None, sb_channel := None\<rparr>)))"

definition destroy_task :: "platform \<Rightarrow> ArmadaConfig \<Rightarrow> ('a sandbox_state_scheme, unit) task" where
  "destroy_task pf config =
     now (getIO this) (\<lambda>sb.
     await (case sb_job sb of
         None \<Rightarrow> await (queue_task pf config) (\<lambda>queue. io (cancelSet pf config (sb_id sb) queue))
       | Some job \<Rightarrow> io (cancel pf config job)) (\<lambda>_.
       io (forget_all (sb_id sb))))"

subsection \<open>Alone, each is the method itself\<close>

lemma run_resolve [turns]: "run (resolve_task pf config sid owner) = resolve config (Some (findQueue pf config)) sid owner"
proof
  fix s
  show "run (resolve_task pf config sid owner) s = resolve config (Some (findQueue pf config)) sid owner s"
    by (auto simp: resolve_task_def resolve_def turns io_eval run_settle
        split: option.split prod.split sum.split)
qed

lemma run_queue [turns]: "run (queue_task pf config) = sandbox_queue pf config"
  unfolding queue_task_def sandbox_queue_def run_now
  by (intro arg_cong2[where f = bindIO] refl ext) (simp add: turns split: option.split)

lemma run_submit [turns]: "run (submit_task pf config) = sandbox_submit pf config"
  by (simp add: submit_task_def sandbox_submit_def turns)

lemma run_existing [turns]: "run (existing_task pf config) = existingJob pf config"
  unfolding existing_task_def existingJob_def turns
  by (intro arg_cong2[where f = bindIO] refl ext) (simp add: turns split: option.split)

lemma talks_this: "talks P m \<Longrightarrow> m s = (r, t) \<Longrightarrow> this t = this s"
  by (rule more_fields(3)[OF talks_more])

lemma run_connect:
  assumes "sb_pod (this s) = Some pod" and "sb_job (this s) = Some job"
  shows "run (connect_task pf url) s = connect pf job pod url s"
proof -
  let ?channel = "\<lparr>ep_url = url, ep_token = sb_token (this s), ep_pod = pod\<rparr>"
  obtain r t where ask: "agent_ready pf ?channel AGENT_READY_TIMEOUT_MS s = (r, t)" by fastforce
  note same = talks_this[OF agent.ready ask]
  show ?thesis
    using ask same assms
    by (cases r) (simp_all add: connect_task_def connect_def publish_def turns io_eval Let_def set_this_def place_def
       )
qed

lemma run_watch:
  assumes "sb_job (this s) = Some job"
  shows "run (watch_task pf config job) s =
    bindIO (waitForRunning pf config job) (\<lambda>pod.
    bindIO (set_this (\<lambda>b. b\<lparr>sb_pod := Some pod\<rparr>)) (\<lambda>_.
    bindIO (portUrl pf config job (cfg_agentPort config)) (\<lambda>url. connect pf job pod url))) s"
proof -
  obtain r t where wait: "waitForRunning pf config job s = (r, t)" by fastforce
  show ?thesis
  proof (cases r)
    case (Inl e)
    with wait show ?thesis by (simp add: watch_task_def turns io_eval)
  next
    case (Inr pod)
    let ?t = "t\<lparr>this := (this t)\<lparr>sb_pod := Some pod\<rparr>\<rparr>"
    have job: "sb_job (this ?t) = Some job" using talks_this[OF client.running wait] assms by simp
    obtain r' u where url: "portUrl pf config job (cfg_agentPort config) ?t = (r', u)" by fastforce
    have u: "this u = this ?t" using talks_this[OF client.url url] .
    show ?thesis
    proof (cases r')
      case (Inl e)
      with wait Inr url job show ?thesis by (simp add: watch_task_def turns io_eval set_this_def)
    next
      case (Inr url')
      have "run (connect_task pf url') u = connect pf job pod url' u"
        by (rule run_connect) (use u job in simp_all)
      with wait \<open>r = Inr pod\<close> url Inr job show ?thesis
        by (simp add: watch_task_def turns io_eval set_this_def)
    qed
  qed
qed

lemma run_reach [turns]: "run (reach_task pf config) = reach pf config"
proof
  fix s
  show "run (reach_task pf config) s = reach pf config s"
  proof (cases "sb_job (this s)")
    case (Some job)
    then show ?thesis
      using run_watch[OF Some] by (simp add: reach_task_def reach_def ensure_job_def turns io_eval)
  next
    case None
    let ?get = "if sb_attachOnly (this s) then existingJob pf config else sandbox_submit pf config"
    have get: "run (if sb_attachOnly (this s) then existing_task pf config else submit_task pf config) = ?get"
      by (simp add: turns)
    obtain r t where run: "?get s = (r, t)" by fastforce
    show ?thesis
    proof (cases r)
      case (Inl e)
      with run None show ?thesis
        by (simp add: reach_task_def reach_def ensure_job_def run_now run_await get io_eval)
    next
      case (Inr job)
      have "sb_job (this (t\<lparr>this := (this t)\<lparr>sb_job := Some job\<rparr>\<rparr>)) = Some job" by simp
      from run_watch[OF this] run None Inr show ?thesis
        by (simp add: reach_task_def reach_def ensure_job_def run_now run_await get io_eval set_this_def)
    qed
  qed
qed

lemma run_ready [turns]: "run (ready_task pf config) = sandbox_ready pf config"
proof
  fix s
  show "run (ready_task pf config) s = sandbox_ready pf config s"
    by (auto simp: ready_task_def sandbox_ready_def take_over_def set_this_def place_def turns io_eval run_settle
        split: option.split prod.split sum.split)
qed

lemma run_open [turns]: "run (open_task pf config) = sandbox_open pf config"
  unfolding open_task_def sandbox_open_def opened_def run_now
  by (intro arg_cong2[where f = bindIO] refl ext) (simp add: turns io_eval)

lemma run_isPortReady [turns]: "run (isPortReady_task pf port options) = isPortReady pf port options"
  unfolding isPortReady_task_def isPortReady_def run_now
  by (intro arg_cong2[where f = bindIO] refl ext)
    (auto simp: turns run_settle io_eval split: option.split prod.split sum.split)

lemma run_exec [turns]: "run (exec_task pf config cmd wait) = sandbox_exec pf config cmd wait"
  unfolding exec_task_def sandbox_exec_def run_now Let_def
  by (intro arg_cong2[where f = bindIO] refl ext)
    (auto simp: turns run_settle io_eval split: prod.split sum.split)

lemma run_execStream [turns]: "run (execStream_task pf config stopped cmd wait) = execStream pf config stopped cmd wait"
  by (simp add: execStream_task_def execStream_def turns)

lemma run_gitCheckout [turns]: "run (gitCheckout_task pf config repo options) = gitCheckout pf config repo options"
  unfolding gitCheckout_task_def gitCheckout_def run_await turns
  by (intro arg_cong2[where f = bindIO] refl ext) (simp add: turns split: ExecResult.split)

lemma run_readThrough [turns]:
  "run (readThrough_task pf config path read encode) = readThrough pf config path read encode"
  by (rule ext) (auto simp: readThrough_task_def readThrough_def run_settle turns io_run
      split: prod.split sum.split ReadFileOutcome.split)

lemma run_reads [turns]:
  "run (readFile_task pf config path) = sandbox_readFile pf config path"
  "run (readFileBounded_task pf config path options) = sandbox_readFileBounded pf config path options"
  by (simp_all add: readFile_task_def sandbox_readFile_def readFileBounded_task_def sandbox_readFileBounded_def turns)

lemma run_listFiles [turns]: "run (listFiles_task pf config path options) = sandbox_listFiles pf config path options"
  by (rule ext) (auto simp: listFiles_task_def sandbox_listFiles_def run_settle turns io_run
      split: prod.split sum.split ListFilesOutcome.split)

lemma run_batches [turns]: "run (batches_task earliest w files) = write_batches earliest w files"
proof (induction earliest w files rule: write_batches.induct)
  case (1 earliest w files)
  show ?case
  proof (cases "files = []")
    case True
    then show ?thesis by (simp add: batches_task.simps write_batches.simps turns)
  next
    case False
    with 1 show ?thesis
      by (subst batches_task.simps, subst write_batches.simps) (simp add: turns)
  qed
qed

lemma run_writeFiles [turns]: "run (writeFiles_task pf config earliest files) = writeFiles pf config earliest files"
  by (simp add: writeFiles_task_def writeFiles_def turns)

lemma run_startProcess [turns]: "run (startProcess_task pf config cmd options) = sandbox_startProcess pf config cmd options"
  unfolding startProcess_task_def sandbox_startProcess_def Let_def run_now run_await turns
  by (intro arg_cong2[where f = bindIO] refl ext)
    (auto simp: turns run_settle io_eval split: prod.split sum.split)

lemma run_exposePort [turns]: "run (exposePort_task pf config port) = exposePort pf config port"
  unfolding exposePort_task_def exposePort_def run_now run_await turns
  by (intro arg_cong2[where f = bindIO] refl ext) (simp add: turns split: option.split)

lemma run_destroy [turns]: "run (destroy_task pf config) = destroy pf config"
  unfolding destroy_task_def destroy_def run_now run_await forget_all_def turns
  by (intro arg_cong2[where f = bindIO] refl ext) (simp add: turns split: option.split)

subsection \<open>The calls of the host\<close>

text \<open>What a call leaves for the host to go on with is the process it started, if it is of that kind.\<close>

fun call_task :: "platform \<Rightarrow> ArmadaConfig \<Rightarrow> call \<Rightarrow> ('a sandbox_state_scheme, ArmadaProcess option) task" where
  "call_task pf config Ready = await (ready_task pf config) (\<lambda>_. Settled (Inr None))"
| "call_task pf config Queue = await (queue_task pf config) (\<lambda>_. Settled (Inr None))"
| "call_task pf config (IsPortReady port options) = await (isPortReady_task pf port options) (\<lambda>_. Settled (Inr None))"
| "call_task pf config (Exec cmd wait) = await (exec_task pf config cmd wait) (\<lambda>_. Settled (Inr None))"
| "call_task pf config (ExecStream stopped cmd wait) =
     await (execStream_task pf config stopped cmd wait) (\<lambda>_. Settled (Inr None))"
| "call_task pf config (ReadFile path) = await (readFile_task pf config path) (\<lambda>_. Settled (Inr None))"
| "call_task pf config (ReadFileBounded path options) =
     await (readFileBounded_task pf config path options) (\<lambda>_. Settled (Inr None))"
| "call_task pf config (ListFiles path options) = await (listFiles_task pf config path options) (\<lambda>_. Settled (Inr None))"
| "call_task pf config (WriteFiles earliest files) =
     await (writeFiles_task pf config earliest files) (\<lambda>_. Settled (Inr None))"
| "call_task pf config (GitCheckout repo options) = await (gitCheckout_task pf config repo options) (\<lambda>_. Settled (Inr None))"
| "call_task pf config (SetEnvVars vars onlyIfUnset) = await (io (setEnvVars vars onlyIfUnset)) (\<lambda>_. Settled (Inr None))"
| "call_task pf config MountBucket = await (io mountBucket) (\<lambda>_. Settled (Inr None))"
| "call_task pf config UnmountBucket = await (io unmountBucket) (\<lambda>_. Settled (Inr None))"
| "call_task pf config (StartProcess cmd options) = await (startProcess_task pf config cmd options) (\<lambda>p. Settled (Inr (Some p)))"
| "call_task pf config (ExposePort port) = await (exposePort_task pf config port) (\<lambda>_. Settled (Inr None))"
| "call_task pf config Destroy = await (destroy_task pf config) (\<lambda>_. Settled (Inr None))"

lemma perform_unit: "bindIO m returnIO = (m :: ('s, unit) io)"
  by (rule ext) (simp add: bindIO_run io_run split: prod.split sum.split)

lemma run_call: "bindIO (run (call_task pf config c)) (\<lambda>_. returnIO ()) = perform pf config c"
proof -
  have gather: "bindIO (bindIO m (\<lambda>_. returnIO None)) (\<lambda>_. returnIO ()) = bindIO m (\<lambda>_. returnIO ())"
    "bindIO (bindIO m' (\<lambda>p. returnIO (Some p))) (\<lambda>_. returnIO ()) = bindIO m' (\<lambda>_. returnIO ())"
    for m :: "('a sandbox_state_scheme, 'r) io" and m' :: "('a sandbox_state_scheme, ArmadaProcess) io"
    by (rule ext, simp add: bindIO_run io_run split: prod.split sum.split)+
  show ?thesis
    by (cases c) (simp_all add: turns gather forget_value_def perform_unit)
qed

end
