(* ===== verification/Interference.thy ===== *)
theory Interference
  imports SandboxTurns
begin

section \<open>What every turn of a sandbox's calls keeps\<close>

text \<open>
  The guarantee a call gives under interference, turn by turn.  \<open>fit\<close> is what any turn may rely on: the
  instance has its identity, its token, a job in its own job set and a channel under its own token, and so
  has every placement.  Unlike \<open>tidy\<close> it does not promise that a channel comes with a pod: a \<open>destroy\<close> that
  another call overtakes breaks that (\<open>destroy_overtaken\<close> in \<open>Interleaving\<close>).  \<open>inside\<close> is what a turn may do; a task is
  \<open>steady\<close> when each of its turns, started in any fit state whatever, stays within it.
\<close>

subsection \<open>The invariant and the guarantee\<close>

definition fit_sandbox :: "ArmadaConfig \<Rightarrow> ArmadaSandbox \<Rightarrow> bool" where
  "fit_sandbox config sb \<longleftrightarrow>
     sb_token sb = agentToken (cfg_agentTokenSecret config) (sb_id sb)
     \<and> (\<forall>job. sb_job sb = Some job \<longrightarrow> job_setId job = sb_id sb)
     \<and> (\<forall>ep. sb_channel sb = Some ep \<longrightarrow> ep_token ep = sb_token sb)"

definition fit_placement :: "ArmadaConfig \<Rightarrow> SandboxId \<Rightarrow> Placement \<Rightarrow> bool" where
  "fit_placement config sid p \<longleftrightarrow>
     job_setId (pl_job p) = sid \<and> ep_token (pl_channel p) = agentToken (cfg_agentTokenSecret config) sid"

definition fit_placements :: "ArmadaConfig \<Rightarrow> (SandboxId \<Rightarrow> Placement option) \<Rightarrow> bool" where
  "fit_placements config ps \<longleftrightarrow> (\<forall>sid p. ps sid = Some p \<longrightarrow> fit_placement config sid p)"

definition fit :: "ArmadaConfig \<Rightarrow> ArmadaSandbox \<Rightarrow> 'a sandbox_state_scheme \<Rightarrow> bool" where
  "fit config sb s \<longleftrightarrow> fit_placements config (placements s) \<and> fit_sandbox config (this s) \<and> same_sandbox (this s) sb"

definition inside :: "ArmadaConfig \<Rightarrow> ArmadaSandbox \<Rightarrow> 'a sandbox_state_scheme \<Rightarrow> 'a sandbox_state_scheme \<Rightarrow> bool" where
  "inside config sb s t \<longleftrightarrow>
     fit config sb t
     \<and> (\<exists>l. log t = log s @ l \<and> list_all (own config sb) l)
     \<and> (\<forall>sid. sid \<noteq> sb_id sb \<longrightarrow> placements t sid = placements s sid \<and> remembered t sid = remembered s sid)
     \<and> sandbox_state.more t = sandbox_state.more s"

lemma inside_refl: "fit config sb s \<Longrightarrow> inside config sb s s"
  by (simp add: inside_def)

lemma inside_trans:
  assumes "inside config sb s t" and "inside config sb t u"
  shows "inside config sb s u"
proof -
  obtain l k where "log t = log s @ l" "list_all (own config sb) l" "log u = log t @ k" "list_all (own config sb) k"
    using assms by (auto simp: inside_def)
  then have "log u = log s @ (l @ k)" "list_all (own config sb) (l @ k)" by simp_all
  with assms show ?thesis unfolding inside_def by metis
qed

subsection \<open>Operations\<close>

definition keeps_inside ::
  "ArmadaConfig \<Rightarrow> ArmadaSandbox \<Rightarrow> ('a, 'r) sandbox_io \<Rightarrow> ('r \<Rightarrow> bool) \<Rightarrow> bool" where
  "keeps_inside config sb m F \<longleftrightarrow>
     (\<forall>s r t. fit config sb s \<longrightarrow> m s = (r, t) \<longrightarrow> inside config sb s t \<and> (\<forall>x. r = Inr x \<longrightarrow> F x))"

lemma keeps_insideI:
  assumes "\<And>s r t. fit config sb s \<Longrightarrow> m s = (r, t) \<Longrightarrow> inside config sb s t"
    and "\<And>s x t. fit config sb s \<Longrightarrow> m s = (Inr x, t) \<Longrightarrow> F x"
  shows "keeps_inside config sb m F"
  using assms unfolding keeps_inside_def by blast

lemma keeps_insideD:
  assumes "keeps_inside config sb m F" and "fit config sb s" and "m s = (r, t)"
  shows "inside config sb s t" and "r = Inr x \<Longrightarrow> F x"
  using assms unfolding keeps_inside_def by blast+

lemma keeps_inside_bind:
  assumes "keeps_inside config sb m F" and "\<And>x. F x \<Longrightarrow> keeps_inside config sb (f x) G"
  shows "keeps_inside config sb (bindIO m f) G"
proof (rule keeps_insideI)
  have "inside config sb s t \<and> (\<forall>x. r = Inr x \<longrightarrow> G x)" if s: "fit config sb s" and run: "bindIO m f s = (r, t)" for s r t
    using run
  proof (cases rule: bindIO_eqE)
    case (throws e)
    with keeps_insideD[OF assms(1) s] show ?thesis by blast
  next
    case (goes_on x s')
    have s': "inside config sb s s'" "F x" using keeps_insideD[OF assms(1) s goes_on(1)] by blast+
    then have "fit config sb s'" by (simp add: inside_def)
    from keeps_insideD[OF assms(2)[OF s'(2)] this goes_on(2)] s'(1) show ?thesis by (blast intro: inside_trans)
  qed
  then show "\<And>s r t. fit config sb s \<Longrightarrow> bindIO m f s = (r, t) \<Longrightarrow> inside config sb s t"
    "\<And>s x t. fit config sb s \<Longrightarrow> bindIO m f s = (Inr x, t) \<Longrightarrow> G x" by blast+
qed

lemma keeps_inside_basic [intro]:
  "F x \<Longrightarrow> keeps_inside config sb (returnIO x) F"
  "keeps_inside config sb (throwIO e) F"
  "(\<And>x. r = Inr x \<Longrightarrow> F x) \<Longrightarrow> keeps_inside config sb (liftR r) F"
  "(\<And>s. fit config sb s \<Longrightarrow> F (g s)) \<Longrightarrow> keeps_inside config sb (getIO g) F"
  by (auto intro!: keeps_insideI simp: io_run inside_refl)

lemma keeps_inside_talks:
  assumes "talks (own config sb) m" and "\<And>s x t. m s = (Inr x, t) \<Longrightarrow> F x"
  shows "keeps_inside config sb m F"
proof (rule keeps_insideI)
  fix s r t assume s: "fit config sb s" and run: "m s = (r, t)"
  obtain l where l: "log t = log s @ l" "list_all (own config sb) l" "net_state.more t = net_state.more s"
    using assms(1) run by (rule talksE)
  with s show "inside config sb s t"
    using more_fields[OF l(3)] by (auto simp: inside_def fit_def)
qed (rule assms(2))

definition mine :: "ArmadaConfig \<Rightarrow> ArmadaSandbox \<Rightarrow> ArmadaSandbox \<Rightarrow> bool" where
  "mine config sb b \<longleftrightarrow> fit_sandbox config b \<and> same_sandbox b sb"

lemma mine_same:
  "mine config sb b \<Longrightarrow> sb_id b = sb_id sb \<and> sb_token b = sb_token sb \<and> sb_options b = sb_options sb
     \<and> sb_attachOnly b = sb_attachOnly sb"
  by (simp add: mine_def same_sandbox_def)

lemma keeps_inside_this: "keeps_inside config sb (getIO this) (mine config sb)"
  by (rule keeps_inside_basic) (simp add: fit_def mine_def)

lemma keeps_inside_set_this:
  assumes "\<And>b. mine config sb b \<Longrightarrow> mine config sb (f b)"
  shows "keeps_inside config sb (set_this f) (\<lambda>_. True)"
proof (rule keeps_insideI)
  fix s r t assume s: "fit config sb s" and run: "set_this f s = (r, t)"
  then have "mine config sb (f (this s))" by (intro assms) (simp add: fit_def mine_def)
  with s run show "inside config sb s t" by (auto simp: set_this_def io_run inside_def fit_def mine_def)
qed simp

lemma keeps_inside_place:
  assumes "sid = sb_id sb" and "\<And>p. q = Some p \<Longrightarrow> fit_placement config sid p"
  shows "keeps_inside config sb (place sid q) (\<lambda>_. True)"
  using assms by (auto intro!: keeps_insideI simp: place_def io_run inside_def fit_def fit_placements_def)

lemma keeps_inside_remembered:
  "sid = sb_id sb \<Longrightarrow> keeps_inside config sb (remember sid q) (\<lambda>_. True)"
  "sid = sb_id sb \<Longrightarrow> keeps_inside config sb (forget sid) (\<lambda>_. True)"
  by (auto intro!: keeps_insideI simp: remember_def forget_def io_run inside_def fit_def)

subsection \<open>Tasks\<close>

inductive steady ::
  "ArmadaConfig \<Rightarrow> ArmadaSandbox \<Rightarrow> ('r \<Rightarrow> bool) \<Rightarrow> ('a sandbox_state_scheme, 'r) task \<Rightarrow> bool"
  for config :: ArmadaConfig and sb :: ArmadaSandbox and F :: "'r \<Rightarrow> bool" where
  settled: "(\<And>x. r = Inr x \<Longrightarrow> F x) \<Longrightarrow> steady config sb F (Settled r)"
| turn: "(\<And>s. fit config sb s \<Longrightarrow> inside config sb s (snd (g s)) \<and> steady config sb F (fst (g s))) \<Longrightarrow>
    steady config sb F (Turn g)"

inductive_cases steady_SettledE: "steady config sb F (Settled r)"
inductive_cases steady_TurnE: "steady config sb F (Turn g)"

lemma steady_Settled [simp]: "steady config sb F (Settled r) \<longleftrightarrow> (\<forall>x. r = Inr x \<longrightarrow> F x)"
  by (auto intro: steady.settled elim: steady_SettledE)

lemma steady_next:
  assumes "steady config sb F (Turn g)" and "fit config sb s" and "g s = (k, t)"
  shows "inside config sb s t" and "steady config sb F k"
  using assms by (auto elim!: steady_TurnE dest: spec[of _ s])

lemma steady_settle:
  assumes "steady config sb F t" and "\<And>x. F x \<Longrightarrow> steady config sb G (f x)" and "\<And>e. steady config sb G (h e)"
  shows "steady config sb G (settle t f h)"
  using assms(1)
proof induction
  case (settled r)
  then show ?case using assms(2,3) by (cases r) (simp_all add: settle.simps)
next
  case (turn g)
  then show ?case by (auto simp: settle.simps intro!: steady.turn split: prod.split)
qed

lemma steady_io: "keeps_inside config sb m F \<Longrightarrow> steady config sb F (io m)"
  unfolding io_def
  by (rule steady.turn) (auto dest: keeps_insideD split: prod.split)

lemma steady_now:
  assumes "keeps_inside config sb m F" and "\<And>x. F x \<Longrightarrow> steady config sb G (f x)"
  shows "steady config sb G (now m f)"
  unfolding now_def
proof (rule steady.turn)
  fix s :: "'a sandbox_state_scheme" assume s: "fit config sb s"
  obtain r t where m: "m s = (r, t)" by fastforce
  note t = keeps_insideD[OF assms(1) s m]
  show "inside config sb s (snd (case m s of (Inl e, t) \<Rightarrow> (Settled (Inl e), t)
      | (Inr x, t) \<Rightarrow> (case f x of Settled r \<Rightarrow> (Settled r, t) | Turn g \<Rightarrow> g t)))
    \<and> steady config sb G (fst (case m s of (Inl e, t) \<Rightarrow> (Settled (Inl e), t)
      | (Inr x, t) \<Rightarrow> (case f x of Settled r \<Rightarrow> (Settled r, t) | Turn g \<Rightarrow> g t)))"
  proof (cases r)
    case (Inl e)
    with t show ?thesis by (simp add: m)
  next
    case (Inr x)
    with t have go: "steady config sb G (f x)" "fit config sb t" using assms(2) by (simp_all add: inside_def)
    show ?thesis
    proof (cases "f x")
      case (Settled r')
      with t Inr go show ?thesis by (simp add: m)
    next
      case (Turn g)
      obtain k u where g: "g t = (k, u)" by fastforce
      from steady_next[OF go(1)[unfolded Turn] go(2) g] t(1) show ?thesis
        by (simp add: m Inr Turn g) (blast intro: inside_trans)
    qed
  qed
qed

lemma steady_await:
  assumes "steady config sb F t" and "\<And>x. F x \<Longrightarrow> steady config sb G (f x)"
  shows "steady config sb G (await t f)"
proof -
  have "steady config sb G (settle t f (\<lambda>e. Settled (Inl e)))"
    by (rule steady_settle[OF assms(1)]) (simp_all add: assms(2))
  then show ?thesis by (auto simp: await_def inside_refl intro!: steady.turn split: task.split)
qed

lemma steady_if: "(b \<Longrightarrow> steady config sb F t) \<Longrightarrow> (\<not> b \<Longrightarrow> steady config sb F u) \<Longrightarrow> steady config sb F (if b then t else u)"
  by simp

lemma steady_option:
  "(x = None \<Longrightarrow> steady config sb F t) \<Longrightarrow> (\<And>y. x = Some y \<Longrightarrow> steady config sb F (f y)) \<Longrightarrow>
     steady config sb F (case x of None \<Rightarrow> t | Some y \<Rightarrow> f y)"
  by (cases x) auto

lemma steady_weaken:
  assumes "steady config sb F t" and "\<And>x. F x \<Longrightarrow> G x"
  shows "steady config sb G t"
  using assms(1) by induction (auto intro!: steady.intros assms(2))

end
