(* ===== verification/Steady.thy ===== *)
theory Steady
  imports Interference
begin

section \<open>Every call of a sandbox is steady\<close>

text \<open>
  Method by method, in the order of the source: each turn relies only on what holds of any fit state.
\<close>

lemmas inside_own = keeps_inside_talks[where F = "\<lambda>_. True", OF _ TrueI]

lemma inside_agent:
  "talks (to_agent ep) m \<Longrightarrow> ep_token ep = sb_token sb \<Longrightarrow> keeps_inside config sb m (\<lambda>_. True)"
  by (intro inside_own own_agent)

lemmas inside_channel = agent.talking[THEN inside_agent]

lemma steady_any: "steady config sb F t \<Longrightarrow> steady config sb (\<lambda>_. True) t"
  by (erule steady_weaken) simp

lemma mine_token: "mine config sb b \<Longrightarrow> sb_token sb = agentToken (cfg_agentTokenSecret config) (sb_id sb)"
  by (auto simp: mine_def fit_sandbox_def same_sandbox_def)

lemma inside_lift: "keeps_inside config sb (liftR r) (\<lambda>x. r = Inr x)"
  by (rule keeps_inside_basic) simp

subsection \<open>Reaching the agent\<close>

lemma steady_resolve:
  assumes "sid = sb_id sb"
  shows "steady config sb (\<lambda>_. True) (resolve_task pf config sid owner)"
proof -
  have "keeps_inside config sb (place_new config sid owner) (\<lambda>_. True)"
    unfolding place_new_def Let_def
    by (intro keeps_inside_bind[OF keeps_inside_remembered(1)[OF assms]]) auto
  then have place: "steady config sb (\<lambda>_. True) (io (place_new config sid owner))" by (rule steady_io)
  have known: "steady config sb (\<lambda>_. True) (now (remember sid queue) (\<lambda>_. Settled (Inr queue)))" for queue
    by (rule steady_now[OF keeps_inside_remembered(1)[OF assms]]) simp
  have ask: "steady config sb (\<lambda>_. True) (io (findQueue pf config sid))"
    by (intro steady_io inside_own own_client(6))
  show ?thesis
    unfolding resolve_task_def
    by (rule steady_now[where F = "\<lambda>_. True"])
      (auto intro!: steady_settle[OF ask] steady_if place known split: option.split)
qed

lemma steady_queue: "steady config sb (\<lambda>_. True) (queue_task pf config)"
  unfolding queue_task_def
  by (rule steady_now[OF keeps_inside_this]) (auto intro!: steady_resolve dest: mine_same split: option.split)

lemma steady_submit:
  assumes "\<not> sb_attachOnly sb"
  shows "steady config sb (\<lambda>job. job_setId job = sb_id sb) (submit_task pf config)"
  unfolding submit_task_def
proof (rule steady_now[OF keeps_inside_this], rule steady_now[OF inside_lift])
  fix b spec assume b: "mine config sb b"
    and pod: "buildPodSpec config \<lparr>tokenSha256 = token_hash (sb_token b)\<rparr> (sb_options b) = Inr spec"
  have "talks (own config sb) (submit pf config (sb_id b) spec queue)" for queue
    using pod assms mine_same[OF b] by (intro own_armada client.submit) (auto simp: own_submit_def)
  then have "keeps_inside config sb (submit pf config (sb_id b) spec queue) (\<lambda>job. job_setId job = sb_id sb)" for queue
    using mine_same[OF b] by (auto intro!: keeps_inside_talks dest: submit_Inr)
  then show "steady config sb (\<lambda>job. job_setId job = sb_id sb)
      (await (queue_task pf config) (\<lambda>queue. io (submit pf config (sb_id b) spec queue)))"
    by (intro steady_await[OF steady_queue] steady_io)
qed

lemma steady_existing: "steady config sb (\<lambda>job. job_setId job = sb_id sb) (existing_task pf config)"
  unfolding existing_task_def
proof (rule steady_now[OF keeps_inside_this], rule steady_await[OF steady_queue], rule steady_await, rule steady_io)
  fix b queue assume b: "mine config sb b"
  show "keeps_inside config sb (findJob pf config (sb_id b) queue) (\<lambda>j. \<forall>job. j = Some job \<longrightarrow> job_setId job = sb_id b)"
    by (intro keeps_inside_talks own_client(5)) (auto dest: findJob_Inr)
  fix j :: "SubmittedJob option" assume "\<forall>job. j = Some job \<longrightarrow> job_setId job = sb_id b"
  then show "steady config sb (\<lambda>job. job_setId job = sb_id sb)
      (case j of None \<Rightarrow> Settled (Inl (no_job (sb_id b) queue)) | Some job \<Rightarrow> Settled (Inr job))"
    using mine_same[OF b] by (simp split: option.split)
qed

lemma inside_publish:
  assumes "ep_token ep = sb_token sb"
  shows "keeps_inside config sb (publish ep) (\<lambda>_. True)"
  unfolding publish_def
proof (rule keeps_inside_bind)
  show "keeps_inside config sb (set_this (\<lambda>b. b\<lparr>sb_channel := Some ep\<rparr>)) (\<lambda>_. True)"
    using assms by (intro keeps_inside_set_this) (auto simp: mine_def fit_sandbox_def same_sandbox_def)
  show "keeps_inside config sb (bindIO (getIO this) (\<lambda>b. case sb_job b of None \<Rightarrow> throwIO undefined_read
      | Some job \<Rightarrow> place (sb_id b) (Some \<lparr>pl_job = job, pl_pod = sb_pod b, pl_channel = ep\<rparr>))) (\<lambda>_. True)"
  proof (rule keeps_inside_bind[OF keeps_inside_this])
    fix b assume b: "mine config sb b"
    then have "fit_placement config (sb_id b) \<lparr>pl_job = job, pl_pod = sb_pod b, pl_channel = ep\<rparr>" if "sb_job b = Some job" for job
      using that assms by (auto simp: fit_placement_def mine_def fit_sandbox_def same_sandbox_def)
    then show "keeps_inside config sb (case sb_job b of None \<Rightarrow> throwIO undefined_read
      | Some job \<Rightarrow> place (sb_id b) (Some \<lparr>pl_job = job, pl_pod = sb_pod b, pl_channel = ep\<rparr>)) (\<lambda>_. True)"
      using mine_same[OF b] by (auto intro!: keeps_inside_place split: option.split)
  qed
qed

lemma steady_connect: "steady config sb (\<lambda>_. True) (connect_task pf url)"
  unfolding connect_task_def Let_def
  by (rule steady_now[OF keeps_inside_this])
    (auto intro!: steady_await[where F = "\<lambda>_. True"] steady_io inside_channel(1) inside_publish dest: mine_same
      split: option.split)

lemma steady_watch: "steady config sb (\<lambda>_. True) (watch_task pf config job)"
proof -
  have set: "keeps_inside config sb (set_this (\<lambda>b. b\<lparr>sb_pod := Some pod\<rparr>)) (\<lambda>_. True)" for pod
    by (intro keeps_inside_set_this) (auto simp: mine_def fit_sandbox_def same_sandbox_def)
  show ?thesis
    unfolding watch_task_def
    by (intro steady_await[OF steady_io[OF inside_own[OF own_client(1)]]] steady_now[OF set] steady_now[OF keeps_inside_this]
        steady_option steady_await[OF steady_io[OF inside_own[OF own_client(2)]]] steady_connect) simp
qed

lemma steady_reach: "steady config sb (\<lambda>_. True) (reach_task pf config)"
proof -
  have get: "steady config sb (\<lambda>job. job_setId job = sb_id sb)
      (if sb_attachOnly b then existing_task pf config else submit_task pf config)" if "mine config sb b" for b
    using mine_same[OF that] by (auto intro: steady_existing steady_submit)
  have set: "keeps_inside config sb (set_this (\<lambda>b. b\<lparr>sb_job := Some job\<rparr>)) (\<lambda>_. True)" if "job_setId job = sb_id sb" for job
    using that by (intro keeps_inside_set_this) (auto simp: mine_def fit_sandbox_def same_sandbox_def)
  show ?thesis
    unfolding reach_task_def
    by (rule steady_now[OF keeps_inside_this], rule steady_option, rule steady_await[OF get], assumption,
        rule steady_now[OF set], assumption) (rule steady_watch)+
qed

lemma steady_ready: "steady config sb (\<lambda>_. True) (ready_task pf config)"
  unfolding ready_task_def
proof (rule steady_now[OF keeps_inside_this], rule steady_if, simp)
  fix b assume b: "mine config sb b"
  have known: "keeps_inside config sb (getIO (\<lambda>s. placements s (sb_id b))) (\<lambda>k. \<forall>p. k = Some p \<longrightarrow> fit_placement config (sb_id b) p)"
    by (intro keeps_inside_basic(4)) (simp add: fit_def fit_placements_def)
  show "steady config sb (\<lambda>_. True) (now (getIO (\<lambda>s. placements s (sb_id b))) (\<lambda>known. case known of
      None \<Rightarrow> reach_task pf config
    | Some p \<Rightarrow> settle (io (agent_ready pf (pl_channel p) 0))
        (\<lambda>_. io (set_this (\<lambda>b. b\<lparr>sb_job := Some (pl_job p), sb_pod := pl_pod p, sb_channel := Some (pl_channel p)\<rparr>)))
        (\<lambda>_. now (place (sb_id b) None) (\<lambda>_. reach_task pf config))))"
  proof (rule steady_now[OF known], rule steady_option, rule steady_reach)
    fix k p assume "\<forall>p. k = Some p \<longrightarrow> fit_placement config (sb_id b) p" and "k = Some p"
    then have p: "job_setId (pl_job p) = sb_id sb" "ep_token (pl_channel p) = sb_token sb"
      using mine_same[OF b] mine_token[OF b] by (simp_all add: fit_placement_def)
    have over: "keeps_inside config sb (set_this (\<lambda>b. b\<lparr>sb_job := Some (pl_job p), sb_pod := pl_pod p,
        sb_channel := Some (pl_channel p)\<rparr>)) (\<lambda>_. True)"
      using p by (intro keeps_inside_set_this) (auto simp: mine_def fit_sandbox_def same_sandbox_def)
    have drop: "keeps_inside config sb (place (sb_id b) None) (\<lambda>_. True)"
      using mine_same[OF b] by (intro keeps_inside_place) simp_all
    show "steady config sb (\<lambda>_. True) (settle (io (agent_ready pf (pl_channel p) 0))
        (\<lambda>_. io (set_this (\<lambda>b. b\<lparr>sb_job := Some (pl_job p), sb_pod := pl_pod p, sb_channel := Some (pl_channel p)\<rparr>)))
        (\<lambda>_. now (place (sb_id b) None) (\<lambda>_. reach_task pf config)))"
      by (intro steady_settle[OF steady_io[OF inside_channel(1)[OF p(2)]]] steady_io[OF over]
          steady_now[OF drop] steady_reach)
  qed
qed

lemma steady_open: "steady config sb (\<lambda>ep. ep_token ep = sb_token sb) (open_task pf config)"
proof -
  have "keeps_inside config sb opened (\<lambda>ep. ep_token ep = sb_token sb)"
    unfolding opened_def
    by (rule keeps_inside_bind[OF keeps_inside_this])
      (auto simp: mine_def fit_sandbox_def same_sandbox_def split: option.split)
  then show ?thesis
    unfolding open_task_def
    by (intro steady_now[where F = "\<lambda>_. True"] steady_if steady_await[OF steady_ready] steady_io keeps_inside_basic) simp_all
qed

subsection \<open>The methods\<close>

lemma steady_with_channel:
  assumes "\<And>ep. ep_token ep = sb_token sb \<Longrightarrow> keeps_inside config sb (m ep) (\<lambda>_. True)"
  shows "steady config sb (\<lambda>_. True) (await (open_task pf config) (\<lambda>ep. io (m ep)))"
  by (intro steady_await[OF steady_open] steady_io assms)

lemma steady_isPortReady: "steady config sb (\<lambda>_. True) (isPortReady_task pf port options)"
  unfolding isPortReady_task_def
proof (rule steady_now[OF keeps_inside_this], rule steady_now)
  fix b assume b: "mine config sb b"
  show "keeps_inside config sb (getIO (\<lambda>s. map_option pl_channel (placements s (sb_id b))))
      (\<lambda>known. \<forall>ep. known = Some ep \<longrightarrow> ep_token ep = sb_token sb)"
    using mine_same[OF b] mine_token[OF b]
    by (intro keeps_inside_basic(4)) (auto simp: fit_def fit_placements_def fit_placement_def)
  fix known :: "AgentEndpoint option" assume "\<forall>ep. known = Some ep \<longrightarrow> ep_token ep = sb_token sb"
  then have "ep_token ep = sb_token sb" if "(case sb_channel b of Some c \<Rightarrow> Some c | None \<Rightarrow> known) = Some ep" for ep
    using that b by (auto simp: mine_def fit_sandbox_def same_sandbox_def split: option.splits)
  then show "steady config sb (\<lambda>_. True) (case case sb_channel b of Some c \<Rightarrow> Some c | None \<Rightarrow> known of
      None \<Rightarrow> Settled (Inr False)
    | Some channel \<Rightarrow>
        settle (io (agent_waitForPort pf channel port (of_whole PORT_READY_TIMEOUT_MS) None
            (probeOf (Some \<lparr>wait_mode = Some (or_else (Option.bind options wait_mode) Http),
               wait_path = Option.bind options wait_path, wait_timeout = None\<rparr>))))
          (\<lambda>wait. Settled (Inr (pw_open wait))) (\<lambda>_. Settled (Inr False)))"
    by (intro steady_option steady_settle[OF steady_io[OF inside_channel(12)]]) simp_all
qed

lemma steady_exec: "steady config sb (\<lambda>_. True) (exec_task pf config cmd wait)"
  unfolding exec_task_def Let_def
  by (intro steady_now[OF keeps_inside_this] steady_now[OF inside_lift] steady_settle[OF steady_with_channel] inside_channel(2))
    simp_all

lemma steady_execStream: "steady config sb (\<lambda>_. True) (execStream_task pf config stopped cmd wait)"
  unfolding execStream_task_def
  by (intro steady_await[OF steady_open] steady_now[OF keeps_inside_this] steady_now[OF inside_lift] steady_io inside_channel(3))

lemma steady_gitCheckout: "steady config sb (\<lambda>_. True) (gitCheckout_task pf config repo options)"
  unfolding gitCheckout_task_def
  by (rule steady_await[OF steady_exec]) (simp split: ExecResult.split)

lemma inside_readFailed: "keeps_inside config sb (readFailed path code why) (\<lambda>_. True)"
proof -
  have "keeps_inside config sb (console_warn line) (\<lambda>_. True)" for line
    by (rule keeps_insideI) (auto simp: console_warn_def io_run inside_def fit_def)
  then show ?thesis
    unfolding readFailed_def by (intro keeps_inside_bind[OF keeps_inside_this] keeps_inside_bind[where F = "\<lambda>_. True"]) auto
qed

lemma steady_readThrough:
  assumes "\<And>ep. ep_token ep = sb_token sb \<Longrightarrow> keeps_inside config sb (read ep) (\<lambda>_. True)"
  shows "steady config sb (\<lambda>_. True) (readThrough_task pf config path read encode)"
  unfolding readThrough_task_def
  by (rule steady_settle[OF steady_with_channel[OF assms]])
    (auto intro: steady_io inside_readFailed split: ReadFileOutcome.split)

lemma steady_reads:
  "steady config sb (\<lambda>_. True) (readFile_task pf config path)"
  "steady config sb (\<lambda>_. True) (readFileBounded_task pf config path options)"
  unfolding readFile_task_def readFileBounded_task_def
  by (auto intro!: steady_readThrough steady_io inside_readFailed inside_channel)

lemma steady_listFiles: "steady config sb (\<lambda>_. True) (listFiles_task pf config path options)"
  unfolding listFiles_task_def
  by (rule steady_settle[OF steady_with_channel[OF inside_channel(7)]]) simp_all

lemma run_all_inside:
  assumes "\<And>m. m \<in> set ms \<Longrightarrow> keeps_inside config sb m (\<lambda>_. True)" and "run_all ms s = (es, t)" and "fit config sb s"
  shows "inside config sb s t"
  using assms
proof (induction ms arbitrary: s es)
  case Nil
  then show ?case by (simp add: inside_refl)
next
  case (Cons m ms)
  obtain r u where m: "m s = (r, u)" by fastforce
  obtain es' where rest: "run_all ms u = (es', t)" using Cons.prems(2) m by (auto split: prod.splits)
  have u: "inside config sb s u" using Cons.prems(1,3) m by (auto dest: keeps_insideD)
  then have "fit config sb u" by (simp add: inside_def)
  with Cons.IH[OF _ rest] Cons.prems(1) u show ?case by (auto intro: inside_trans)
qed

lemma inside_Promise_all:
  assumes "\<And>m. m \<in> set ms \<Longrightarrow> keeps_inside config sb m (\<lambda>_. True)"
  shows "keeps_inside config sb (Promise_all earliest ms) (\<lambda>_. True)"
  unfolding Promise_all_def
  by (rule keeps_insideI) (use run_all_inside[OF assms] in \<open>auto split: prod.splits list.splits\<close>)

lemma steady_batches:
  assumes "\<And>f. keeps_inside config sb (w f) (\<lambda>_. True)"
  shows "steady config sb (\<lambda>_. True) (batches_task earliest w files)"
  using assms
proof (induction earliest w files rule: batches_task.induct)
  case (1 earliest w files)
  show ?case
  proof (cases "files = []")
    case False
    have "keeps_inside config sb (Promise_all earliest (map w (take WRITE_CONCURRENCY files))) (\<lambda>_. True)"
      by (rule inside_Promise_all) (auto simp: 1(2))
    from steady_await[OF steady_io[OF this] 1(1)[OF False 1(2)]] False show ?thesis
      by (subst batches_task.simps) simp
  qed (simp add: batches_task.simps)
qed

lemma steady_writeFiles: "steady config sb (\<lambda>_. True) (writeFiles_task pf config earliest files)"
proof -
  have "talks (to_agent ep) (write_one pf ep f)" for ep f
    unfolding write_one_def by (intro talks_catchIO agent.talking talks_basic)
  then have "keeps_inside config sb (write_one pf ep f) (\<lambda>_. True)" if "ep_token ep = sb_token sb" for ep f
    using that by (rule inside_agent)
  then show ?thesis
    unfolding writeFiles_task_def
    by (intro steady_if steady_await[OF steady_open] steady_batches) simp_all
qed

lemma steady_startProcess:
  "steady config sb (\<lambda>p. ep_token (pr_channel p) = sb_token sb) (startProcess_task pf config cmd options)"
  unfolding startProcess_task_def Let_def
  by (intro steady_await[OF steady_open] steady_now[OF keeps_inside_this] steady_now[OF inside_lift]
      steady_settle[OF steady_io[OF inside_channel(8)]]) simp_all

lemma steady_exposePort: "steady config sb (\<lambda>_. True) (exposePort_task pf config port)"
  unfolding exposePort_task_def
  by (intro steady_await[OF steady_ready] steady_now[OF keeps_inside_this] steady_option steady_io inside_own own_client(2)) simp

lemma steady_destroy: "steady config sb (\<lambda>_. True) (destroy_task pf config)"
  unfolding destroy_task_def
proof (rule steady_now[OF keeps_inside_this], rule steady_await)
  fix b assume b: "mine config sb b"
  have "keeps_inside config sb (set_this (\<lambda>b. b\<lparr>sb_pod := None, sb_channel := None\<rparr>)) (\<lambda>_. True)"
    by (rule keeps_inside_set_this) (auto simp: mine_def fit_sandbox_def same_sandbox_def)
  then have "keeps_inside config sb (forget_all (sb_id b)) (\<lambda>_. True)"
    unfolding forget_all_def using mine_same[OF b]
    by (intro keeps_inside_bind[OF keeps_inside_remembered(2)] keeps_inside_bind[OF keeps_inside_place]) simp_all
  then show "steady config sb (\<lambda>_. True) (io (forget_all (sb_id b)))" by (rule steady_io)
  show "steady config sb (\<lambda>_. True) (case sb_job b of
      None \<Rightarrow> await (queue_task pf config) (\<lambda>queue. io (cancelSet pf config (sb_id b) queue))
    | Some job \<Rightarrow> io (cancel pf config job))"
    by (intro steady_option steady_await[OF steady_queue] steady_io inside_own own_client)
qed

lemma steady_call:
  "steady config sb (\<lambda>p. \<forall>pr. p = Some pr \<longrightarrow> ep_token (pr_channel pr) = sb_token sb) (call_task pf config c)"
proof -
  have other: "steady config sb (\<lambda>p. \<forall>pr. p = Some pr \<longrightarrow> ep_token (pr_channel pr) = sb_token sb)
      (await t (\<lambda>_. Settled (Inr None)))" if "steady config sb (\<lambda>_. True) t" for t :: "('a sandbox_state_scheme, 'r) task"
    using that by (rule steady_await) simp
  have env: "keeps_inside config sb (setEnvVars vars onlyIfUnset) (\<lambda>_. True)" for vars onlyIfUnset
    unfolding setEnvVars_def
    by (rule keeps_inside_bind[OF inside_lift]) (auto intro!: keeps_inside_set_this simp: mine_def fit_sandbox_def same_sandbox_def)
  have buckets: "keeps_inside config sb mountBucket (\<lambda>_. True)" "keeps_inside config sb unmountBucket (\<lambda>_. True)"
    unfolding mountBucket_def unmountBucket_def by auto
  have start: "steady config sb (\<lambda>p. \<forall>pr. p = Some pr \<longrightarrow> ep_token (pr_channel pr) = sb_token sb)
      (await (startProcess_task pf config cmd options) (\<lambda>p. Settled (Inr (Some p))))" for cmd options
    by (rule steady_await[OF steady_startProcess]) simp
  show ?thesis
    by (cases c)
      (simp_all add: other start steady_ready steady_queue steady_isPortReady steady_exec steady_execStream steady_reads
        steady_listFiles steady_writeFiles steady_gitCheckout steady_exposePort steady_destroy
        steady_io[OF env] steady_io[OF buckets(1)] steady_io[OF buckets(2)])
qed

end
