(* ===== verification/SandboxSpec.thy ===== *)
theory SandboxSpec
  imports SandboxReach
begin

section \<open>What a sandbox promises its caller\<close>

text \<open>
  The contracts of single methods: readiness is reached once and shared, a file comes back byte for byte
  with the encoding that says how, a failed read leaves one line in the log without the token, a batch
  of writes sends every file once and stops at the batch that failed, an environment set on the
  sandbox reaches its processes, and destroying forgets what was shared.
\<close>

subsection \<open>Readiness\<close>

lemma ready_reached: "sb_channel (this s) = Some ep \<Longrightarrow> sandbox_ready pf config s = (Inr (), s)"
  by (simp add: sandbox_ready_def io_eval)

lemma reach_places:
  assumes "reach pf config s = (Inr u, t)"
  shows "\<exists>job pod ep. sb_job (this t) = Some job \<and> sb_pod (this t) = Some pod \<and> sb_channel (this t) = Some ep
    \<and> placements t (sb_id (this t)) = Some \<lparr>pl_job = job, pl_pod = Some pod, pl_channel = ep\<rparr>"
proof -
  from assms obtain job s1 pod s2 url s3
    where job: "ensure_job pf config s = (Inr job, s1)" and pod: "waitForRunning pf config job s1 = (Inr pod, s2)"
      and url: "portUrl pf config job (cfg_agentPort config) (s2\<lparr>this := (this s2)\<lparr>sb_pod := Some pod\<rparr>\<rparr>) = (Inr url, s3)"
      and con: "connect pf job pod url s3 = (Inr u, t)"
    unfolding reach_def by (auto elim!: bindIO_eqE simp: set_this_def io_run)
  have "this s2 = this s1" using client.running pod more_fields(3) talks_more by blast
  moreover have "this s3 = (this s2)\<lparr>sb_pod := Some pod\<rparr>"
    using talks_more[OF client.url url] by (auto dest: more_fields(3))
  ultimately have s3: "sb_job (this s3) = Some job" "sb_pod (this s3) = Some pod"
    using ensure_job_knows[OF job] by simp_all
  let ?ep = "\<lparr>ep_url = url, ep_token = sb_token (this s3), ep_pod = pod\<rparr>"
  from con obtain s4 where ready: "agent_ready pf ?ep AGENT_READY_TIMEOUT_MS s3 = (Inr (), s4)"
    and t: "this t = (this s4)\<lparr>sb_channel := Some ?ep\<rparr>"
      "placements t (sb_id (this s3)) = Some \<lparr>pl_job = job, pl_pod = Some pod, pl_channel = ?ep\<rparr>"
    unfolding connect_def by (auto elim!: bindIO_eqE simp: set_this_def place_def io_run Let_def)
  have "this s4 = this s3" using talks_more[OF agent.ready ready] by (rule more_fields(3))
  with s3 t show ?thesis by auto
qed

lemma take_over_places:
  assumes "placements s (sb_id (this s)) = Some p" and "take_over pf (sb_id (this s)) p s = (Inr True, t)"
  shows "placements t = placements s" and "this t = (this s)\<lparr>sb_job := Some (pl_job p), sb_pod := pl_pod p,
    sb_channel := Some (pl_channel p)\<rparr>"
proof -
  from assms(2) obtain u where probe: "agent_ready pf (pl_channel p) 0 s = (Inr (), u)"
    and t: "t = u\<lparr>this := (this u)\<lparr>sb_job := Some (pl_job p), sb_pod := pl_pod p, sb_channel := Some (pl_channel p)\<rparr>\<rparr>"
    by (auto simp: take_over_def set_this_def place_def io_run elim!: catchIO_eqE bindIO_eqE)
  show "placements t = placements s" and "this t = (this s)\<lparr>sb_job := Some (pl_job p), sb_pod := pl_pod p,
    sb_channel := Some (pl_channel p)\<rparr>"
    using more_fields[OF talks_more[OF agent.ready probe]] by (simp_all add: t)
qed

lemma ready_places:
  assumes "sb_channel (this s) = None" and "sandbox_ready pf config s = (Inr u, t)"
  shows "\<exists>job ep. sb_job (this t) = Some job \<and> sb_channel (this t) = Some ep
    \<and> placements t (sb_id (this t)) = Some \<lparr>pl_job = job, pl_pod = sb_pod (this t), pl_channel = ep\<rparr>"
proof (cases "placements s (sb_id (this s))")
  case None
  then have "reach pf config s = (Inr u, t)" using assms by (simp add: sandbox_ready_def io_eval)
  from reach_places[OF this] show ?thesis by force
next
  case (Some p)
  then obtain taken v where over: "take_over pf (sb_id (this s)) p s = (Inr taken, v)"
    and rest: "(if taken then returnIO () else reach pf config) v = (Inr u, t)"
    using assms by (simp add: sandbox_ready_def io_run bindIO_run[of "getIO g" for g]) (auto elim!: bindIO_eqE)
  show ?thesis
  proof (cases taken)
    case True
    then have "t = v" using rest by (simp add: io_run)
    then show ?thesis using take_over_places[OF Some, of pf t] over True Some by simp
  next
    case False
    with rest have "reach pf config v = (Inr u, t)" by simp
    from reach_places[OF this] show ?thesis by force
  qed
qed

lemma agent_ready_once:
  assumes "probed pf ep s = (None, t)"
  shows "agent_ready pf ep 0 s = (Inr (), t)"
  using assms by (simp add: agent_ready_def ready_loop.simps)

lemma ready_takes_over:
  assumes "sb_channel (this s) = None" and "placements s (sb_id (this s)) = Some p"
    and "probed pf (pl_channel p) s = (None, t)"
  shows "sandbox_ready pf config s =
    (Inr (), t\<lparr>this := (this t)\<lparr>sb_job := Some (pl_job p), sb_pod := pl_pod p, sb_channel := Some (pl_channel p)\<rparr>\<rparr>)"
  using assms agent_ready_once[OF assms(3)]
  by (simp add: sandbox_ready_def take_over_def set_this_def io_eval)

text \<open>C23: A sandbox is reached once.  When an instance has become ready, being asked again costs nothing; and any
  other instance of the same sandbox, made by \<open>create\<close> or attached, becomes ready with exactly one request, a look at
  the agent's health, if the agent answers it, and takes over the same job, pod and channel: nothing
  is submitted, watched or asked of Lookout again.\<close>

theorem ready_shared:
  assumes "sb_channel (this s) = None" and "sandbox_ready pf config s = (Inr (), t)"
  shows "sandbox_ready pf config t = (Inr (), t)
    \<and> (\<exists>ep. sb_channel (this t) = Some ep
        \<and> (\<forall>other v. sb_id other = sb_id (this t) \<longrightarrow> sb_channel other = None \<longrightarrow>
             probed pf ep (t\<lparr>this := other\<rparr>) = (None, v) \<longrightarrow>
             (\<exists>w. sandbox_ready pf config (t\<lparr>this := other\<rparr>) = (Inr (), w)
                \<and> log w = log t @ [health_request ep]
                \<and> this w = other\<lparr>sb_job := sb_job (this t), sb_pod := sb_pod (this t), sb_channel := Some ep\<rparr>)))"
proof -
  from ready_places[OF assms] obtain job ep where t: "sb_job (this t) = Some job"
    "sb_channel (this t) = Some ep" "placements t (sb_id (this t)) = Some \<lparr>pl_job = job, pl_pod = sb_pod (this t), pl_channel = ep\<rparr>"
    by blast
  have "\<exists>w. sandbox_ready pf config (t\<lparr>this := other\<rparr>) = (Inr (), w) \<and> log w = log t @ [health_request ep]
      \<and> this w = other\<lparr>sb_job := sb_job (this t), sb_pod := sb_pod (this t), sb_channel := Some ep\<rparr>"
    if "sb_id other = sb_id (this t)" "sb_channel other = None" "probed pf ep (t\<lparr>this := other\<rparr>) = (None, v)"
    for other v
    using ready_takes_over[of "t\<lparr>this := other\<rparr>" "\<lparr>pl_job = job, pl_pod = sb_pod (this t), pl_channel = ep\<rparr>" pf v config] that t
      probed_state[OF that(3)] more_fields(3)[OF probed_state(4)[OF that(3)]]
    by auto
  with ready_reached[OF t(2)] t(2) show ?thesis by blast
qed

subsection \<open>Demonstration state\<close>

definition demo_sandbox :: ArmadaSandbox where
  "demo_sandbox = new_sandbox demo_config (js ''sb'') None False"

definition demo_placement :: Placement where
  "demo_placement =
     \<lparr>pl_job = demo_job, pl_pod = Some (ep_pod demo_endpoint),
      pl_channel = demo_endpoint\<lparr>ep_token := agentToken (cfg_agentTokenSecret demo_config) (js ''sb'')\<rparr>\<rparr>"

text \<open>A new instance of a sandbox another instance has reached, and one that has reached it itself.\<close>

definition demo_known :: sandbox_state where
  "demo_known = \<lparr>log = [], clock = 0, warnings = [], remembered = (\<lambda>_. None),
     placements = [js ''sb'' \<mapsto> demo_placement], this = demo_sandbox\<rparr>"

definition demo_reached :: sandbox_state where
  "demo_reached = demo_known\<lparr>this := demo_sandbox\<lparr>sb_job := Some demo_job, sb_pod := Some (ep_pod demo_endpoint),
     sb_channel := Some (pl_channel demo_placement)\<rparr>\<rparr>"

lemma demo_tidy: "tidy demo_config demo_known" "tidy demo_config demo_reached"
  by (auto simp: tidy_def demo_known_def demo_reached_def placements_ok_def placement_ok_def demo_placement_def
      sandbox_ok_def demo_sandbox_def new_sandbox_def demo_job_def valid_env_def obj_keys_def)

lemma demo_probed: "\<exists>t. probed (answering b) ep s = (None, t)"
  by (auto simp: probed_def probe_def answering_def quiet_platform_def fetch_def io_eval rsp_ok_def)

lemma demo_id: "sb_id (this demo_known) = js ''sb''" "sb_channel (this demo_known) = None"
  "placements demo_known (js ''sb'') = Some demo_placement"
  by (simp_all add: demo_known_def demo_sandbox_def new_sandbox_def)

lemma ready_shared_witness:
  "\<exists>t. sandbox_ready (answering []) demo_config demo_known = (Inr (), t)
     \<and> sandbox_ready (answering []) demo_config t = (Inr (), t)"
proof -
  obtain u where probe: "probed (answering []) (pl_channel demo_placement) demo_known = (None, u)"
    using demo_probed[of "[]" "pl_channel demo_placement" demo_known] by blast
  obtain t where ready: "sandbox_ready (answering []) demo_config demo_known = (Inr (), t)"
    using ready_takes_over[OF demo_id(2) _ probe, of demo_config] demo_id by auto
  from ready_shared[OF demo_id(2) ready] ready show ?thesis by blast
qed

subsection \<open>Reading files\<close>

text \<open>How the host reads a result: by the encoding it names.\<close>

definition host_bytes :: "ReadFileResult \<Rightarrow> byte list option" where
  "host_bytes result =
     (case result of
        ReadFileSuccess c UTF_8 \<Rightarrow> Some (utf8_bytes c)
      | ReadFileSuccess c BASE64 \<Rightarrow> Some (unbase64 c)
      | ReadFileFailure _ \<Rightarrow> None)"

lemma host_bytes_encoded [simp]: "host_bytes (as_text bs) = Some bs" "host_bytes (as_base64 bs) = Some bs"
  by (auto simp: as_text_def as_base64_def decodeUtf8_def host_bytes_def utf8_fatal_bytes split: option.split)

lemma open_reached_state:
  "sb_channel (this s) = Some ep \<Longrightarrow> sandbox_open pf config s = (Inr ep, s)"
  by (simp add: sandbox_open_def io_eval)

definition read_request :: "AgentEndpoint \<Rightarrow> jsstring \<Rightarrow> request" where
  "read_request ep url = plain_request ep (js ''GET'') url NoPayload None"

text \<open>C36: A file comes back byte for byte, binary or text: what the host decodes by the encoding named with
  the content is what the agent sent, whatever the bytes, and the content is reported as text exactly when the bytes are
  valid UTF-8.  One request is made and nothing is logged.\<close>

theorem readFile_bytes:
  assumes "sb_channel (this s) = Some ep" and "filePath (js ''/files'') path = Inr url"
    and "pf_fetch pf (log s) (read_request ep url) = (Inr response, d)"
    and "rsp_ok response" and "response_bytes response = Inr bs"
  shows "\<exists>result t. sandbox_readFile pf config path s = (Inr result, t)
    \<and> host_bytes result = Some bs
    \<and> ((\<exists>c. result = ReadFileSuccess c UTF_8) \<longleftrightarrow> utf8_fatal bs \<noteq> None)
    \<and> log t = log s @ [read_request ep url] \<and> warnings t = warnings s"
proof -
  have "agent_readFile pf ep path s = (Inr (ReadOk bs), s\<lparr>log := log s @ [read_request ep url], clock := clock s + d\<rparr>)"
    using assms by (simp add: agent_readFile_def agent_request_def fetch_def read_request_def Let_def io_eval)
  then have "sandbox_readFile pf config path s =
      (Inr (as_text bs), s\<lparr>log := log s @ [read_request ep url], clock := clock s + d\<rparr>)"
    using open_reached_state[OF assms(1)] by (simp add: sandbox_readFile_def readThrough_def bindIO_run)
  moreover have "(\<exists>c. as_text bs = ReadFileSuccess c UTF_8) \<longleftrightarrow> utf8_fatal bs \<noteq> None"
    by (auto simp: as_text_def as_base64_def decodeUtf8_def split: option.split)
  ultimately show ?thesis by simp
qed

lemma readFile_bytes_witness:
  "\<exists>result t. sandbox_readFile (answering (js ''hi'')) demo_config (js ''f'') demo_reached = (Inr result, t)
     \<and> host_bytes result = Some (utf8_bytes (js ''hi''))"
proof -
  let ?ep = "pl_channel demo_placement"
  have "code_points (js ''f'') = [Some 102]" by (simp add: js_def is_high_def is_low_def)
  then obtain url where url: "filePath (js ''/files'') (js ''f'') = Inr url"
    by (simp add: filePath_def encodeURIComponent_def)
  have chan: "sb_channel (this demo_reached) = Some ?ep" by (simp add: demo_reached_def)
  from readFile_bytes[OF chan url, where pf = "answering (js ''hi'')" and bs = "utf8_bytes (js ''hi'')" and config = demo_config]
  show ?thesis
    by (auto simp: answering_def quiet_platform_def rsp_ok_def response_bytes_def stream_bytes_def)
qed

subsection \<open>Bounded reads\<close>

lemma num_less_whole: "num_less (of_whole i) (of_whole j) \<longleftrightarrow> i < j"
  and num_le_whole: "num_le (of_whole i) (of_whole j) \<longleftrightarrow> i \<le> j"
  by (simp_all add: of_whole_def)

lemma readAtMost_loop_whole:
  assumes "seen \<le> n"
  shows "readAtMost_loop (of_whole (int n)) seen acc cs None =
    Inr (if seen + length (concat cs) \<le> n then Some (acc @ concat cs) else None)"
  using assms
proof (induction cs arbitrary: seen acc)
  case (Cons chunk cs)
  then show ?case by (cases "n < seen + length chunk") (simp_all add: num_less_whole Let_def)
qed simp

lemma readAtMost_sound:
  "readAtMost body (of_whole (int n)) = Inr (Some bs) \<Longrightarrow> stream_bytes body = Inr bs \<and> length bs \<le> n"
proof -
  have "readAtMost_loop (of_whole (int n)) seen acc cs (Some e) \<noteq> Inr (Some bs)" for seen acc cs e
    by (induction cs arbitrary: seen acc) (simp_all add: Let_def)
  then show "readAtMost body (of_whole (int n)) = Inr (Some bs) \<Longrightarrow> stream_bytes body = Inr bs \<and> length bs \<le> n"
    using readAtMost_loop_whole[of 0 n "[]" "chunks body"]
    by (cases "ending body") (auto simp: readAtMost_def stream_bytes_def split: if_splits)
qed

text \<open>Note: The bounded read stops exactly at its budget: a body within it arrives whole, in order, however it is
  cut, and one byte more is a refusal, whichever chunk brings it.\<close>

theorem readAtMost_budget:
  "readAtMost \<lparr>chunks = cs, ending = None\<rparr> (of_whole (int n)) =
     Inr (if length (concat cs) \<le> n then Some (concat cs) else None)"
  using readAtMost_loop_whole[of 0 n "[]" cs] by (simp add: readAtMost_def)

lemma valid_budget_bytes:
  assumes "isValidBudget options"
  obtains n where "maxBytes options = of_whole (int n)"
proof -
  obtain i where i: "maxBytes options = of_whole i" "0 \<le> i"
    using assms by (auto simp: isValidBudget_def isSafeInteger_def integer_of_Some num_le_whole split: option.splits)
  then have "maxBytes options = of_whole (int (nat i))" by simp
  then show ?thesis using that by blast
qed

lemma agent_readFileBounded_ok:
  assumes "agent_readFileBounded pf ep path budget s = (Inr (ReadOk bs), t)"
  shows "\<exists>body. readAtMost body (budget_maxBytes budget) = Inr (Some bs)"
  using assms
  by (auto simp: agent_readFileBounded_def Let_def io_run readRefused_def bindR_eq_Inr
      elim!: bindIO_eqE split: if_splits sum.splits option.splits)

lemma readThrough_success:
  assumes "readThrough pf config path read encode s = (Inr (ReadFileSuccess c e), t)"
  obtains bs where "bindIO (sandbox_open pf config) read s = (Inr (ReadOk bs), t)" and "encode bs = ReadFileSuccess c e"
proof -
  obtain r u where ask: "bindIO (sandbox_open pf config) read s = (r, u)" by fastforce
  then show ?thesis
    using assms that
    by (cases r) (auto simp: readThrough_def readFailed_def console_warn_def io_eval split: ReadFileOutcome.splits)
qed

lemma readThrough_total: "\<exists>result t. readThrough pf config path read encode s = (Inr result, t)"
proof -
  obtain r u where "bindIO (sandbox_open pf config) read s = (r, u)" by fastforce
  then show ?thesis
    by (cases r) (auto simp: readThrough_def readFailed_def console_warn_def io_eval split: ReadFileOutcome.split)
qed


subsection \<open>The line a failed read leaves\<close>

lemma token_mask_text: "js ''<token>'' = [60, 116, 111, 107, 101, 110, 62]"
  by (simp add: js_def)

lemma is_hex_mask: "\<not> is_hex 60" "\<not> is_hex 116" "\<not> is_hex 111" "\<not> is_hex 107" "\<not> is_hex 110" "\<not> is_hex 62"
  by (simp_all add: is_hex_def)

text \<open>A run of hex digits at the front of the masked text was there before masking.\<close>

lemma mask_prefix:
  "list_all is_hex w \<Longrightarrow> startsWith w (replace_from p (js ''<token>'') s) \<Longrightarrow> startsWith w s"
proof (induction p "js ''<token>''" s arbitrary: w rule: replace_from.induct)
  case (1 p s)
  show ?case
  proof (cases "s = [] \<or> p = [] \<or> w = []")
    case True
    then show ?thesis using 1(4) by (auto simp: replace_from.simps[of p _ s] startsWith_def)
  next
    case False
    then obtain c w' where w: "w = c # w'" by (cases w) auto
    show ?thesis
    proof (cases "startsWith p s")
      case True
      then show ?thesis
        using 1(3,4) False w by (simp add: replace_from.simps[of p _ s] token_mask_text is_hex_mask startsWith_def)
    next
      case nomatch: False
      then have "startsWith w (hd s # replace_from p (js ''<token>'') (tl s))"
        using 1(4) False by (simp add: replace_from.simps[of p _ s])
      then have "c = hd s" "startsWith w' (replace_from p (js ''<token>'') (tl s))"
        by (auto simp: w startsWith_def)
      moreover have "startsWith w' (tl s)"
        using 1(2)[of w'] 1(3) False nomatch calculation(2) w by simp
      ultimately show ?thesis using False w by (cases s) (auto simp: startsWith_def)
    qed
  qed
qed

lemma mask_starts:
  assumes "list_all is_hex (a # b # p)"
  shows "contains (a # b # p) (js ''<token>'' @ s) \<longleftrightarrow> contains (a # b # p) s"
  using assms is_hex_mask by (auto simp: token_mask_text startsWith_def)

lemma mask_hides:
  assumes "list_all is_hex p" and "2 \<le> length p"
  shows "\<not> contains p (replace_from p (js ''<token>'') s)"
  using assms
proof (induction p "js ''<token>''" s rule: replace_from.induct)
  case (1 p s)
  obtain a b p' where p: "p = a # b # p'"
    using 1(4) by (metis Suc_le_length_iff numeral_2_eq_2)
  consider "s = []" | "s \<noteq> []" "startsWith p s" | "s \<noteq> []" "\<not> startsWith p s" by blast
  then show ?case
  proof cases
    case 1
    then show ?thesis using p by simp
  next
    case 2
    then have "replace_from p (js ''<token>'') s = js ''<token>'' @ replace_from p (js ''<token>'') (drop (length p) s)"
      using p by (simp add: replace_from.simps[of "a # b # p'" _ s])
    then show ?thesis
      using "1.hyps"(1) "1.prems" 2 p mask_starts[of a b p'] by simp
  next
    case 3
    have step: "replace_from p (js ''<token>'') s = hd s # replace_from p (js ''<token>'') (tl s)"
      using 3 p by (simp add: replace_from.simps[of "a # b # p'" _ s])
    have "\<not> startsWith p (replace_from p (js ''<token>'') s)"
      using mask_prefix[OF "1.prems"(1)] 3 by blast
    moreover have "\<not> contains p (replace_from p (js ''<token>'') (tl s))"
      using "1.hyps"(2) "1.prems" 3 p by simp
    ultimately show ?thesis by (simp add: step)
  qed
qed

text \<open>The token is sixty-four hex digits, so masking takes every occurrence of it out.\<close>

lemma agentToken_shape: "length (agentToken secret sid) = 64" "list_all is_hex (agentToken secret sid)"
  by (simp_all add: agentToken_def hmac_sha256_def Let_def list_all_iff hex_of_hex)

lemma masked: "\<not> contains (agentToken secret sid) (mask_token (agentToken secret sid) line)"
  using mask_hides[OF agentToken_shape(2)[of secret sid]] agentToken_shape(1)[of secret sid]
  by (auto simp: mask_token_def replaceAll_def)

text \<open>Escaping leaves no line break, and masking brings none in.\<close>

definition one_line :: "jsstring \<Rightarrow> bool" where
  "one_line t \<longleftrightarrow> list_all (\<lambda>c. 32 \<le> c) t"

lemma u_escape_line: "one_line (u_escape c)"
  by (simp add: u_escape_def hex_digit_def one_line_def)

lemma oneLine_line: "one_line (oneLine t)"
proof -
  have "one_line (butlast (tl (quote_string [c])))" for c
    using u_escape_line[of c] by (simp add: quote_string_def quote_unit_def one_line_def butlast_append)
  moreover have "\<not> is_control c \<Longrightarrow> 32 \<le> c" for c by (simp add: is_control_def)
  ultimately show ?thesis by (auto simp: oneLine_def one_line_def list_all_iff)
qed

lemma replace_from_line: "one_line q \<Longrightarrow> one_line s \<Longrightarrow> one_line (replace_from p q s)"
proof (induction p q s rule: replace_from.induct)
  case (1 p q s)
  have "one_line (drop n s)" for n
    using 1(4) by (auto simp: one_line_def list_all_iff dest: in_set_dropD)
  moreover have "one_line (tl s)" "s \<noteq> [] \<Longrightarrow> 32 \<le> hd s"
    using 1(4) by (cases s; simp add: one_line_def)+
  ultimately have parts: "one_line (drop n s)" "one_line (tl s)" "s \<noteq> [] \<Longrightarrow> 32 \<le> hd s" for n by blast+
  show ?case
  proof (cases "s = [] \<or> p = []")
    case True
    then show ?thesis using 1(4) by (auto simp: replace_from.simps[of p q s])
  next
    case False
    then show ?thesis
      using 1(1,2)[OF False] 1(3) parts
      by (simp add: replace_from.simps[of p q s]) (simp add: one_line_def)
  qed
qed

lemma read_line_line:
  assumes "one_line sid"
  shows "one_line (mask_token token (read_line sid path code why))"
proof -
  have "one_line (js ''<token>'')" by (simp add: token_mask_text one_line_def)
  moreover have "one_line (read_line sid path code why)"
    using assms oneLine_line[of path] oneLine_line[of why]
    by (simp add: read_line_def code_text_def one_line_def js_def split: error_code.split)
  moreover have "one_line (concat (map (\<lambda>c. c # q) t))" if "one_line q" "one_line t" for q t :: jsstring
    using that by (induction t) (simp_all add: one_line_def)
  ultimately show ?thesis
    using replace_from_line by (simp add: mask_token_def replaceAll_def) (simp add: one_line_def)
qed

text \<open>Nothing on the way to the agent writes to the log.\<close>

lemma keeps_warnings_talks: "talks P m \<Longrightarrow> keeps (\<lambda>s. warnings s = W) m"
  by (rule keepsI) (simp add: talks_warnings)

lemmas client_quiet = client.talking[THEN keeps_warnings_talks]
lemmas agent_quiet = agent.talking[THEN keeps_warnings_talks]

lemma keeps_warnings_queue: "keeps (\<lambda>s. warnings s = W) (sandbox_queue pf config)"
  unfolding sandbox_queue_def resolve_def place_new_def remember_def Let_def
  by (auto intro!: keeps_bindIO keeps_catchIO client_quiet simp: keeps_updIO split: option.split)

lemma keeps_warnings_job: "keeps (\<lambda>s. warnings s = W) (ensure_job pf config)"
  unfolding ensure_job_def existingJob_def sandbox_submit_def set_this_def
  by (auto intro!: keeps_bindIO keeps_warnings_queue client_quiet
      keeps_warnings_talks[OF client.submit[where fine = "\<lambda>_. True"]] simp: keeps_updIO split: option.split)

lemma keeps_warnings_open: "keeps (\<lambda>s. warnings s = W) (sandbox_open pf config)"
  unfolding sandbox_open_def sandbox_ready_def reach_def connect_def take_over_def set_this_def place_def Let_def
  by (auto intro!: keeps_bindIO keeps_catchIO keeps_warnings_job client_quiet agent_quiet
      simp: keeps_updIO split: option.split)

lemma readThrough_reports:
  assumes "readThrough pf config path read encode s = (Inr result, t)"
    and quiet: "\<And>W ep. keeps (\<lambda>s. warnings s = W) (read ep)" and "tidy config s"
    and own: "\<And>ep. ep_token ep = sb_token (this s) \<Longrightarrow> safe config s (read ep) (\<lambda>_. True)"
    and encode: "\<And>bs code. encode bs \<noteq> ReadFileFailure code"
  shows "if result \<in> {ReadFileFailure READ_FAILED, ReadFileFailure BACKEND_ERROR}
    then \<exists>why. warnings t = warnings s @
      [mask_token (sb_token (this s)) (read_line (sb_id (this s)) path (read_error result) why)]
    else warnings t = warnings s"
proof -
  let ?m = "bindIO (sandbox_open pf config) read"
  obtain r u where ask: "?m s = (r, u)" by fastforce
  have "keeps (\<lambda>s. warnings s = W) ?m" for W
    by (intro keeps_bindIO keeps_warnings_open quiet)
  from keepsD[OF this _ ask] have silent: "warnings u = warnings s" by blast
  have "safe config s ?m (\<lambda>_. True)"
    by (intro safe_bind[OF safe_open[OF assms(3)]] own)
  from safe_stays[OF this stays_start[OF assms(3)] ask]
  have "sb_id (this u) = sb_id (this s)" "sb_token (this u) = sb_token (this s)"
    by (simp_all add: stays_id)
  then show ?thesis
    using assms(1) ask silent encode
    by (cases r) (auto simp: readThrough_def readFailed_def console_warn_def io_eval split: ReadFileOutcome.splits)
qed

text \<open>Note: Reading never throws, and a read that fails for any reason but an absent file leaves exactly one line
  in the log, in which the token does not appear, wherever the path or the error quoted it, and which
  is one line whatever they contain; a read that succeeds or finds no file leaves none.\<close>

theorem readFile_reports:
  assumes "tidy config s" and "one_line (sb_id (this s))"
  shows "\<exists>result t. sandbox_readFile pf config path s = (Inr result, t)
    \<and> (if result \<in> {ReadFileFailure READ_FAILED, ReadFileFailure BACKEND_ERROR}
       then \<exists>line. warnings t = warnings s @ [line] \<and> \<not> contains (sb_token (this s)) line \<and> one_line line
       else warnings t = warnings s)"
proof -
  obtain result t where run: "sandbox_readFile pf config path s = (Inr result, t)"
    using readThrough_total by (metis sandbox_readFile_def)
  have token: "sb_token (this s) = agentToken (cfg_agentTokenSecret config) (sb_id (this s))"
    using assms(1) by (simp add: tidy_def sandbox_ok_def)
  have "as_text bs \<noteq> ReadFileFailure code" for bs code
    by (simp add: as_text_def as_base64_def split: option.split)
  from readThrough_reports[OF run[unfolded sandbox_readFile_def] agent_quiet(5) assms(1) safe_agent(5) this]
  have "if result \<in> {ReadFileFailure READ_FAILED, ReadFileFailure BACKEND_ERROR}
    then \<exists>why. warnings t = warnings s @
      [mask_token (sb_token (this s)) (read_line (sb_id (this s)) path (read_error result) why)]
    else warnings t = warnings s" by blast
  then show ?thesis
    using run masked read_line_line[OF assms(2)] unfolding token by (auto split: if_splits)
qed

lemma readFile_reports_witness:
  "\<exists>result t. sandbox_readFile quiet_platform demo_config (js ''f'') demo_reached = (Inr result, t)
     \<and> (if result \<in> {ReadFileFailure READ_FAILED, ReadFileFailure BACKEND_ERROR}
        then \<exists>line. warnings t = warnings demo_reached @ [line] \<and> \<not> contains (sb_token (this demo_reached)) line \<and> one_line line
        else warnings t = warnings demo_reached)"
  by (rule readFile_reports[OF demo_tidy(2)])
    (simp add: demo_reached_def demo_sandbox_def new_sandbox_def one_line_def js_def)

subsection \<open>Commands\<close>

text \<open>C24: Running a command never throws.  The shell is given the command under the environment set so far, with the
  caller's deadline or else the configured backstop; when the agent reports an exit, the result carries both
  outputs and succeeds exactly on status zero; and when the sandbox or its agent could not be reached or
  failed, the result is a \<open>BACKEND_ERROR\<close> that says why, naming the backstop when it was the one that ended
  the command.\<close>

theorem exec_total:
  assumes "tidy config s"
  shows "\<exists>command result t.
    withEnvPrefix cmd (sb_env (this s)) (sb_envDefaults (this s)) = Inr command
    \<and> sandbox_exec pf config cmd wait s = (Inr result, t)
    \<and> (case bindIO (sandbox_open pf config) (\<lambda>ep. agent_run pf ep [js ''sh'', js ''-lc'', command]
           \<lparr>run_stdin = None,
            run_timeoutMs = (case wait of Some n \<Rightarrow> Some n
              | None \<Rightarrow> if 0 < cfg_commandMaxSeconds config
                  then Some (of_whole (cfg_commandMaxSeconds config * 1000)) else None)\<rparr>) s of
         (Inr done', u) \<Rightarrow> t = u \<and> exec_stdout result = cr_stdout done' \<and> exec_stderr result = cr_stderr done'
           \<and> (case result of ExecSuccess _ _ \<Rightarrow> cr_exitCode done' = of_whole 0
               | ExecFailure _ _ code \<Rightarrow> cr_exitCode done' \<noteq> of_whole 0 \<and> code = COMMAND_FAILED)
       | (Inl e, u) \<Rightarrow> t = u \<and> result = ExecFailure []
           (if is_timeout e \<and> wait = None \<and> 0 < cfg_commandMaxSeconds config
            then concat [js ''Command ran past ARMADA_COMMAND_MAX_SECONDS ('', show_int (cfg_commandMaxSeconds config),
              js ''s) and was killed: '', cmd]
            else message e) BACKEND_ERROR)"
proof -
  have "valid_env (sb_env (this s))" "valid_env (sb_envDefaults (this s))"
    using assms by (simp_all add: tidy_def sandbox_ok_def)
  then obtain command where command: "withEnvPrefix cmd (sb_env (this s)) (sb_envDefaults (this s)) = Inr command"
    using withEnvPrefix_valid unfolding valid_env_def by (metis not_fails_iff)
  have deadline: "(case wait of Some n \<Rightarrow> Some n | None \<Rightarrow> backstop config wait) =
      (case wait of Some n \<Rightarrow> Some n | None \<Rightarrow> if 0 < cfg_commandMaxSeconds config
         then Some (of_whole (cfg_commandMaxSeconds config * 1000)) else None)"
    by (simp add: backstop_def split: option.split)
  let ?run = "bindIO (sandbox_open pf config) (\<lambda>ep. agent_run pf ep (login_shell command)
    \<lparr>run_stdin = None, run_timeoutMs = (case wait of Some n \<Rightarrow> Some n | None \<Rightarrow> backstop config wait)\<rparr>)"
  obtain r u where run: "?run s = (r, u)" by fastforce
  show ?thesis
  proof (cases r)
    case (Inl e)
    then have "sandbox_exec pf config cmd wait s = (Inr (ExecFailure [] (if is_timeout e \<and> backstop config wait \<noteq> None
        then concat [js ''Command ran past ARMADA_COMMAND_MAX_SECONDS ('', show_int (cfg_commandMaxSeconds config),
          js ''s) and was killed: '', cmd] else reason e) BACKEND_ERROR), u)"
      using run command unfolding sandbox_exec_def
      by (auto simp: io_eval Let_def split: prod.splits sum.splits)
    then show ?thesis
      using run Inl command unfolding deadline login_shell_def
      by (auto simp: backstop_def reason_def)
  next
    case (Inr res)
    then have "sandbox_exec pf config cmd wait s = (Inr (toExecResult res), u)"
      using run command unfolding sandbox_exec_def
      by (auto simp: io_eval Let_def split: prod.splits sum.splits)
    then show ?thesis
      using run Inr command unfolding deadline login_shell_def
      by (auto simp: toExecResult_def)
  qed
qed

lemma exec_total_witness:
  "\<exists>result t. sandbox_exec (answering exit_text) demo_config (js ''ls'') None demo_reached = (Inr result, t)"
  using exec_total[OF demo_tidy(2), of "js ''ls''" "answering exit_text" None] by blast

subsection \<open>Destroying\<close>

lemma post_Inr_log:
  assumes "post pf config path b signal s = (Inr r, t)"
  shows "\<exists>h. log t = log s @ [\<lparr>req_method = js ''POST'', req_url = strip_slash (cfg_url config) @ path,
    req_headers = h, req_body = Some b, req_timeout = signal\<rparr>]"
  using assms postTo_Inr_log unfolding post_def by blast

lemma queue_asks:
  assumes "sandbox_queue pf config s = (r, t)"
  shows "(\<exists>l. log t = log s @ l \<and> list_all (scoped config) l) \<and> placements t = placements s \<and> this t = this s"
proof -
  let ?I = "\<lambda>t. (\<exists>l. log t = log s @ l \<and> list_all (scoped config) l) \<and> placements t = placements s \<and> this t = this s"
  have "stable (scoped config) ?I"
    unfolding stable_def by (auto dest: more_fields)
  then have "keeps ?I (findQueue pf config sid)" for sid
    by (rule keeps_talks[OF talks_findQueue])
  then have "keeps ?I (sandbox_queue pf config)"
    unfolding sandbox_queue_def resolve_def place_new_def remember_def Let_def
    by (auto intro!: keeps_bindIO keeps_catchIO simp: keeps_updIO split: option.split)
  from keepsD[OF this _ assms] show ?thesis by simp
qed

lemma same_shared:
  "net_state.more t = net_state.more s \<Longrightarrow> placements t = placements s \<and> this t = this (s :: 'a sandbox_state_scheme)"
  using more_fields by blast

definition cancels :: "ArmadaSandbox \<Rightarrow> request \<Rightarrow> bool" where
  "cancels sb req \<longleftrightarrow>
     (\<exists>queue. req_body req = Some (CancelBody \<lparr>cancel_queue = queue, cancel_jobSetId = sb_id sb,
        cancel_jobId = map_option job_id (sb_job sb)\<rparr>)
        \<and> (case sb_job sb of None \<Rightarrow> True | Some job \<Rightarrow> queue = job_queue job))"

lemma cancel_log:
  "cancel pf config job s = (Inr u, t) \<Longrightarrow> \<exists>req. log t = log s @ [req] \<and> req_body req =
     Some (CancelBody \<lparr>cancel_queue = job_queue job, cancel_jobSetId = job_setId job, cancel_jobId = Some (job_id job)\<rparr>)"
  "cancelSet pf config jobSet queue s = (Inr u, t) \<Longrightarrow> \<exists>req. log t = log s @ [req] \<and> req_body req =
     Some (CancelBody \<lparr>cancel_queue = queue, cancel_jobSetId = jobSet, cancel_jobId = None\<rparr>)"
  unfolding cancel_def cancelSet_def by (auto elim!: bindIO_eqE simp: io_run dest!: post_Inr_log)



subsection \<open>Writing files\<close>

definition put_request :: "AgentEndpoint \<Rightarrow> SandboxFileWrite \<Rightarrow> request" where
  "put_request ep f =
     plain_request ep (js ''PUT'') (case filePath (js ''/files'') (fw_path f) of Inr url \<Rightarrow> url | Inl _ \<Rightarrow> [])
       (RawPayload (fw_content f)) None"

definition write_failed :: "SandboxFileWrite \<Rightarrow> js_error \<Rightarrow> js_error" where
  "write_failed f cause = err [js ''Writing '', fw_path f, js '' failed: '', message cause]"

definition encodable :: "jsstring \<Rightarrow> bool" where
  "encodable path \<longleftrightarrow> \<not> fails (filePath (js ''/files'') path)"

lemma write_one_sends:
  assumes "write_one pf ep f s = (r, t)" and "encodable (fw_path f)"
  shows "log t = log s @ [put_request ep f] \<and> (\<forall>e. r = Inl e \<longrightarrow> (\<exists>c. e = write_failed f c))"
proof -
  from assms(2) obtain url where "filePath (js ''/files'') (fw_path f) = Inr url"
    by (auto simp: encodable_def not_fails_iff)
  then show ?thesis
    using assms(1)
    by (auto simp: write_one_def agent_writeFile_def agent_request_def or_refused_def fetch_def put_request_def
        write_failed_def reason_def Let_def io_eval split: sum.splits prod.splits if_splits)
qed

lemma run_all_sends:
  assumes "run_all (map (write_one pf ep) fs) s = (es, t)" and "list_all (encodable \<circ> fw_path) fs"
  shows "log t = log s @ map (put_request ep) fs \<and> (\<forall>e \<in> set es. \<exists>f \<in> set fs. \<exists>c. e = write_failed f c)"
  using assms
proof (induction fs arbitrary: s es)
  case (Cons f fs)
  obtain r u where one: "write_one pf ep f s = (r, u)" by fastforce
  obtain es' where rest: "run_all (map (write_one pf ep) fs) u = (es', t)"
    and es: "es = (case r of Inl e \<Rightarrow> e # es' | Inr _ \<Rightarrow> es')"
    using Cons.prems(1) one by (auto split: prod.splits)
  from write_one_sends[OF one] Cons.IH[OF rest] Cons.prems(2) es show ?case
    by (cases r) auto
qed simp

lemma Promise_all_sends:
  assumes "Promise_all earliest (map (write_one pf ep) fs) s = (r, t)" and "list_all (encodable \<circ> fw_path) fs"
  shows "log t = log s @ map (put_request ep) fs \<and> (\<forall>e. r = Inl e \<longrightarrow> (\<exists>f \<in> set fs. \<exists>c. e = write_failed f c))"
proof -
  obtain es u where all: "run_all (map (write_one pf ep) fs) s = (es, u)" by fastforce
  show ?thesis
  proof (cases es)
    case Nil
    then show ?thesis using assms(1) run_all_sends[OF all assms(2)] all by (auto simp: Promise_all_def)
  next
    case (Cons e es')
    then have "earliest es mod length es < length es" by simp
    then have "es ! (earliest es mod length es) \<in> set es" by (rule nth_mem)
    then show ?thesis
      using assms(1) run_all_sends[OF all assms(2)] all Cons by (auto simp: Promise_all_def)
  qed
qed

definition batch_outcome ::
  "(SandboxFileWrite \<Rightarrow> request) \<Rightarrow> SandboxFileWrite list \<Rightarrow> request list \<Rightarrow> unit result \<Rightarrow> bool" where
  "batch_outcome put files sent r \<longleftrightarrow>
     (case r of
        Inr _ \<Rightarrow> sent = map put files
      | Inl e \<Rightarrow> (\<exists>k. sent = map put (take (8 * k + 8) files)
          \<and> (\<exists>f \<in> set (take 8 (drop (8 * k) files)). \<exists>c. e = write_failed f c)))"

lemma batch_outcome_later:
  assumes "batch_outcome put (drop 8 files) sent r"
  shows "batch_outcome put files (map put (take 8 files) @ sent) r"
proof (cases r)
  case (Inr u)
  then show ?thesis using assms by (simp add: batch_outcome_def flip: map_append)
next
  case (Inl e)
  then obtain k where k: "sent = map put (take (8 * k + 8) (drop 8 files))"
    "\<exists>f \<in> set (take 8 (drop (8 * k) (drop 8 files))). \<exists>c. e = write_failed f c"
    using assms by (auto simp: batch_outcome_def)
  have "take 8 files @ take (8 * k + 8) (drop 8 files) = take (8 * Suc k + 8) files"
    using take_add[of 8 "8 * k + 8" files] by (simp add: add.commute)
  then have "map put (take 8 files) @ sent = map put (take (8 * Suc k + 8) files)" using k(1) by (metis map_append)
  moreover have "drop (8 * k) (drop 8 files) = drop (8 * Suc k) files" by (simp add: add.commute)
  ultimately show ?thesis using Inl k(2) unfolding batch_outcome_def by (auto intro!: exI[of _ "Suc k"])
qed

lemma write_batches_sends:
  assumes "write_batches earliest (write_one pf ep) files s = (r, t)" and "list_all (encodable \<circ> fw_path) files"
  shows "\<exists>sent. log t = log s @ sent \<and> batch_outcome (put_request ep) files sent r"
  using assms
proof (induction earliest "write_one pf ep :: SandboxFileWrite \<Rightarrow> ('a net_state_scheme, unit) io" files arbitrary: s rule: write_batches.induct)
  case (1 earliest files)
  show ?case
  proof (cases "files = []")
    case True
    then have "r = Inr ()" "t = s" using 1(2) by (simp_all add: write_batches.simps io_run)
    then show ?thesis using True by (simp add: batch_outcome_def)
  next
    case False
    then have "bindIO (Promise_all earliest (map (write_one pf ep) (take 8 files))) (\<lambda>_.
        write_batches earliest (write_one pf ep) (drop 8 files)) s = (r, t)"
      using 1(2) by (simp add: write_batches.simps[of _ _ files] WRITE_CONCURRENCY_def)
    then show ?thesis
    proof (cases rule: bindIO_eqE)
      case (throws e)
      have "list_all (encodable \<circ> fw_path) (take 8 files)" using 1(3) by (auto simp: list_all_iff dest: in_set_takeD)
      from Promise_all_sends[OF throws(1) this] throws(2) show ?thesis
        by (auto simp: batch_outcome_def intro!: exI[of _ 0])
    next
      case (goes_on x s')
      have "list_all (encodable \<circ> fw_path) (take 8 files)" "list_all (encodable \<circ> fw_path) (drop 8 files)"
        using 1(3) by (auto simp: list_all_iff dest: in_set_takeD in_set_dropD)
      then obtain sent where "log s' = log s @ map (put_request ep) (take 8 files)" "log t = log s' @ sent"
        "batch_outcome (put_request ep) (drop 8 files) sent r"
        using Promise_all_sends[OF goes_on(1)] 1(1)[unfolded WRITE_CONCURRENCY_def, OF False goes_on(2)] by auto
      then show ?thesis using batch_outcome_later by (metis append.assoc)
    qed
  qed
qed

text \<open>Note: Files are written in the order given, one request each with the content as it is, at most eight at a time.
  When the call succeeds every file was sent exactly once; when it fails, the batches up to and
  including the one that failed were sent and nothing after them, and the error names a file of that
  batch.\<close>

theorem writeFiles_batches:
  assumes "sb_channel (this s) = Some ep" and "list_all (\<lambda>f. encodable (fw_path f)) files"
  shows "\<exists>r t sent. writeFiles pf config earliest files s = (r, t) \<and> log t = log s @ sent
    \<and> (case r of
         Inr _ \<Rightarrow> sent = map (put_request ep) files
       | Inl e \<Rightarrow> (\<exists>k. sent = map (put_request ep) (take (8 * k + 8) files)
           \<and> (\<exists>f \<in> set (take 8 (drop (8 * k) files)). \<exists>c. e = write_failed f c)))"
proof (cases "files = []")
  case True
  then show ?thesis by (simp add: writeFiles_def io_run)
next
  case False
  obtain r t where run: "write_batches earliest (write_one pf ep) files s = (r, t)" by fastforce
  then have "writeFiles pf config earliest files s = (r, t)"
    using False open_reached_state[OF assms(1)] by (simp add: writeFiles_def bindIO_run)
  moreover obtain sent where "log t = log s @ sent" "batch_outcome (put_request ep) files sent r"
    using write_batches_sends[OF run] assms(2) by (auto simp: comp_def)
  ultimately show ?thesis by (auto simp: batch_outcome_def)
qed

lemma writeFiles_batches_witness:
  "\<exists>r t. writeFiles (answering []) demo_config (\<lambda>_. 0)
       [\<lparr>fw_path = js ''f'', fw_content = BytesContent [1, 2]\<rparr>] demo_reached = (r, t) \<and> length (log t) = 1"
proof -
  have "code_points (js ''f'') = [Some 102]" by (simp add: js_def is_high_def is_low_def)
  then have "encodable (js ''f'')" by (simp add: encodable_def filePath_def encodeURIComponent_def)
  then have enc: "list_all (\<lambda>f. encodable (fw_path f)) [\<lparr>fw_path = js ''f'', fw_content = BytesContent [1, 2]\<rparr>]" by simp
  have chan: "sb_channel (this demo_reached) = Some (pl_channel demo_placement)" by (simp add: demo_reached_def)
  from writeFiles_batches[OF chan enc, of "answering []" demo_config "\<lambda>_. 0"] obtain r t sent where run:
    "writeFiles (answering []) demo_config (\<lambda>_. 0) [\<lparr>fw_path = js ''f'', fw_content = BytesContent [1, 2]\<rparr>] demo_reached = (r, t)"
    and "log t = log demo_reached @ sent" "length sent = 1"
    by (cases "fst (writeFiles (answering []) demo_config (\<lambda>_. 0) [\<lparr>fw_path = js ''f'', fw_content = BytesContent [1, 2]\<rparr>] demo_reached)")
      auto
  then show ?thesis by (auto simp: demo_reached_def demo_known_def)
qed

end
