(* ===== verification/SandboxData.thy ===== *)
theory SandboxData
  imports SandboxSpec
begin

section \<open>Budgets, listings and environments\<close>

text \<open>
  The parts of a sandbox that compute rather than talk: which budgets a bounded read accepts, how the
  agent's listing becomes the host's, and the environment a started process runs in, as the reference
  reading of the shell sees the command that is sent.
\<close>

subsection \<open>Budgets\<close>

lemma of_whole_le: "num_le (of_whole i) (of_whole j) \<longleftrightarrow> i \<le> j"
  by (simp add: of_whole_def)

lemma base64_size_safe:
  "isSafeInteger (num_times 4 (num_ceil (num_div (of_whole n) 3))) \<longleftrightarrow> \<bar>\<lceil>rat_of_int n / 3\<rceil>\<bar> \<le> 2 ^ 51 - 1"
proof -
  have "num_times 4 (num_ceil (num_div (of_whole n) 3)) = of_whole (4 * \<lceil>rat_of_int n / 3\<rceil>)"
    by (simp add: num_times_def num_ceil_def num_div_def of_whole_def)
  moreover have "\<bar>4 * i\<bar> \<le> 2 ^ 53 - 1 \<longleftrightarrow> \<bar>i\<bar> \<le> (2 ^ 51 - 1 :: int)" for i
    unfolding abs_le_iff by (simp; linarith)
  ultimately show ?thesis by (simp add: isSafeInteger_def del: abs_le_iff)
qed

lemma ceiling_third: "0 \<le> n \<Longrightarrow> \<bar>\<lceil>rat_of_int n / 3\<rceil>\<bar> \<le> k \<longleftrightarrow> n \<le> 3 * k"
proof -
  assume "0 \<le> n"
  then have "0 \<le> \<lceil>rat_of_int n / 3\<rceil>" by (metis ceiling_mono ceiling_zero of_int_0_le_iff divide_nonneg_nonneg zero_le_numeral)
  then have "\<bar>\<lceil>rat_of_int n / 3\<rceil>\<bar> \<le> k \<longleftrightarrow> rat_of_int n / 3 \<le> of_int k" by (simp add: ceiling_le_iff)
  also have "\<dots> \<longleftrightarrow> rat_of_int n \<le> rat_of_int (3 * k)" by (simp add: field_simps)
  finally show ?thesis by linarith
qed

lemma isSafeInteger_whole: "isSafeInteger m \<longleftrightarrow> (\<exists>n. m = of_whole n \<and> \<bar>n\<bar> \<le> 2 ^ 53 - 1)"
  by (auto simp: isSafeInteger_def integer_of_Some split: option.splits)

text \<open>Note: A bounded read's budget is accepted exactly when the bytes are a whole number whose base64 form is still
  exactly countable, at most \<open>3 \<cdot> (2\<^sup>5\<^sup>1 - 1)\<close>, and the deadline is positive and fits a timer; and for an accepted budget
  the adapter's own deadline, later than the agent's, still fits one, so the read cannot fire at once.\<close>

theorem isValidBudget_iff:
  "(isValidBudget options \<longleftrightarrow>
     (\<exists>n r. maxBytes options = of_whole n \<and> 0 \<le> n \<and> n \<le> 3 * (2 ^ 51 - 1)
        \<and> timeoutMs options = Fin r \<and> 0 < r \<and> r \<le> 2 ^ 31 - 1))
   \<and> (isValidBudget options \<longrightarrow>
        (\<exists>k. boundedReadGiveUpMs (num_ceil (timeoutMs options)) = of_whole k
           \<and> num_le (timeoutMs options) (of_whole k) \<and> k \<le> 2 ^ 31 - 1))"
proof -
  have bytes: "isSafeInteger m \<and> num_le (of_whole 0) m \<and> isSafeInteger (num_times 4 (num_ceil (num_div m 3))) \<longleftrightarrow>
      (\<exists>n. m = of_whole n \<and> 0 \<le> n \<and> n \<le> 3 * (2 ^ 51 - 1))" for m
    by (auto simp: isSafeInteger_whole[of m] of_whole_le base64_size_safe ceiling_third)
  have time: "isFinite m \<and> num_less (of_whole 0) m \<and> num_le m (of_whole (2 ^ 31 - 1)) \<longleftrightarrow>
      (\<exists>r. m = Fin r \<and> 0 < r \<and> r \<le> 2 ^ 31 - 1)" for m
    by (cases m) (auto simp: isFinite_def of_whole_def)
  have iff: "isValidBudget options \<longleftrightarrow>
     (\<exists>n r. maxBytes options = of_whole n \<and> 0 \<le> n \<and> n \<le> 3 * (2 ^ 51 - 1)
        \<and> timeoutMs options = Fin r \<and> 0 < r \<and> r \<le> 2 ^ 31 - 1)"
    using bytes[of "maxBytes options"] time[of "timeoutMs options"] unfolding isValidBudget_def by blast
  have "\<exists>k. boundedReadGiveUpMs (num_ceil (Fin r)) = of_whole k \<and> num_le (Fin r) (of_whole k) \<and> k \<le> 2 ^ 31 - 1"
    if "r \<le> 2 ^ 31 - 1" for r :: rat
  proof (intro exI conjI)
    show "boundedReadGiveUpMs (num_ceil (Fin r)) = of_whole (min (\<lceil>r\<rceil> + 1000) (2 ^ 31 - 1))"
      by (simp add: boundedReadGiveUpMs_def num_ceil_def of_whole_def num_min_def BOUNDED_READ_SLACK_MS_def
          MAX_TIMER_MS_def min_def)
    have "r \<le> of_int (\<lceil>r\<rceil> + 1000)" by (metis le_of_int_ceiling of_int_le_iff order_trans le_add_same_cancel1 zero_le_numeral)
    then show "num_le (Fin r) (of_whole (min (\<lceil>r\<rceil> + 1000) (2 ^ 31 - 1)))"
      using that by (simp add: of_whole_def min_def)
  qed simp
  with iff show ?thesis by auto
qed

lemma isValidBudget_iff_witness:
  "isValidBudget \<lparr>maxBytes = of_whole 5, timeoutMs = of_whole 250\<rparr>
   \<and> (\<exists>k. boundedReadGiveUpMs (num_ceil (of_whole 250)) = of_whole k \<and> k \<le> 2 ^ 31 - 1)"
proof -
  have valid: "isValidBudget \<lparr>maxBytes = of_whole 5, timeoutMs = of_whole 250\<rparr>"
    using isValidBudget_iff[of "\<lparr>maxBytes = of_whole 5, timeoutMs = of_whole 250\<rparr>"] by (auto simp: of_whole_def)
  with isValidBudget_iff[of "\<lparr>maxBytes = of_whole 5, timeoutMs = of_whole 250\<rparr>"] show ?thesis by auto
qed

subsection \<open>Listings\<close>

lemma entry_name_split:
  obtains dir where "afe_path e = dir @ entry_name e" and "47 \<notin> set (entry_name e)" and "dir = [] \<or> last dir = 47"
proof (cases "47 \<in> set (afe_path e)")
  case True
  then obtain l r where lr: "afe_path e = l @ 47 # r" "47 \<notin> set r" by (metis split_list_last)
  then have "entry_name e = r"
    by (simp add: entry_name_def lastIndexOf_append slice_from_def nat_add_distrib)
  with lr show ?thesis using that[of "l @ [47]"] by simp
next
  case False
  then have idx: "lastIndexOf 47 (afe_path e) = -1" by simp
  have "entry_name e = afe_path e" unfolding entry_name_def idx slice_from_def by simp
  then show ?thesis using that[of "[]"] False by simp
qed

lemma toFileInfos_filter:
  "toFileInfos entries base options =
     map (toFileInfo base)
       (filter (\<lambda>e. Option.bind options includeHidden = Some True \<or> \<not> startsWith [46] (entry_name e)) entries)"
  by (induction entries) auto

text \<open>Note: The listing the host gets is the agent's, in its order, without the entries whose own name starts with
  a dot unless hidden ones were asked for; each name is the last segment of its path, and the relative
  path of an entry below the listed directory is what follows the directory and its slash.\<close>

theorem toFileInfos_listing:
  "map fi_absolutePath (toFileInfos entries base options) =
     map afe_path
       (filter (\<lambda>e. Option.bind options includeHidden = Some True \<or> \<not> startsWith [46] (entry_name e)) entries)
   \<and> (\<forall>info \<in> set (toFileInfos entries base options).
        (\<exists>dir. fi_absolutePath info = dir @ fi_name info \<and> 47 \<notin> set (fi_name info) \<and> (dir = [] \<or> last dir = 47))
        \<and> (\<forall>rel. fi_absolutePath info = base @ 47 # rel \<longrightarrow> fi_relativePath info = rel))"
proof (intro conjI ballI)
  show "map fi_absolutePath (toFileInfos entries base options) = map afe_path
      (filter (\<lambda>e. Option.bind options includeHidden = Some True \<or> \<not> startsWith [46] (entry_name e)) entries)"
    by (simp add: toFileInfos_filter toFileInfo_def)
  fix info assume "info \<in> set (toFileInfos entries base options)"
  then obtain e where e: "info = toFileInfo base e" by (auto simp: toFileInfos_filter)
  show "\<exists>dir. fi_absolutePath info = dir @ fi_name info \<and> 47 \<notin> set (fi_name info) \<and> (dir = [] \<or> last dir = 47)"
    using entry_name_split[of e] by (auto simp: e toFileInfo_def)
  show "\<forall>rel. fi_absolutePath info = base @ 47 # rel \<longrightarrow> fi_relativePath info = rel"
    by (auto simp: e toFileInfo_def strip_lead_slash_def)
qed

lemma toFileInfos_listing_witness:
  "\<exists>info. toFileInfos [\<lparr>afe_path = [47, 97, 47, 98], afe_type = RegularFile, afe_size = of_whole 1\<rparr>] [47, 97] None = [info]
     \<and> fi_absolutePath info = [47, 97] @ 47 # [98] \<and> fi_relativePath info = [98]"
proof -
  let ?es = "[\<lparr>afe_path = [47, 97, 47, 98], afe_type = RegularFile, afe_size = of_whole 1\<rparr>]"
  obtain info where info: "toFileInfos ?es [47, 97] None = [info]" "fi_absolutePath info = [47, 97] @ 47 # [98]"
    by (simp add: toFileInfos_filter entry_name_def slice_from_def startsWith_def toFileInfo_def)
  from toFileInfos_listing[of ?es "[47, 97]" None] info show ?thesis by auto
qed

subsection \<open>The environment of a process\<close>

lemma process_env_get:
  assumes "obj_wf vars"
  shows "obj_get (process_env vars env) k = (case obj_get vars k of Some (Some v) \<Rightarrow> Some v | _ \<Rightarrow> obj_get env k)"
  using assms
proof (induction vars env rule: process_env.induct)
  case (2 name v rest env)
  then have "obj_get rest name = None" "obj_wf rest" by (simp_all add: obj_wf_Cons)
  with "2.IH" show ?case by (auto split: option.splits)
qed simp

lemma process_env_wf: "obj_wf env \<Longrightarrow> obj_wf (process_env vars env)"
  by (induction vars env rule: process_env.induct) (auto split: option.splits)

text \<open>A request that starts a login shell with a command.\<close>

definition starts_shell :: "AgentEndpoint \<Rightarrow> jsstring \<Rightarrow> request \<Rightarrow> bool" where
  "starts_shell ep command req \<longleftrightarrow>
     (\<exists>more. req = plain_request ep (js ''POST'') (js ''/process/start'')
        (JsonPayload (JObj ((js ''cmd'', JArr (map JStr [js ''sh'', js ''-lc'', command])) # more))) None)"

lemma agent_startProcess_sends:
  assumes "agent_startProcess pf ep (login_shell command) cwd s = (r, t)"
  shows "\<exists>req. log t = log s @ [req] \<and> starts_shell ep command req"
  using assms
  by (auto simp: agent_startProcess_def agent_request_def fetch_def or_refused_def or_missing_def starts_shell_def
      login_shell_def Let_def io_eval split: prod.splits sum.splits if_splits option.splits)

text \<open>Note: A started process runs the caller's command in the environment it was promised: a variable given for the
  process has that value whatever the sandbox set, and every other variable is as the sandbox's own
  settings and defaults leave it.\<close>

theorem startProcess_env:
  assumes "tidy config s" and "sb_channel (this s) = Some ep" and "obj_wf vars"
    and "sandbox_startProcess pf config cmd (Some \<lparr>start_processId = pid, start_cwd = cwd, start_env = Some vars\<rparr>) s
      = (Inr p, t)"
  shows "\<exists>command req. log t = log s @ [req] \<and> starts_shell ep command req
    \<and> (\<forall>E. \<exists>E'. sh_prefix E command = sh_prefix E' cmd
        \<and> (\<forall>k. E' k = (case obj_get vars k of
              Some (Some v) \<Rightarrow> Some v
            | _ \<Rightarrow> env_after (sb_env (this s)) (sb_envDefaults (this s)) E k)))"
proof -
  let ?env = "process_env vars []"
  from assms(2,4) obtain inner command r u where inner: "withEnvPrefix cmd ?env [] = Inr inner"
    and command: "withEnvPrefix inner (sb_env (this s)) (sb_envDefaults (this s)) = Inr command"
    and start: "agent_startProcess pf ep (login_shell command) cwd s = (r, u)" and "t = u"
    unfolding sandbox_startProcess_def
    by (auto simp: open_reached_state io_run Let_def bindR_eq_Inr elim!: bindIO_eqE catchIO_eqE)
  have "sh_prefix E command = sh_prefix (env_after ?env [] (env_after (sb_env (this s)) (sb_envDefaults (this s)) E)) cmd" for E
    using prefix_runs[OF command] prefix_runs[OF inner] by simp
  moreover have "env_after ?env [] E k = (case obj_get vars k of Some (Some v) \<Rightarrow> Some v | _ \<Rightarrow> E k)" for E k
    using env_after_get[of ?env "[]"] process_env_get[OF assms(3), of "[]" k] process_env_wf[of "[]" vars]
    by (auto split: option.splits)
  ultimately show ?thesis
    using agent_startProcess_sends[OF start] \<open>t = u\<close> by metis
qed

lemma startProcess_env_witness:
  "\<exists>p t command req.
     sandbox_startProcess (answering (jtext ''{`pid`:7}'')) demo_config (js ''run'')
       (Some \<lparr>start_processId = None, start_cwd = None, start_env = Some []\<rparr>) demo_reached = (Inr p, t)
     \<and> log t = log demo_reached @ [req] \<and> starts_shell (pl_channel demo_placement) command req"
proof -
  let ?pf = "answering (jtext ''{`pid`:7}'')" and ?ep = "pl_channel demo_placement"
  let ?options = "Some \<lparr>start_processId = None, start_cwd = None, start_env = Some []\<rparr>"
  have chan: "sb_channel (this demo_reached) = Some ?ep" by (simp add: demo_reached_def)
  have env: "sb_env (this demo_reached) = []" "sb_envDefaults (this demo_reached) = []"
    by (simp_all add: demo_reached_def demo_sandbox_def new_sandbox_def)
  have parsed: "JSON_parse (jtext ''{`pid`:7}'') = Some (JObj [(js ''pid'', JNum (of_whole 7))])" by code_simp
  have got: "body_text (utf8_bytes (jtext ''{`pid`:7}'')) = jtext ''{`pid`:7}''"
    using body_text_bytes[OF jtext_plain(1)] by simp
  have "\<exists>p t. sandbox_startProcess ?pf demo_config (js ''run'') ?options demo_reached = (Inr p, t)"
    using parsed got
    by (simp add: sandbox_startProcess_def bindIO_run open_reached_state[OF chan] io_run Let_def withEnvPrefix_def
        env agent_startProcess_def agent_request_def fetch_def answering_def quiet_platform_def
        catchIO_run or_refused_def or_missing_def rsp_ok_def response_json_def response_text_def response_bytes_def stream_bytes_def
        pidOf_def num_at_def json_at_def)
  then obtain p t where run: "sandbox_startProcess ?pf demo_config (js ''run'') ?options demo_reached = (Inr p, t)" by blast
  from startProcess_env[OF demo_tidy(2) chan _ run] run show ?thesis by (auto simp: obj_wf_def)
qed

subsection \<open>One look at a port\<close>

text \<open>Note: Asking whether a port answers is one look: it never throws, makes at most one request, to the agent this process has
  reached for the sandbox, changes nothing else, and a sandbox nobody has reached is simply not ready, without any request; in
  particular nothing is submitted or waited for.\<close>

theorem isPortReady_passive:
  "\<exists>b t. isPortReady pf port options s = (Inr b, t)
     \<and> this t = this s \<and> placements t = placements s \<and> remembered t = remembered s \<and> warnings t = warnings s
     \<and> (case (case sb_channel (this s) of Some ep \<Rightarrow> Some ep
             | None \<Rightarrow> map_option pl_channel (placements s (sb_id (this s)))) of
          None \<Rightarrow> \<not> b \<and> t = s
        | Some ep \<Rightarrow> (\<exists>req. log t = log s @ [req] \<and> to_agent ep req))"
proof (cases "case sb_channel (this s) of Some ep \<Rightarrow> Some ep | None \<Rightarrow> map_option pl_channel (placements s (sb_id (this s)))")
  case None
  then have "isPortReady pf port options s = (Inr False, s)" by (simp add: isPortReady_def io_eval)
  with None show ?thesis by auto
next
  case (Some ep)
  let ?probe = "probeOf (Some \<lparr>wait_mode = Some (or_else (Option.bind options wait_mode) Http),
                   wait_path = Option.bind options wait_path, wait_timeout = None\<rparr>)"
  obtain r t where run: "agent_waitForPort pf ep port (of_whole PORT_READY_TIMEOUT_MS) None ?probe s = (r, t)" by fastforce
  then have "\<exists>b. isPortReady pf port options s = (Inr b, t)"
    using Some by (cases r) (auto simp: isPortReady_def io_eval)
  moreover have "\<exists>req. log t = log s @ [req] \<and> to_agent ep req"
    using run
    by (auto simp: agent_waitForPort_def agent_request_def fetch_def or_refused_def or_missing_def Let_def io_eval
        split: prod.splits sum.splits if_splits option.splits)
  moreover have "this t = this s" "placements t = placements s" "remembered t = remembered s" "warnings t = warnings s"
    using more_fields[OF talks_more[OF agent.waitForPort run]] talks_warnings[OF agent.waitForPort run] by simp_all
  ultimately show ?thesis using Some by auto
qed

end
