(* ===== verification/Welcome.thy ===== *)
theory Welcome
  imports SandboxSpec
begin

section \<open>A run that goes well\<close>

text \<open>
  A concrete platform on which a sandbox of a single queue becomes ready: it is submitted, its events say
  where it runs and at which address, and the agent answers.  The witnesses of the properties of
  whole processes run on it.
\<close>

text \<open>A world in which everything goes well: every request gets the same answer, which serves as an accepted
  submission, as the events of the job and as the agent's health.\<close>

definition welcome_text :: jsstring where
  "welcome_text = jtext ''{`jobResponseItems`:[{`jobId`:`j`}],`result`:{`message`:{`running`:{`jobId`:`j`,`podName`:`p`},`ingressInfo`:{`jobId`:`j`,`ingressAddresses`:{`8718`:`h`}}}}}''"

definition welcome_members :: "json obj" where
  "welcome_members =
     [(js ''jobResponseItems'', JArr [JObj [(js ''jobId'', JStr (js ''j''))]]),
      (js ''result'', JObj [(js ''message'', JObj [
         (js ''running'', JObj [(js ''jobId'', JStr (js ''j'')), (js ''podName'', JStr (js ''p''))]),
         (js ''ingressInfo'', JObj [(js ''jobId'', JStr (js ''j'')),
            (js ''ingressAddresses'', JObj [(js ''8718'', JStr (js ''h''))])])])])]"

lemma welcome_line: "JSON_parse welcome_text = Some (JObj welcome_members)"
  by code_simp

lemma welcome_read: "readNdjson syn \<lparr>chunks = [utf8_bytes welcome_text], ending = None\<rparr> = ([JObj welcome_members], None)"
  using readNdjson_jtext[OF _ welcome_line[unfolded welcome_text_def]]
  by (simp add: welcome_text_def jtext_def js_def is_space_def)

definition welcome_message :: EventMessage where
  "welcome_message =
     \<lparr>running = Some \<lparr>run_jobId = Some (js ''j''), run_clusterId = None, run_podName = Some (js ''p''),
        run_podNamespace = None, run_nodeName = None\<rparr>,
      ingressInfo = Some \<lparr>info_jobId = Some (js ''j''), ingressAddresses = Some [(js ''8718'', Some (js ''h''))]\<rparr>,
      failed = None, cancelled = None\<rparr>"

lemma welcome_decodes: "message_line (JObj welcome_members) welcome_message"
  by (simp add: message_line_def welcome_members_def welcome_message_def decode_line_def decode_message_def decode_running_def
      decode_info_def obj_at_def json_at_def str_at_def)

abbreviation "welcoming \<equiv> answering welcome_text"

lemma welcome_answers:
  fixes s :: "'a net_state_scheme"
  assumes "cfg_auth config = Anonymous"
  obtains t response where "postTo welcoming config base path body ms s = (Inr response, t)" 
    "net_state.more t = net_state.more s" "rsp_ok response"
    "rsp_body response = Some \<lparr>chunks = [utf8_bytes welcome_text], ending = None\<rparr>"
  using assms that
  by (auto simp: postTo_def requestHeaders_def authorizationHeader_def answering_def quiet_platform_def fetch_def io_eval rsp_ok_def)

lemma welcome_job:
  fixes s :: "'a net_state_scheme"
  assumes "cfg_auth config = Anonymous"
  obtains t where "submit welcoming config sid spec queue s = (Inr \<lparr>job_id = js ''j'', job_setId = sid, job_queue = queue\<rparr>, t)"
    "net_state.more t = net_state.more s"
proof -
  let ?body = "SubmitBody (submit_request config sid spec queue)"
  obtain t response where t: "postTo welcoming config (cfg_url config) (js ''/v1/job/submit'') ?body None s = (Inr response, t)"
    "net_state.more t = net_state.more s" "rsp_body response = Some \<lparr>chunks = [utf8_bytes welcome_text], ending = None\<rparr>"
    by (rule welcome_answers[OF assms])
  have "body_text (utf8_bytes welcome_text) = welcome_text" by (simp add: welcome_text_def body_text_bytes)
  then have "response_json welcoming response = Inr (JObj welcome_members)"
    using t(3) welcome_line by (simp add: response_json_def response_text_def response_bytes_def stream_bytes_def)
  moreover have "read_submit sid queue (JObj welcome_members) = Inr \<lparr>job_id = js ''j'', job_setId = sid, job_queue = queue\<rparr>"
    by (simp add: read_submit_def welcome_members_def decode_submit_def arr_at_def json_at_def str_at_def)
  ultimately have "submit welcoming config sid spec queue s = (Inr \<lparr>job_id = js ''j'', job_setId = sid, job_queue = queue\<rparr>, t)"
    using t(1) by (simp add: submit_def postJson_def postJsonTo_def io_eval asObject_def)
  with t(2) that show ?thesis by blast
qed

lemma welcome_events:
  fixes s :: "'a net_state_scheme"
  assumes "cfg_auth config = Anonymous" and "watch_path job = Inr path"
  obtains t where "watched welcoming config job ms s [JObj welcome_members] None t" "net_state.more t = net_state.more s"
proof -
  obtain t response where t: "postTo welcoming config (cfg_url config) path (watch_body job) (Some (of_whole ms)) s = (Inr response, t)"
    "net_state.more t = net_state.more s" "rsp_body response = Some \<lparr>chunks = [utf8_bytes welcome_text], ending = None\<rparr>"
    by (rule welcome_answers[OF assms(1)])
  then have "watched welcoming config job ms s [JObj welcome_members] None t"
    using assms(2) welcome_read by (auto simp: watched_def post_def)
  with t(2) that show ?thesis by blast
qed

lemma welcome_health: "\<exists>t. probed welcoming ep (s :: 'a net_state_scheme) = (None, t) \<and> net_state.more t = net_state.more s"
  by (auto simp: probed_def probe_def io_eval fetch_def answering_def quiet_platform_def rsp_ok_def)

text \<open>A fresh instance of a single queue, and the stages of its \<open>ready\<close>.\<close>

definition fresh :: "ArmadaConfig \<Rightarrow> jsstring \<Rightarrow> sandbox_state \<Rightarrow> bool" where
  "fresh config queue s \<longleftrightarrow>
     cfg_auth config = Anonymous \<and> cfg_expose config = NodePort \<and> cfg_agentPort config = 8718
     \<and> sb_channel (this s) = None \<and> sb_job (this s) = None \<and> \<not> sb_attachOnly (this s)
     \<and> placements s (sb_id (this s)) = None \<and> sb_options (this s) = None
     \<and> resolve config (Some (findQueue welcoming config)) (sb_id (this s)) None s = (Inr queue, s)
     \<and> (\<exists>path. watch_path \<lparr>job_id = js ''j'', job_setId = sb_id (this s), job_queue = queue\<rparr> = Inr path)"

lemma welcome_stages:
  assumes "fresh config queue s" and "job = \<lparr>job_id = js ''j'', job_setId = sb_id (this s), job_queue = queue\<rparr>"
  obtains s1 pod s2 url s3 s4
  where "sandbox_submit welcoming config s = (Inr job, s1)"
    and "waitForRunning welcoming config job (s1\<lparr>this := (this s1)\<lparr>sb_job := Some job\<rparr>\<rparr>) = (Inr pod, s2)"
    and "portUrl welcoming config job (cfg_agentPort config) (s2\<lparr>this := (this s2)\<lparr>sb_pod := Some pod\<rparr>\<rparr>) = (Inr url, s3)"
    and "agent_ready welcoming \<lparr>ep_url = url, ep_token = sb_token (this s3), ep_pod = pod\<rparr> AGENT_READY_TIMEOUT_MS s3 = (Inr (), s4)"
proof -
  have auth: "cfg_auth config = Anonymous" using assms(1) by (simp add: fresh_def)
  obtain path where path: "watch_path job = Inr path" using assms by (auto simp: fresh_def)
  obtain spec where spec: "buildPodSpec config \<lparr>tokenSha256 = token_hash (sb_token (this s))\<rparr> None = Inr spec"
    by (simp add: buildPodSpec_def gpuNodeSelector_def requested_gpu_def Let_def)
  obtain s1 where "submit welcoming config (sb_id (this s)) spec queue s = (Inr job, s1)"
    using welcome_job[OF auth] assms(2) by blast
  then have s1: "sandbox_submit welcoming config s = (Inr job, s1)"
    using assms(1) spec by (simp add: fresh_def sandbox_submit_def sandbox_queue_def io_eval)
  let ?s1 = "s1\<lparr>this := (this s1)\<lparr>sb_job := Some job\<rparr>\<rparr>"
  obtain s2 where s2: "watched welcoming config job DEFAULT_RUNNING_TIMEOUT_MS ?s1 ([] @ [JObj welcome_members]) None s2"
    using welcome_events[OF auth path, of DEFAULT_RUNNING_TIMEOUT_MS ?s1] by auto
  obtain pod where pod: "waitForRunning welcoming config job ?s1 = (Inr pod, s2)"
    using waitForRunning_watched[OF s2] welcome_decodes assms(2)
    by (simp add: with_message_line waitForRunning_step_def running_step_def welcome_message_def)
  let ?s2 = "s2\<lparr>this := (this s2)\<lparr>sb_pod := Some pod\<rparr>\<rparr>"
  obtain s3 where s3: "watched welcoming config job DEFAULT_INGRESS_TIMEOUT_MS ?s2 [JObj welcome_members] None s3"
    using welcome_events[OF auth path, of DEFAULT_INGRESS_TIMEOUT_MS ?s2] by blast
  have port: "show_int 8718 = js ''8718''" by (simp add: show_int_def js_def show_nat.simps)
  have "with_message (ingressAddress_step job 8718) (JObj welcome_members) = Some (Inr (js ''h''))"
    using port assms(2)
    by (simp add: with_message_line[OF welcome_decodes] ingressAddress_step_def ingress_step_def welcome_message_def obj_get_def)
  then have "\<exists>url. portUrl welcoming config job (cfg_agentPort config) ?s2 = (Inr url, s3)"
    using assms(1) by (simp add: fresh_def watch_events_watched[OF s3] portUrl_def ingressAddress_def bindIO_run io_run)
  then obtain url where url: "portUrl welcoming config job (cfg_agentPort config) ?s2 = (Inr url, s3)" by blast
  let ?channel = "\<lparr>ep_url = url, ep_token = sb_token (this s3), ep_pod = pod\<rparr>"
  obtain s4 where "probed welcoming ?channel s3 = (None, s4)" using welcome_health by blast
  then have "agent_ready welcoming ?channel AGENT_READY_TIMEOUT_MS s3 = (Inr (), s4)"
    by (simp add: agent_ready_def ready_loop.simps)
  with s1 pod url that show ?thesis by blast
qed

lemma welcome_ready:
  assumes "fresh config queue s"
  shows "\<exists>t. sandbox_ready welcoming config s = (Inr (), t)"
proof -
  let ?job = "\<lparr>job_id = js ''j'', job_setId = sb_id (this s), job_queue = queue\<rparr>"
  obtain s1 pod s2 url s3 s4
    where s1: "sandbox_submit welcoming config s = (Inr ?job, s1)"
      and pod: "waitForRunning welcoming config ?job (s1\<lparr>this := (this s1)\<lparr>sb_job := Some ?job\<rparr>\<rparr>) = (Inr pod, s2)"
      and url: "portUrl welcoming config ?job (cfg_agentPort config) (s2\<lparr>this := (this s2)\<lparr>sb_pod := Some pod\<rparr>\<rparr>) = (Inr url, s3)"
      and health: "agent_ready welcoming \<lparr>ep_url = url, ep_token = sb_token (this s3), ep_pod = pod\<rparr>
        AGENT_READY_TIMEOUT_MS s3 = (Inr (), s4)"
    using welcome_stages[OF assms refl] .
  have job: "ensure_job welcoming config s = (Inr ?job, s1\<lparr>this := (this s1)\<lparr>sb_job := Some ?job\<rparr>\<rparr>)"
    using assms s1 by (simp add: fresh_def ensure_job_def set_this_def io_eval)
  have "\<exists>t. connect welcoming ?job pod url s3 = (Inr (), t)"
    using health by (simp add: connect_def Let_def io_eval set_this_def place_def)
  with job pod url have "\<exists>t. reach welcoming config s = (Inr (), t)"
    by (simp add: reach_def set_this_def io_eval)
  with assms show ?thesis by (simp add: fresh_def sandbox_ready_def io_eval)
qed

lemma welcome_cancel:
  fixes s :: "'a net_state_scheme"
  assumes "cfg_auth config = Anonymous"
  obtains t where "cancel welcoming config job s = (Inr (), t)" and "net_state.more t = net_state.more s"
proof -
  let ?body = "CancelBody \<lparr>cancel_queue = job_queue job, cancel_jobSetId = job_setId job, cancel_jobId = Some (job_id job)\<rparr>"
  obtain t response where t: "postTo welcoming config (cfg_url config) (js ''/v1/job/cancel'') ?body None s = (Inr response, t)"
    "net_state.more t = net_state.more s"
    by (rule welcome_answers[OF assms])
  then have "cancel welcoming config job s = (Inr (), t)" by (simp add: cancel_def post_def io_eval)
  with t(2) that show ?thesis by blast
qed

end
