(* ===== verification/Process.thy ===== *)
theory Process
  imports Provider SandboxData Welcome
begin

section \<open>The running adapter: steps and invariants\<close>

text \<open>
  The states a process of the adapter can get into, as the reachable states of a step relation over
  the calls of the host, for every platform.  The invariant, shown by induction on the steps, accounts
  for every request ever made: it belongs to one of the instances the host was given, or is an
  enumeration scoped to this installation.  The properties read off the invariant what the comments
  of the source promise about tokens, attached instances and shared placements.
\<close>

subsection \<open>States and steps\<close>

record process_state = world +
  sandboxes :: "ArmadaSandbox list"
  processes :: "ArmadaProcess list"

definition initial :: process_state where
  "initial = \<lparr>log = [], clock = 0, warnings = [], remembered = (\<lambda>_. None), placements = (\<lambda>_. None),
     sandboxes = [], processes = []\<rparr>"

text \<open>A method of the \<open>k\<close>-th instance sees the shared world and the instance's own fields.\<close>

definition enter :: "nat \<Rightarrow> process_state \<Rightarrow> sandbox_state" where
  "enter k p = \<lparr>log = log p, clock = clock p, warnings = warnings p, remembered = remembered p,
     placements = placements p, this = sandboxes p ! k\<rparr>"

definition leave :: "nat \<Rightarrow> process_state \<Rightarrow> sandbox_state \<Rightarrow> process_state" where
  "leave k p t = p\<lparr>log := log t, clock := clock t, warnings := warnings t, remembered := remembered t,
     placements := placements t, sandboxes := (sandboxes p)[k := this t]\<rparr>"

definition on_sandbox :: "nat \<Rightarrow> (unit, 'r) sandbox_io \<Rightarrow> process_state \<Rightarrow> 'r result \<times> process_state" where
  "on_sandbox k m p = (case m (enter k p) of (r, t) \<Rightarrow> (r, leave k p t))"

inductive step :: "platform \<Rightarrow> ArmadaConfig \<Rightarrow> process_state \<Rightarrow> process_state \<Rightarrow> bool"
  for pf :: platform and config :: ArmadaConfig where
  creates: "step pf config p (p\<lparr>sandboxes := sandboxes p @ [provider_create config sid options]\<rparr>)"
| attaches: "step pf config p (p\<lparr>sandboxes := sandboxes p @ [connectExisting config sid options]\<rparr>)"
| calls: "k < length (sandboxes p) \<Longrightarrow> on_sandbox k (perform pf config c) p = (r, q) \<Longrightarrow> step pf config p q"
| starts: "k < length (sandboxes p) \<Longrightarrow> on_sandbox k (sandbox_startProcess pf config cmd options) p = (Inr pr, q) \<Longrightarrow>
    step pf config p (q\<lparr>processes := processes q @ [pr]\<rparr>)"
| talks_to: "pr \<in> set (processes p) \<Longrightarrow> perform_process pf pr c p = (r, q) \<Longrightarrow> step pf config p q"
| enumerates: "provider_listActive config = Some ask \<Longrightarrow> ask fuel pf p = Some (r, q) \<Longrightarrow>
    step pf config p q"

inductive_cases stepE: "step pf config p q"

inductive reachable :: "platform \<Rightarrow> ArmadaConfig \<Rightarrow> process_state \<Rightarrow> bool"
  for pf :: platform and config :: ArmadaConfig where
  start: "reachable pf config initial"
| onward: "reachable pf config p \<Longrightarrow> step pf config p q \<Longrightarrow> reachable pf config q"

subsection \<open>The invariant\<close>

definition accounted :: "ArmadaConfig \<Rightarrow> ArmadaSandbox list \<Rightarrow> request \<Rightarrow> bool" where
  "accounted config sbs req \<longleftrightarrow> (\<exists>sb \<in> set sbs. own config sb req) \<or> scoped config req"

definition process_ok :: "ArmadaConfig \<Rightarrow> process_state \<Rightarrow> bool" where
  "process_ok config p \<longleftrightarrow>
     placements_ok config (placements p)
     \<and> list_all (sandbox_ok config) (sandboxes p)
     \<and> list_all (\<lambda>pr. \<exists>sb \<in> set (sandboxes p). ep_token (pr_channel pr) = sb_token sb) (processes p)
     \<and> list_all (accounted config (sandboxes p)) (log p)"

lemma own_same:
  assumes "same_sandbox a b"
  shows "own config a = own config b"
proof -
  have submits: "own_submit config a = own_submit config b"
    using assms by (auto simp: fun_eq_iff own_submit_def same_sandbox_def)
  show ?thesis using assms by (intro ext) (simp add: own_def submits same_sandbox_def)
qed

lemma same_sandbox_sym: "same_sandbox a b \<Longrightarrow> same_sandbox b a"
  by (simp add: same_sandbox_def)

text \<open>What was accounted for stays so: instances are only added, and keep their identity.\<close>

lemma accounted_more: "accounted config sbs req \<Longrightarrow> accounted config (sbs @ [sb]) req"
  by (auto simp: accounted_def)

lemma kept_instance:
  assumes "k < length sbs" and "same_sandbox sb (sbs ! k)" and "a \<in> set sbs"
  obtains b where "b \<in> set (sbs[k := sb])" and "same_sandbox a b"
proof -
  from assms(3) obtain i where i: "i < length sbs" "sbs ! i = a" by (auto simp: in_set_conv_nth)
  show ?thesis
  proof (cases "i = k")
    case True
    with i assms have "same_sandbox a sb" "sb \<in> set (sbs[k := sb])"
      by (auto simp: same_sandbox_sym set_update_memI)
    then show ?thesis using that by blast
  next
    case False
    with i have "a \<in> set (sbs[k := sb])" by (metis length_list_update nth_list_update_neq nth_mem)
    then show ?thesis using that by (auto simp: same_sandbox_def)
  qed
qed

lemma accounted_update:
  assumes "k < length sbs" and "same_sandbox sb (sbs ! k)" and "accounted config sbs req"
  shows "accounted config (sbs[k := sb]) req"
  using assms(3) unfolding accounted_def
  by (metis kept_instance[OF assms(1,2)] own_same)

lemma enter_tidy:
  "process_ok config p \<Longrightarrow> k < length (sandboxes p) \<Longrightarrow> tidy config (enter k p)"
  by (simp add: process_ok_def tidy_def enter_def list_all_length)

lemma leave_ok:
  assumes ok: "process_ok config p" and k: "k < length (sandboxes p)"
    and t: "stays config (enter k p) t"
  shows "process_ok config (leave k p t)"
proof -
  let ?sbs = "(sandboxes p)[k := this t]"
  have same: "same_sandbox (this t) (sandboxes p ! k)" and tidy: "tidy config t"
    using t by (simp_all add: stays_def enter_def)
  obtain l where l: "log t = log p @ l" "list_all (own config (sandboxes p ! k)) l"
    using t by (auto simp: stays_def enter_def)
  have "this t \<in> set ?sbs" using k by (simp add: set_update_memI)
  then have "list_all (accounted config ?sbs) l"
    using l(2) unfolding list_all_iff accounted_def by (metis own_same[OF same])
  moreover have "list_all (accounted config ?sbs) (log p)"
    using ok accounted_update[OF k same] by (auto simp: process_ok_def list_all_iff)
  moreover have "list_all (\<lambda>pr. \<exists>sb \<in> set ?sbs. ep_token (pr_channel pr) = sb_token sb) (processes p)"
    using ok unfolding process_ok_def list_all_iff
    by (metis kept_instance[OF k same] same_sandbox_def)
  moreover have "list_all (sandbox_ok config) ?sbs"
    using ok tidy set_update_subset_insert[of "sandboxes p" k "this t"]
    by (auto simp: process_ok_def tidy_def list_all_iff)
  ultimately show ?thesis
    using tidy l(1) by (simp add: process_ok_def leave_def tidy_def)
qed

lemma on_sandbox_ok:
  assumes "process_ok config p" and "k < length (sandboxes p)" and "on_sandbox k m p = (r, q)"
    and "safe config (enter k p) m F"
  shows "process_ok config q"
    and "r = Inr x \<Longrightarrow> F x"
proof -
  obtain t where run: "m (enter k p) = (r, t)" and q: "q = leave k p t"
    using assms(3) by (auto simp: on_sandbox_def split: prod.splits)
  note start = stays_start[OF enter_tidy[OF assms(1,2)]]
  from safe_stays[OF assms(4) start run] leave_ok[OF assms(1,2)] show "process_ok config q" by (simp add: q)
  show "r = Inr x \<Longrightarrow> F x" using safe_value[OF assms(4) start] run by blast
qed

lemma new_sandbox_ok: "sandbox_ok config (new_sandbox config sid options attach)"
  by (simp add: sandbox_ok_def new_sandbox_def valid_env_def obj_keys_def)

lemma active_pages_scoped:
  "active_pages fuel pf config lookout skip acc s = Some (r, t) \<Longrightarrow>
     (\<exists>l. log t = log s @ l \<and> list_all (scoped config) l) \<and> net_state.more t = net_state.more s"
proof (induction fuel arbitrary: skip acc s)
  case (Suc fuel)
  obtain r' u where page: "active_page pf config lookout skip s = (r', u)" by fastforce
  from page obtain l where u: "log u = log s @ l" "list_all (scoped config) l" "net_state.more u = net_state.more s"
    unfolding active_page_def by (blast elim: talksE[OF talks_lookoutJobs])
  show ?case
  proof (cases "u = t")
    case True
    then show ?thesis using u by blast
  next
    case False
    then obtain skip' acc' where "active_pages fuel pf config lookout skip' acc' u = Some (r, t)"
      using Suc.prems page by (auto simp: Let_def split: sum.splits if_splits)
    from Suc.IH[OF this] u show ?thesis by (auto simp: list_all_append)
  qed
qed simp

lemma remember_all_fields:
  "log (remember_all jobs s) = log s \<and> world.more (remember_all jobs s) = world.more s
     \<and> placements (remember_all jobs s) = placements (s :: 'a world_scheme)"
  by (induction jobs arbitrary: s) (simp_all add: remember_def io_run)

lemma more_process:
  assumes "net_state.more t = net_state.more (s :: process_state)"
  shows "placements t = placements s" "world.more t = world.more s" "sandboxes t = sandboxes s"
    "processes t = processes s"
  using assms by (cases s; cases t; simp)+

lemma world_more_process:
  "world.more t = world.more (s :: process_state) \<Longrightarrow> sandboxes t = sandboxes s \<and> processes t = processes s"
  by (cases s; cases t) simp

lemma enumeration_log:
  fixes p :: process_state
  assumes "provider_listActive config = Some ask" and "ask fuel pf p = Some (r, q)"
  shows "(\<exists>l. log q = log p @ l \<and> list_all (scoped config) l)
    \<and> placements q = placements p \<and> sandboxes q = sandboxes p \<and> processes q = processes p"
proof -
  from assms obtain lookout where lookout: "cfg_lookoutUrl config = Some lookout"
    by (auto simp: provider_listActive_def split: if_splits)
  have ask: "ask fuel pf p = (case active_pages fuel pf config lookout 0 [] p of
      None \<Rightarrow> None
    | Some (Inl e, t) \<Rightarrow> Some (Inl e, t)
    | Some (Inr jobs, t) \<Rightarrow> Some (Inr (map without_queue jobs), remember_all jobs t))"
    using assms(1) lookout by (auto simp: provider_listActive_def client_listActive_def)
  obtain r' t where run: "active_pages fuel pf config lookout 0 [] p = Some (r', t)"
    using assms(2)[unfolded ask] by (cases "active_pages fuel pf config lookout 0 [] p") auto
  obtain jobs where q: "q = t \<or> q = remember_all jobs t"
    using assms(2)[unfolded ask run] by (cases r') auto
  from active_pages_scoped[OF run] obtain l where t: "log t = log p @ l" "list_all (scoped config) l"
    "net_state.more t = net_state.more p" by blast
  note same = more_process[OF t(3)]
  have "log q = log t" "placements q = placements p" "sandboxes q = sandboxes p" "processes q = processes p"
    using q same remember_all_fields[of jobs t] world_more_process[of "remember_all jobs t" t] by auto
  with t(1,2) show ?thesis by auto
qed

lemma enumeration_ok:
  assumes ok: "process_ok config p" and "provider_listActive config = Some ask" and "ask fuel pf p = Some (r, q)"
  shows "process_ok config q"
  using ok enumeration_log[OF assms(2,3)] by (auto simp: process_ok_def accounted_def list_all_iff)

lemma process_call_ok:
  assumes ok: "process_ok config p" and pr: "pr \<in> set (processes p)" and run: "perform_process pf pr c p = (r, q)"
  shows "process_ok config q"
proof -
  from run obtain l where l: "log q = log p @ l" "list_all (to_agent (pr_channel pr)) l" "net_state.more q = net_state.more p"
    by (rule talksE[OF talks_perform_process])
  from ok pr obtain sb where "sb \<in> set (sandboxes p)" "ep_token (pr_channel pr) = sb_token sb"
    by (auto simp: process_ok_def list_all_iff)
  with l(2) have "list_all (accounted config (sandboxes p)) l"
    by (auto simp: list_all_iff accounted_def own_def)
  with ok l(1) more_process[OF l(3)] show ?thesis by (auto simp: process_ok_def)
qed

lemma step_ok:
  assumes "step pf config p q" and ok: "process_ok config p"
  shows "process_ok config q"
  using assms(1)
proof cases
  case (creates sid options)
  then show ?thesis
    using ok by (auto simp: process_ok_def provider_create_def new_sandbox_ok list_all_iff accounted_more)
next
  case (attaches sid options)
  then show ?thesis
    using ok by (auto simp: process_ok_def connectExisting_def new_sandbox_ok list_all_iff accounted_more)
next
  case (calls k c r)
  from on_sandbox_ok(1)[OF ok calls safe_perform[OF enter_tidy[OF ok calls(1)]]] show ?thesis .
next
  case (starts k cmd options pr q')
  note safe = safe_startProcess[OF enter_tidy[OF ok starts(2)]]
  have q': "process_ok config q'" using on_sandbox_ok(1)[OF ok starts(2,3) safe] .
  have "ep_token (pr_channel pr) = sb_token (sandboxes p ! k)"
    using on_sandbox_ok(2)[OF ok starts(2,3) safe] by (simp add: enter_def)
  moreover obtain t where "q' = leave k p t" "stays config (enter k p) t"
    using starts(3) safe_stays[OF safe stays_start[OF enter_tidy[OF ok starts(2)]]]
    by (auto simp: on_sandbox_def split: prod.splits)
  then have "\<exists>sb \<in> set (sandboxes q'). sb_token sb = sb_token (sandboxes p ! k)"
    using starts(2) by (auto simp: leave_def stays_id(2) enter_def intro!: bexI[of _ "this t"] set_update_memI)
  ultimately show ?thesis
    using q' unfolding starts(1) by (auto simp: process_ok_def) metis
next
  case (talks_to pr c r)
  with process_call_ok[OF ok] show ?thesis by blast
next
  case (enumerates ask fuel r)
  with enumeration_ok[OF ok] show ?thesis by blast
qed

lemma reachable_ok: "reachable pf config p \<Longrightarrow> process_ok config p"
proof (induction rule: reachable.induct)
  case start
  show ?case by (simp add: process_ok_def initial_def placements_ok_def)
qed (rule step_ok)

subsection \<open>What holds of every process\<close>

text \<open>Note: Whatever the host does and whatever the network answers, every job ever submitted is one of a sandbox the host
  created, not merely attached to, and its pod was built from that sandbox's own options with nothing of
  its token but the hash.\<close>

theorem submissions_hashed:
  assumes "reachable pf config p" and "req \<in> set (log p)" and "req_body req = Some (SubmitBody r)"
  shows "\<exists>sb \<in> set (sandboxes p). \<not> sb_attachOnly sb
    \<and> (\<exists>spec queue. r = submit_request config (sb_id sb) spec queue
        \<and> buildPodSpec config
            \<lparr>tokenSha256 = hex_of (sha256 (utf8_bytes (agentToken (cfg_agentTokenSecret config) (sb_id sb))))\<rparr>
            (sb_options sb) = Inr spec)"
proof -
  from reachable_ok[OF assms(1)] assms(2) have "accounted config (sandboxes p) req"
    by (auto simp: process_ok_def list_all_iff)
  then obtain sb where sb: "sb \<in> set (sandboxes p)" "own config sb req"
    using assms(3) by (auto simp: accounted_def scoped_def)
  then have "own_submit config sb r"
    using assms(3) by (auto simp: own_def to_armada_def to_agent_def)
  moreover have "sb_token sb = agentToken (cfg_agentTokenSecret config) (sb_id sb)"
    using reachable_ok[OF assms(1)] sb(1) by (auto simp: process_ok_def list_all_iff sandbox_ok_def)
  ultimately show ?thesis using sb(1) by (auto simp: own_submit_def token_hash_def)
qed

lemma on_sandbox_stays:
  assumes "reachable pf config p" and "k < length (sandboxes p)" and "on_sandbox k (perform pf config c) p = (r, q)"
  obtains t where "q = leave k p t" and "stays config (enter k p) t"
proof -
  from assms(3) obtain t where t: "perform pf config c (enter k p) = (r, t)" "q = leave k p t"
    by (auto simp: on_sandbox_def split: prod.splits)
  with perform_stays[OF enter_tidy[OF reachable_ok[OF assms(1)] assms(2)] t(1)] that show ?thesis by blast
qed

text \<open>Note: An attached instance never submits a job: whichever method is called on it, in whatever state the process
  is in, no request it makes is a submission.\<close>

theorem attached_never_submits:
  assumes "reachable pf config p" and "k < length (sandboxes p)" and "sb_attachOnly (sandboxes p ! k)"
    and "on_sandbox k (perform pf config c) p = (r, q)"
  shows "\<exists>l. log q = log p @ l \<and> list_all (\<lambda>req. \<forall>job. req_body req \<noteq> Some (SubmitBody job)) l"
proof -
  obtain t where q: "q = leave k p t" and t: "stays config (enter k p) t"
    using on_sandbox_stays[OF assms(1,2,4)] .
  from t obtain l where l: "log t = log p @ l" "list_all (own config (sandboxes p ! k)) l"
    by (auto simp: stays_def enter_def)
  have "list_all (\<lambda>req. \<forall>job. req_body req \<noteq> Some (SubmitBody job)) l"
    using l(2) assms(3) by (auto simp: list_all_iff own_def to_armada_def own_submit_def to_agent_def)
  with l(1) show ?thesis by (simp add: q leave_def)
qed

text \<open>Note: Sandboxes do not interfere: a method of one instance leaves every other instance as it was, keeps its own
  identity, and of what all instances share changes nothing about any other sandbox, neither its queue
  nor its placement; and it makes requests only of its own.\<close>

theorem calls_isolated:
  assumes "reachable pf config p" and "k < length (sandboxes p)" and "on_sandbox k (perform pf config c) p = (r, q)"
  shows "length (sandboxes q) = length (sandboxes p) \<and> (\<forall>i. i \<noteq> k \<longrightarrow> sandboxes q ! i = sandboxes p ! i)
    \<and> same_sandbox (sandboxes q ! k) (sandboxes p ! k)
    \<and> (\<forall>sid. sid \<noteq> sb_id (sandboxes p ! k) \<longrightarrow>
         placements q sid = placements p sid \<and> remembered q sid = remembered p sid)
    \<and> processes q = processes p
    \<and> (\<exists>l. log q = log p @ l \<and> list_all (own config (sandboxes p ! k)) l)"
proof -
  obtain t where q: "q = leave k p t" and t: "stays config (enter k p) t"
    using on_sandbox_stays[OF assms] .
  with assms(2) show ?thesis by (auto simp: leave_def stays_def enter_def)
qed

text \<open>Note: No channel is ever filed under the wrong sandbox: the channel an instance holds, and the placement found under an
  id by every instance of it, carry that id's token and a job of that id's job set.\<close>

theorem placements_fit:
  assumes "reachable pf config p"
  shows "(\<forall>sb \<in> set (sandboxes p). \<forall>ep. sb_channel sb = Some ep \<longrightarrow>
      ep_token ep = agentToken (cfg_agentTokenSecret config) (sb_id sb) \<and> sb_job sb \<noteq> None \<and> sb_pod sb \<noteq> None)
    \<and> (\<forall>sid pl. placements p sid = Some pl \<longrightarrow>
        ep_token (pl_channel pl) = agentToken (cfg_agentTokenSecret config) sid \<and> job_setId (pl_job pl) = sid)"
  using reachable_ok[OF assms]
  by (auto simp: process_ok_def list_all_iff sandbox_ok_def placements_ok_def placement_ok_def)

subsection \<open>Witnesses\<close>

definition demo_process :: process_state where
  "demo_process = initial\<lparr>sandboxes := [connectExisting demo_config (js ''sb'') None]\<rparr>"

lemma demo_process_reachable: "reachable pf demo_config demo_process"
  using onward[OF start attaches[of pf demo_config initial "js ''sb''" None]]
  by (simp add: demo_process_def initial_def)

lemma attached_never_submits_witness:
  "\<forall>pf. \<exists>r q l. on_sandbox 0 (perform pf demo_config Ready) demo_process = (r, q) \<and> log q = l
     \<and> list_all (\<lambda>req. \<forall>job. req_body req \<noteq> Some (SubmitBody job)) l"
proof
  fix pf
  obtain r q where run: "on_sandbox 0 (perform pf demo_config Ready) demo_process = (r, q)" by fastforce
  have "log demo_process = []" by (simp add: demo_process_def initial_def)
  with attached_never_submits[OF demo_process_reachable _ _ run] run
  show "\<exists>r q l. on_sandbox 0 (perform pf demo_config Ready) demo_process = (r, q) \<and> log q = l
     \<and> list_all (\<lambda>req. \<forall>job. req_body req \<noteq> Some (SubmitBody job)) l"
    by (simp add: demo_process_def connectExisting_def new_sandbox_def)
qed

lemma calls_isolated_witness:
  "\<forall>pf. \<exists>r q. on_sandbox 0 (perform pf demo_config Ready) demo_process = (r, q)
     \<and> (\<forall>sid. sid \<noteq> js ''sb'' \<longrightarrow> placements q sid = None)"
proof
  fix pf
  obtain r q where run: "on_sandbox 0 (perform pf demo_config Ready) demo_process = (r, q)" by fastforce
  from calls_isolated[OF demo_process_reachable _ run] run
  show "\<exists>r q. on_sandbox 0 (perform pf demo_config Ready) demo_process = (r, q)
     \<and> (\<forall>sid. sid \<noteq> js ''sb'' \<longrightarrow> placements q sid = None)"
    by (auto simp: demo_process_def connectExisting_def new_sandbox_def initial_def)
qed

text \<open>With a single queue, a created sandbox submits without asking; here nobody answers.\<close>

definition single_config :: ArmadaConfig where
  "single_config = demo_config\<lparr>cfg_queueByUser := [], cfg_queueByProject := []\<rparr>"

definition created_process :: process_state where
  "created_process = initial\<lparr>sandboxes := [provider_create single_config (js ''sb'') None]\<rparr>"

lemma created_submits:
  "\<exists>q req r. reachable quiet_platform single_config q \<and> req \<in> set (log q) \<and> req_body req = Some (SubmitBody r)
     \<and> length (sandboxes q) = 1"
proof -
  have start: "reachable quiet_platform single_config created_process"
    using onward[OF start creates[of quiet_platform single_config initial "js ''sb''" None]]
    by (simp add: created_process_def initial_def)
  obtain r q where run: "on_sandbox 0 (perform quiet_platform single_config Ready) created_process = (r, q)" by fastforce
  have "\<not> queue_mapped single_config"
    by (simp add: queue_mapped_iff single_config_def obj_values_def)
  then have "\<exists>req j. req \<in> set (log q) \<and> req_body req = Some (SubmitBody j)"
    using run
    by (auto simp: on_sandbox_def enter_def leave_def created_process_def initial_def provider_create_def new_sandbox_def
        sandbox_ready_def reach_def ensure_job_def sandbox_submit_def sandbox_queue_def resolve_def
        buildPodSpec_def gpuNodeSelector_def requested_gpu_def Let_def submit_def postJson_def postJsonTo_def postTo_def
        requestHeaders_def authorizationHeader_def single_config_def demo_config_def quiet_platform_def fetch_def io_eval)
  moreover have "reachable quiet_platform single_config q"
    by (rule onward[OF start calls[OF _ run]]) (simp add: created_process_def)
  moreover have "length (sandboxes q) = 1"
    using run by (auto simp: on_sandbox_def leave_def created_process_def split: prod.splits)
  ultimately show ?thesis by blast
qed

lemma submissions_hashed_witness:
  "\<exists>q req r. reachable quiet_platform single_config q \<and> req \<in> set (log q) \<and> req_body req = Some (SubmitBody r)
     \<and> (\<exists>sb \<in> set (sandboxes q). \<exists>spec queue. r = submit_request single_config (sb_id sb) spec queue
          \<and> buildPodSpec single_config
              \<lparr>tokenSha256 = hex_of (sha256 (utf8_bytes (agentToken (cfg_agentTokenSecret single_config) (sb_id sb))))\<rparr>
              (sb_options sb) = Inr spec)"
proof -
  obtain q req r where "reachable quiet_platform single_config q" "req \<in> set (log q)" "req_body req = Some (SubmitBody r)"
    using created_submits by blast
  with submissions_hashed[OF this] show ?thesis by metis
qed

text \<open>And where everything goes well, the sandbox gets its placement.\<close>

lemma created_reachable: "reachable pf single_config created_process"
  using onward[OF start creates[of pf single_config initial "js ''sb''" None]]
  by (simp add: created_process_def initial_def)

lemma created_enter:
  "this (enter 0 created_process) = provider_create single_config (js ''sb'') None"
  "placements (enter 0 created_process) = (\<lambda>_. None)" "remembered (enter 0 created_process) = (\<lambda>_. None)"
  by (simp_all add: enter_def created_process_def initial_def)

lemma created_fresh: "fresh single_config (js ''q'') (enter 0 created_process)"
proof -
  have "\<not> queue_mapped single_config" by (simp add: queue_mapped_iff single_config_def obj_values_def)
  then have "resolve single_config (Some (findQueue welcoming single_config)) (js ''sb'') None (enter 0 created_process)
      = (Inr (js ''q''), enter 0 created_process)"
    by (simp add: created_enter resolve_def io_eval single_config_def demo_config_def)
  moreover have "\<exists>path. watch_path \<lparr>job_id = js ''j'', job_setId = js ''sb'', job_queue = js ''q''\<rparr> = Inr path"
    by (simp add: watch_path_def encodeURIComponent_def js_def is_high_def is_low_def)
  ultimately show ?thesis
    by (simp add: fresh_def created_enter provider_create_def new_sandbox_def) (simp add: single_config_def demo_config_def)
qed

lemma welcomed:
  "\<exists>q sb ep. reachable welcoming single_config q \<and> sandboxes q = [sb] \<and> sb_id sb = js ''sb'' \<and> sb_channel sb = Some ep
     \<and> placements q (js ''sb'') \<noteq> None"
proof -
  let ?s = "enter 0 created_process"
  obtain t where t: "sandbox_ready welcoming single_config ?s = (Inr (), t)"
    using welcome_ready[OF created_fresh] by blast
  have tidy: "tidy single_config ?s"
    by (rule enter_tidy[OF reachable_ok[OF created_reachable]]) (simp add: created_process_def)
  have "same_sandbox (this t) (this ?s)"
    using perform_stays[OF tidy, of welcoming Ready] t by (simp add: stays_def)
  then have sid: "sb_id (this t) = js ''sb''" by (simp add: same_sandbox_def created_enter provider_create_def new_sandbox_def)
  obtain ep pl where ep: "sb_channel (this t) = Some ep" "placements t (js ''sb'') = Some pl"
    using ready_places[OF _ t] created_enter sid by (auto simp: provider_create_def new_sandbox_def)
  let ?q = "leave 0 created_process t"
  have "reachable welcoming single_config ?q"
    using onward[OF created_reachable calls[of 0 created_process welcoming single_config Ready "Inr ()" ?q]] t
    by (simp add: on_sandbox_def created_process_def)
  with ep sid show ?thesis by (auto simp: leave_def created_process_def)
qed

lemma placements_fit_witness:
  "\<exists>q sb ep pl. reachable welcoming single_config q \<and> sandboxes q = [sb] \<and> sb_id sb = js ''sb''
     \<and> sb_channel sb = Some ep \<and> ep_token ep = agentToken (cfg_agentTokenSecret single_config) (js ''sb'')
     \<and> placements q (js ''sb'') = Some pl \<and> job_setId (pl_job pl) = js ''sb''"
proof -
  obtain q sb ep where "reachable welcoming single_config q" "sandboxes q = [sb]" "sb_id sb = js ''sb''" "sb_channel sb = Some ep"
    "placements q (js ''sb'') \<noteq> None"
    using welcomed by blast
  with placements_fit[OF this(1)] show ?thesis by fastforce
qed

end
