(* ===== verification/Interleaving.thy ===== *)
theory Interleaving
  imports Steady Process
begin

section \<open>The adapter with its calls interleaved\<close>

text \<open>
  A process in which calls are under way at the same time: what is left of each is a task on its
  instance, and a step lets any one of them take its next turn, or is one the host makes.  The invariant
  holds in every interleaving, so the promises about tokens and placements do not depend on calls
  being made one at a time.  Running every call to its end at once gives back the process of
  \<open>Process\<close>.  What a process started in the pod does, and enumeration, count as one step: between their requests
  they touch nothing that is shared.
\<close>

subsection \<open>Steps\<close>

type_synonym under_way = "nat \<times> (sandbox_state, ArmadaProcess option) task"

record pool =
  process :: process_state
  calls :: "under_way list"

definition no_calls :: pool where
  "no_calls = \<lparr>process = initial, calls = []\<rparr>"

inductive turn_step :: "platform \<Rightarrow> ArmadaConfig \<Rightarrow> pool \<Rightarrow> pool \<Rightarrow> bool"
  for pf :: platform and config :: ArmadaConfig where
  makes: "turn_step pf config P
    (P\<lparr>process := (process P)\<lparr>sandboxes := sandboxes (process P) @ [provider_create config sid options]\<rparr>\<rparr>)"
| joins: "turn_step pf config P
    (P\<lparr>process := (process P)\<lparr>sandboxes := sandboxes (process P) @ [connectExisting config sid options]\<rparr>\<rparr>)"
| begins: "k < length (sandboxes (process P)) \<Longrightarrow>
    turn_step pf config P (P\<lparr>calls := calls P @ [(k, call_task pf config c)]\<rparr>)"
| resumes: "i < length (calls P) \<Longrightarrow> calls P ! i = (k, Turn g) \<Longrightarrow> g (enter k (process P)) = (t, s) \<Longrightarrow>
    turn_step pf config P (P\<lparr>process := leave k (process P) s, calls := (calls P)[i := (k, t)]\<rparr>)"
| hands_over: "(k, Settled (Inr (Some pr))) \<in> set (calls P) \<Longrightarrow>
    turn_step pf config P (P\<lparr>process := (process P)\<lparr>processes := processes (process P) @ [pr]\<rparr>\<rparr>)"
| asks: "pr \<in> set (processes (process P)) \<Longrightarrow> perform_process pf pr c (process P) = (r, q) \<Longrightarrow>
    turn_step pf config P (P\<lparr>process := q\<rparr>)"
| lists: "provider_listActive config = Some ask \<Longrightarrow> ask fuel pf (process P) = Some (r, q) \<Longrightarrow>
    turn_step pf config P (P\<lparr>process := q\<rparr>)"

inductive_cases turn_stepE: "turn_step pf config P Q"

definition interleaved :: "platform \<Rightarrow> ArmadaConfig \<Rightarrow> pool \<Rightarrow> bool" where
  "interleaved pf config P \<longleftrightarrow> (turn_step pf config)\<^sup>*\<^sup>* no_calls P"

subsection \<open>The invariant\<close>

definition carries :: "ArmadaSandbox \<Rightarrow> ArmadaProcess option \<Rightarrow> bool" where
  "carries sb p \<longleftrightarrow> (\<forall>pr. p = Some pr \<longrightarrow> ep_token (pr_channel pr) = sb_token sb)"

definition calls_ok :: "ArmadaConfig \<Rightarrow> ArmadaSandbox list \<Rightarrow> under_way list \<Rightarrow> bool" where
  "calls_ok config sbs cs \<longleftrightarrow> (\<forall>(k, t) \<in> set cs. k < length sbs \<and> steady config (sbs ! k) (carries (sbs ! k)) t)"

definition shared_ok :: "ArmadaConfig \<Rightarrow> process_state \<Rightarrow> bool" where
  "shared_ok config p \<longleftrightarrow>
     fit_placements config (placements p)
     \<and> list_all (fit_sandbox config) (sandboxes p)
     \<and> list_all (\<lambda>pr. \<exists>sb \<in> set (sandboxes p). ep_token (pr_channel pr) = sb_token sb) (processes p)
     \<and> list_all (accounted config (sandboxes p)) (log p)"

definition pool_ok :: "ArmadaConfig \<Rightarrow> pool \<Rightarrow> bool" where
  "pool_ok config P \<longleftrightarrow> shared_ok config (process P) \<and> calls_ok config (sandboxes (process P)) (calls P)"

lemma same_fit: "same_sandbox a b \<Longrightarrow> fit config a = fit config b"
  by (auto simp: fit_def same_sandbox_def fun_eq_iff)

lemma same_inside:
  assumes "same_sandbox a b"
  shows "inside config a = inside config b"
  using assms by (intro ext) (simp add: inside_def own_same[OF assms] same_fit[OF assms] same_sandbox_def)

lemma same_carries: "same_sandbox a b \<Longrightarrow> carries a = carries b"
  by (simp add: carries_def same_sandbox_def fun_eq_iff)

lemma steady_same:
  assumes "steady config a F t" and "same_sandbox a b"
  shows "steady config b F t"
  using assms(1)
proof induction
  case (settled r)
  then show ?case by simp
next
  case (turn g)
  then show ?case by (intro steady.turn) (simp add: same_fit[OF assms(2)] same_inside[OF assms(2)])
qed

lemma calls_ok_more: "calls_ok config sbs cs \<Longrightarrow> calls_ok config (sbs @ [sb]) cs"
  by (auto simp: calls_ok_def nth_append)

lemma calls_ok_update:
  assumes "calls_ok config sbs cs" and "j < length sbs" and "same_sandbox sb (sbs ! j)"
  shows "calls_ok config (sbs[j := sb]) cs"
  using assms same_carries[OF assms(3)] steady_same[OF _ same_sandbox_sym[OF assms(3)]]
  by (fastforce simp: calls_ok_def nth_list_update)

lemma calls_ok_put:
  assumes "calls_ok config sbs cs" and "k < length sbs" and "steady config (sbs ! k) (carries (sbs ! k)) t"
  shows "calls_ok config sbs (cs[i := (k, t)])" and "calls_ok config sbs (cs @ [(k, t)])"
  using assms set_update_subset_insert[of cs i "(k, t)"] by (auto simp: calls_ok_def)

lemma enter_fit:
  "shared_ok config p \<Longrightarrow> k < length (sandboxes p) \<Longrightarrow> fit config (sandboxes p ! k) (enter k p)"
  by (simp add: shared_ok_def fit_def enter_def list_all_length same_sandbox_def)

lemma leave_fit:
  assumes ok: "shared_ok config p" and k: "k < length (sandboxes p)"
    and s: "inside config (sandboxes p ! k) (enter k p) s"
  shows "shared_ok config (leave k p s)"
proof -
  let ?sbs = "(sandboxes p)[k := this s]"
  have same: "same_sandbox (this s) (sandboxes p ! k)" and fit: "fit_sandbox config (this s)" "fit_placements config (placements s)"
    using s by (simp_all add: inside_def fit_def)
  obtain l where l: "log s = log p @ l" "list_all (own config (sandboxes p ! k)) l"
    using s by (auto simp: inside_def enter_def)
  have "this s \<in> set ?sbs" using k by (simp add: set_update_memI)
  then have "list_all (accounted config ?sbs) l"
    using l(2) unfolding list_all_iff accounted_def by (metis own_same[OF same])
  moreover have "list_all (accounted config ?sbs) (log p)"
    using ok accounted_update[OF k same] by (auto simp: shared_ok_def list_all_iff)
  moreover have "list_all (\<lambda>pr. \<exists>sb \<in> set ?sbs. ep_token (pr_channel pr) = sb_token sb) (processes p)"
    using ok unfolding shared_ok_def list_all_iff
    by (metis kept_instance[OF k same] same_sandbox_def)
  moreover have "list_all (fit_sandbox config) ?sbs"
    using ok fit set_update_subset_insert[of "sandboxes p" k "this s"]
    by (auto simp: shared_ok_def list_all_iff)
  ultimately show ?thesis
    using fit l(1) by (simp add: shared_ok_def leave_def)
qed

lemma new_sandbox_fit: "fit_sandbox config (new_sandbox config sid options attach)"
  by (simp add: fit_sandbox_def new_sandbox_def)

lemma shared_ok_new:
  "shared_ok config p \<Longrightarrow> shared_ok config (p\<lparr>sandboxes := sandboxes p @ [new_sandbox config sid options attach]\<rparr>)"
  by (auto simp: shared_ok_def new_sandbox_fit list_all_iff accounted_more)

lemma turn_step_ok:
  assumes "turn_step pf config P Q" and ok: "pool_ok config P"
  shows "pool_ok config Q"
  using assms(1)
proof cases
  case (makes sid options)
  then show ?thesis using ok by (simp add: pool_ok_def provider_create_def shared_ok_new calls_ok_more)
next
  case (joins sid options)
  then show ?thesis using ok by (simp add: pool_ok_def connectExisting_def shared_ok_new calls_ok_more)
next
  case (begins k c)
  have "steady config (sandboxes (process P) ! k) (carries (sandboxes (process P) ! k)) (call_task pf config c)"
    using steady_call unfolding carries_def[abs_def] .
  with begins ok show ?thesis by (auto simp: pool_ok_def intro: calls_ok_put(2))
next
  case (resumes i k g t s)
  let ?p = "process P"
  have "(k, Turn g) \<in> set (calls P)" using resumes(2,3) nth_mem by force
  then have k: "k < length (sandboxes ?p)" and g: "steady config (sandboxes ?p ! k) (carries (sandboxes ?p ! k)) (Turn g)"
    using ok by (auto simp: pool_ok_def calls_ok_def)
  have shared: "shared_ok config ?p" and calls: "calls_ok config (sandboxes ?p) (calls P)" using ok by (simp_all add: pool_ok_def)
  note turn = steady_next[OF g enter_fit[OF shared k] resumes(4)]
  have same: "same_sandbox (this s) (sandboxes ?p ! k)" using turn(1) by (simp add: inside_def fit_def)
  have "calls_ok config ((sandboxes ?p)[k := this s]) ((calls P)[i := (k, t)])"
    by (rule calls_ok_update[OF calls_ok_put(1)[OF calls k turn(2)] k same])
  with leave_fit[OF shared k turn(1)] resumes(1) show ?thesis by (simp add: pool_ok_def leave_def)
next
  case (hands_over k pr)
  let ?sbs = "sandboxes (process P)"
  have "k < length ?sbs" "carries (?sbs ! k) (Some pr)"
    using hands_over(2) ok by (auto simp: pool_ok_def calls_ok_def)
  then have "\<exists>sb \<in> set ?sbs. ep_token (pr_channel pr) = sb_token sb"
    by (auto simp: carries_def intro: bexI[of _ "?sbs ! k"])
  then show ?thesis using hands_over(1) ok by (simp add: pool_ok_def shared_ok_def)
next
  case (asks pr c r q)
  from asks(3) obtain l where l: "log q = log (process P) @ l" "list_all (to_agent (pr_channel pr)) l"
    "net_state.more q = net_state.more (process P)"
    by (rule talksE[OF talks_perform_process])
  from ok asks(2) obtain sb where "sb \<in> set (sandboxes (process P))" "ep_token (pr_channel pr) = sb_token sb"
    by (auto simp: pool_ok_def shared_ok_def list_all_iff)
  with l(2) have "list_all (accounted config (sandboxes (process P))) l"
    by (auto simp: list_all_iff accounted_def own_def)
  with ok l(1) more_process[OF l(3)] asks(1) show ?thesis by (auto simp: pool_ok_def shared_ok_def)
next
  case (lists ask fuel r q)
  note q = enumeration_log[OF lists(2,3)]
  then show ?thesis using ok lists(1) by (auto simp: pool_ok_def shared_ok_def accounted_def list_all_iff)
qed

lemma interleaved_ok: "interleaved pf config P \<Longrightarrow> pool_ok config P"
  unfolding interleaved_def
proof (induction rule: rtranclp_induct)
  case base
  show ?case by (simp add: pool_ok_def shared_ok_def calls_ok_def no_calls_def initial_def fit_placements_def)
qed (rule turn_step_ok)

subsection \<open>Calls one at a time\<close>

lemma enter_leave: "k < length (sandboxes p) \<Longrightarrow> enter k (leave k p s) = s"
  by (cases s) (simp add: enter_def leave_def)

lemma leave_enter: "leave k p (enter k p) = p"
  by (cases p) (simp add: enter_def leave_def)

lemma leave_leave: "leave k (leave k p s) t = leave k p t"
  by (simp add: leave_def)

text \<open>A call that nothing interrupts has the effect of running it.\<close>

lemma take_turns:
  assumes "i < length (calls P)" and "calls P ! i = (k, t)" and "k < length (sandboxes (process P))"
    and "run t (enter k (process P)) = (r, s)"
  shows "(turn_step pf config)\<^sup>*\<^sup>* P (P\<lparr>process := leave k (process P) s, calls := (calls P)[i := (k, Settled r)]\<rparr>)"
  using assms
proof (induction t arbitrary: P)
  case (Settled r')
  then have "P\<lparr>process := leave k (process P) s, calls := (calls P)[i := (k, Settled r)]\<rparr> = P"
    by (cases P) (auto simp: run.simps leave_enter list_update_same_conv)
  then show ?case by simp
next
  case (Turn g)
  obtain t' s' where g: "g (enter k (process P)) = (t', s')" by fastforce
  let ?Q = "P\<lparr>process := leave k (process P) s', calls := (calls P)[i := (k, t')]\<rparr>"
  have "turn_step pf config P ?Q" using Turn.prems(1,2) g by (rule turn_step.resumes)
  moreover have "(turn_step pf config)\<^sup>*\<^sup>* ?Q (?Q\<lparr>process := leave k (process ?Q) s, calls := (calls ?Q)[i := (k, Settled r)]\<rparr>)"
  proof (rule Turn.IH)
    show "(t', s') \<in> range g" using g by (metis rangeI)
    show "t' \<in> Basic_BNFs.fsts (t', s')" by simp
    show "run t' (enter k (process ?Q)) = (r, s)"
      using Turn.prems(3,4) g by (simp add: run_Turn enter_leave)
  qed (use Turn.prems in \<open>simp_all add: leave_def\<close>)
  ultimately show ?case by (simp add: leave_leave converse_rtranclp_into_rtranclp)
qed

lemma whole_call:
  assumes "k < length (sandboxes p)" and "run (call_task pf config c) (enter k p) = (r, s)"
  shows "(turn_step pf config)\<^sup>*\<^sup>* \<lparr>process = p, calls = cs\<rparr> \<lparr>process = leave k p s, calls = cs @ [(k, Settled r)]\<rparr>"
proof -
  let ?P = "\<lparr>process = p, calls = cs @ [(k, call_task pf config c)]\<rparr>"
  have "turn_step pf config \<lparr>process = p, calls = cs\<rparr> ?P"
    using turn_step.begins[of k "\<lparr>process = p, calls = cs\<rparr>" pf config c] assms(1) by simp
  moreover have "(turn_step pf config)\<^sup>*\<^sup>* ?P (?P\<lparr>process := leave k (process ?P) s, calls := (calls ?P)[length cs := (k, Settled r)]\<rparr>)"
    by (rule take_turns) (use assms in simp_all)
  ultimately show ?thesis by (simp add: converse_rtranclp_into_rtranclp)
qed

lemma on_sandbox_call:
  assumes "on_sandbox k (perform pf config c) p = (r, q)"
  obtains r' s where "run (call_task pf config c) (enter k p) = (r', s)" and "q = leave k p s"
proof -
  obtain r' s where run: "run (call_task pf config c) (enter k p) = (r', s)" by fastforce
  then have "snd (perform pf config c (enter k p)) = s"
    unfolding run_call[symmetric] by (simp add: bindIO_run io_run split: sum.split)
  then have "q = leave k p s"
    using assms by (auto simp: on_sandbox_def split: prod.splits)
  with run that show ?thesis by blast
qed

lemma step_interleaved:
  assumes "step pf config p q"
  shows "\<exists>cs'. (turn_step pf config)\<^sup>*\<^sup>* \<lparr>process = p, calls = cs\<rparr> \<lparr>process = q, calls = cs'\<rparr>"
  using assms
proof cases
  case (creates sid options)
  then show ?thesis using turn_step.makes[of pf config "\<lparr>process = p, calls = cs\<rparr>" sid options] by auto
next
  case (attaches sid options)
  then show ?thesis using turn_step.joins[of pf config "\<lparr>process = p, calls = cs\<rparr>" sid options] by auto
next
  case (calls k c r)
  then show ?thesis by (metis on_sandbox_call whole_call)
next
  case (starts k cmd options pr q')
  obtain s where run: "sandbox_startProcess pf config cmd options (enter k p) = (Inr pr, s)" and q': "q' = leave k p s"
    using starts(3) by (auto simp: on_sandbox_def split: prod.splits)
  have "run (call_task pf config (StartProcess cmd options)) (enter k p) = (Inr (Some pr), s)"
    using run by (simp add: turns io_eval)
  from whole_call[OF starts(2) this]
  have "(turn_step pf config)\<^sup>*\<^sup>* \<lparr>process = p, calls = cs\<rparr> \<lparr>process = q', calls = cs @ [(k, Settled (Inr (Some pr)))]\<rparr>"
    by (simp add: q')
  moreover have "turn_step pf config \<lparr>process = q', calls = cs @ [(k, Settled (Inr (Some pr)))]\<rparr>
      \<lparr>process = q, calls = cs @ [(k, Settled (Inr (Some pr)))]\<rparr>"
    using turn_step.hands_over[of k pr "\<lparr>process = q', calls = cs @ [(k, Settled (Inr (Some pr)))]\<rparr>" pf config]
    by (simp add: starts(1))
  ultimately show ?thesis by (blast intro: rtranclp.rtrancl_into_rtrancl)
next
  case (talks_to pr c r)
  then show ?thesis using turn_step.asks[of pr "\<lparr>process = p, calls = cs\<rparr>" pf c r q config] by auto
next
  case (enumerates ask fuel r)
  then show ?thesis using turn_step.lists[of config ask fuel pf "\<lparr>process = p, calls = cs\<rparr>" r q] by auto
qed

lemma reachable_interleaved: "reachable pf config p \<Longrightarrow> \<exists>cs. interleaved pf config \<lparr>process = p, calls = cs\<rparr>"
proof (induction rule: reachable.induct)
  case start
  have "interleaved pf config \<lparr>process = initial, calls = []\<rparr>" by (simp add: interleaved_def no_calls_def)
  then show ?case by blast
next
  case (onward p q)
  then obtain cs where "interleaved pf config \<lparr>process = p, calls = cs\<rparr>" by blast
  moreover obtain cs' where "(turn_step pf config)\<^sup>*\<^sup>* \<lparr>process = p, calls = cs\<rparr> \<lparr>process = q, calls = cs'\<rparr>"
    using step_interleaved[OF onward.hyps(2)] by blast
  ultimately have "interleaved pf config \<lparr>process = q, calls = cs'\<rparr>" unfolding interleaved_def by (rule rtranclp_trans)
  then show ?case by blast
qed

end
