(* ===== verification/Overtaking.thy ===== *)
theory Overtaking
  imports Interleaving
begin

section \<open>What holds of interleaved calls, and what does not\<close>

text \<open>
  The promises that survive any interleaving of calls, and one that does not: a \<open>destroy\<close> made while a \<open>ready\<close> of the same
  instance is still polling the agent is overtaken by it.
\<close>

subsection \<open>What holds\<close>

lemma pool_submission:
  assumes "interleaved pf config P" and "req \<in> set (log (process P))" and "req_body req = Some (SubmitBody r)"
  obtains sb where "sb \<in> set (sandboxes (process P))" and "own_submit config sb r"
    and "sb_token sb = agentToken (cfg_agentTokenSecret config) (sb_id sb)"
proof -
  have ok: "shared_ok config (process P)" using interleaved_ok[OF assms(1)] by (simp add: pool_ok_def)
  with assms(2) have "accounted config (sandboxes (process P)) req"
    by (auto simp: shared_ok_def list_all_iff)
  then obtain sb where sb: "sb \<in> set (sandboxes (process P))" "own config sb req"
    using assms(3) by (auto simp: accounted_def scoped_def)
  moreover have "own_submit config sb r"
    using sb(2) assms(3) by (auto simp: own_def to_armada_def to_agent_def)
  moreover have "sb_token sb = agentToken (cfg_agentTokenSecret config) (sb_id sb)"
    using ok sb(1) by (simp add: shared_ok_def list_all_iff fit_sandbox_def)
  ultimately show ?thesis using that by blast
qed

text \<open>C2: However calls interleave and whatever the network answers, every job ever submitted is one of a sandbox the
  host created, not merely attached to, and its pod was built from that sandbox's own options with nothing
  of its token but the hash.\<close>

theorem interleaved_submissions:
  assumes "interleaved pf config P" and "req \<in> set (log (process P))" and "req_body req = Some (SubmitBody r)"
  shows "\<exists>sb \<in> set (sandboxes (process P)). \<not> sb_attachOnly sb
    \<and> (\<exists>spec queue. r = submit_request config (sb_id sb) spec queue
        \<and> buildPodSpec config
            \<lparr>tokenSha256 = hex_of (sha256 (utf8_bytes (agentToken (cfg_agentTokenSecret config) (sb_id sb))))\<rparr>
            (sb_options sb) = Inr spec)"
proof -
  obtain sb where "sb \<in> set (sandboxes (process P))" "own_submit config sb r"
    "sb_token sb = agentToken (cfg_agentTokenSecret config) (sb_id sb)"
    using pool_submission[OF assms] .
  then show ?thesis by (auto simp: own_submit_def token_hash_def)
qed

text \<open>C14: Submitting again is harmless: two calls that both find no job each submit one, but where all instances of
  an id were created with the same options, any two submissions of that id are the same request, the key Armada
  dedupes on included, except for the queue when Lookout answered differently.\<close>

theorem resubmissions_agree:
  assumes "interleaved pf config P" and "{req, req'} \<subseteq> set (log (process P))"
    and "req_body req = Some (SubmitBody r)" and "req_body req' = Some (SubmitBody r')" and "sub_jobSetId r = sub_jobSetId r'"
    and "\<forall>a \<in> set (sandboxes (process P)). \<forall>b \<in> set (sandboxes (process P)). sb_id a = sb_id b \<longrightarrow> sb_options a = sb_options b"
  shows "r' = r\<lparr>sub_queue := sub_queue r'\<rparr> \<and> map clientId (jobRequestItems r) = [sub_jobSetId r]"
proof -
  obtain sb where sb: "sb \<in> set (sandboxes (process P))" "own_submit config sb r"
    "sb_token sb = agentToken (cfg_agentTokenSecret config) (sb_id sb)"
    using assms(1,3) assms(2) by (auto elim: pool_submission)
  obtain sb' where sb': "sb' \<in> set (sandboxes (process P))" "own_submit config sb' r'"
    "sb_token sb' = agentToken (cfg_agentTokenSecret config) (sb_id sb')"
    using assms(1,4) assms(2) by (auto elim: pool_submission)
  have "sb_id sb = sb_id sb'" using sb(2) sb'(2) assms(5) by (auto simp: own_submit_def submit_request_def)
  moreover from this have "sb_options sb = sb_options sb'" using sb(1) sb'(1) assms(6) by blast
  ultimately show ?thesis
    using sb(2,3) sb'(2,3) by (auto simp: own_submit_def submit_request_def)
qed

text \<open>C3: However calls interleave, no channel is ever filed under the wrong sandbox: the channel an instance holds,
  and the placement found under an id by every instance of it, carry that id's token and a job of that
  id's job set.\<close>

theorem interleaved_placements:
  assumes "interleaved pf config P"
  shows "(\<forall>sb \<in> set (sandboxes (process P)). \<forall>ep. sb_channel sb = Some ep \<longrightarrow>
      ep_token ep = agentToken (cfg_agentTokenSecret config) (sb_id sb))
    \<and> (\<forall>sid pl. placements (process P) sid = Some pl \<longrightarrow>
        ep_token (pl_channel pl) = agentToken (cfg_agentTokenSecret config) sid \<and> job_setId (pl_job pl) = sid)"
  using interleaved_ok[OF assms]
  by (auto simp: pool_ok_def shared_ok_def list_all_iff fit_sandbox_def fit_placements_def fit_placement_def)

text \<open>C11: Calls do not interfere across sandboxes: one turn of a call on an instance, in any interleaving, leaves every
  other instance as it was, keeps its own identity, changes nothing that is shared about any other sandbox,
  neither its queue nor its placement, and makes requests only of its own.\<close>

theorem turns_isolated:
  assumes "interleaved pf config P" and "(k, Turn g) \<in> set (calls P)" and "g (enter k (process P)) = (t, s)"
  shows "(let p = process P; q = leave k p s in
    length (sandboxes q) = length (sandboxes p) \<and> (\<forall>i. i \<noteq> k \<longrightarrow> sandboxes q ! i = sandboxes p ! i)
    \<and> same_sandbox (sandboxes q ! k) (sandboxes p ! k)
    \<and> (\<forall>sid. sid \<noteq> sb_id (sandboxes p ! k) \<longrightarrow>
         placements q sid = placements p sid \<and> remembered q sid = remembered p sid)
    \<and> (\<exists>l. log q = log p @ l \<and> list_all (own config (sandboxes p ! k)) l))"
proof -
  have ok: "shared_ok config (process P)" "calls_ok config (sandboxes (process P)) (calls P)"
    using interleaved_ok[OF assms(1)] by (simp_all add: pool_ok_def)
  then have k: "k < length (sandboxes (process P))"
    and g: "steady config (sandboxes (process P) ! k) (carries (sandboxes (process P) ! k)) (Turn g)"
    using assms(2) by (auto simp: calls_ok_def)
  from steady_next(1)[OF g enter_fit[OF ok(1) k] assms(3)] k show ?thesis
    by (auto simp: Let_def leave_def inside_def fit_def enter_def)
qed

text \<open>Note: Every call comes to an end: whatever other calls do to the state between its turns, and whatever is
  answered, it settles after finitely many turns of its own.\<close>

theorem calls_settle: "\<exists>n r. resumed n env (call_task pf config c) = Settled r"
  by (rule settles)


subsection \<open>Witnesses\<close>

lemma submitting_pool:
  obtains P req r sb where "interleaved quiet_platform single_config P" and "req \<in> set (log (process P))"
    and "req_body req = Some (SubmitBody r)" and "sandboxes (process P) = [sb]"
proof -
  obtain q req r where q: "reachable quiet_platform single_config q" "req \<in> set (log q)" "req_body req = Some (SubmitBody r)"
    and one: "length (sandboxes q) = 1"
    using created_submits by blast
  obtain sb where sb: "sandboxes q = [sb]" using one by (auto simp: length_Suc_conv)
  obtain cs where "interleaved quiet_platform single_config \<lparr>process = q, calls = cs\<rparr>"
    using reachable_interleaved[OF q(1)] by blast
  then show ?thesis using that[of "\<lparr>process = q, calls = cs\<rparr>" req r sb] q(2,3) sb by simp
qed

lemma interleaved_submissions_witness:
  "\<exists>P req r. interleaved quiet_platform single_config P \<and> req \<in> set (log (process P))
     \<and> req_body req = Some (SubmitBody r)
     \<and> (\<exists>sb \<in> set (sandboxes (process P)). \<not> sb_attachOnly sb
          \<and> (\<exists>spec queue. r = submit_request single_config (sb_id sb) spec queue))"
proof -
  obtain P req r where P: "interleaved quiet_platform single_config P" "req \<in> set (log (process P))"
    "req_body req = Some (SubmitBody r)"
    by (rule submitting_pool)
  from interleaved_submissions[OF P] P show ?thesis by blast
qed

text \<open>A process whose one call is under way.\<close>

definition alone :: pool where
  "alone = \<lparr>process = created_process, calls = [(0, call_task quiet_platform single_config Ready)]\<rparr>"

lemma alone_interleaved: "interleaved quiet_platform single_config alone"
proof -
  have "turn_step quiet_platform single_config no_calls \<lparr>process = created_process, calls = []\<rparr>"
    using turn_step.makes[of quiet_platform single_config no_calls "js ''sb''" None]
    by (simp add: no_calls_def created_process_def initial_def)
  moreover have "turn_step quiet_platform single_config \<lparr>process = created_process, calls = []\<rparr> alone"
    using turn_step.begins[of 0 "\<lparr>process = created_process, calls = []\<rparr>" quiet_platform single_config Ready]
    by (simp add: created_process_def alone_def)
  ultimately show ?thesis unfolding interleaved_def by (meson r_into_rtranclp rtranclp_trans)
qed

lemma resubmissions_agree_witness:
  "\<exists>P req r. interleaved quiet_platform single_config P \<and> req \<in> set (log (process P))
     \<and> req_body req = Some (SubmitBody r) \<and> map clientId (jobRequestItems r) = [sub_jobSetId r]"
proof -
  obtain P req r sb where P: "interleaved quiet_platform single_config P" "req \<in> set (log (process P))"
    "req_body req = Some (SubmitBody r)" "sandboxes (process P) = [sb]"
    by (rule submitting_pool)
  have "{req, req} \<subseteq> set (log (process P))" using P(2) by simp
  from resubmissions_agree[OF P(1) this P(3) P(3) refl] P(4)
  have "map clientId (jobRequestItems r) = [sub_jobSetId r]" by simp
  with P(1-3) show ?thesis by (intro exI[of _ P] exI[of _ req] exI[of _ r] conjI)
qed

lemma interleaved_placements_witness:
  "\<exists>P pl. interleaved welcoming single_config P \<and> placements (process P) (js ''sb'') = Some pl
     \<and> ep_token (pl_channel pl) = agentToken (cfg_agentTokenSecret single_config) (js ''sb'')
     \<and> job_setId (pl_job pl) = js ''sb''"
proof -
  obtain q where q: "reachable welcoming single_config q" "placements q (js ''sb'') \<noteq> None" using welcomed by blast
  then obtain cs where P: "interleaved welcoming single_config \<lparr>process = q, calls = cs\<rparr>"
    using reachable_interleaved by blast
  from interleaved_placements[OF P] P q(2) show ?thesis by fastforce
qed

lemma turns_isolated_witness:
  "\<exists>g t s. call_task quiet_platform single_config Ready = Turn g
     \<and> g (enter 0 (process alone)) = (t, s) \<and> sandboxes (leave 0 (process alone) s) = [this s]
     \<and> sb_id (this s) = js ''sb'' \<and> (\<forall>sid. sid \<noteq> js ''sb'' \<longrightarrow> placements s sid = None)"
proof -
  obtain g where g: "(call_task quiet_platform single_config Ready :: (sandbox_state, ArmadaProcess option) task) = Turn g"
    by (simp add: ready_task_def now_def await_def settle.simps)
  obtain t s where run: "g (enter 0 (process alone)) = (t, s)" by fastforce
  have "(0, Turn g) \<in> set (calls alone)" by (simp add: alone_def g[symmetric] del: call_task.simps)
  from turns_isolated[OF alone_interleaved this run] g run show ?thesis
    by (auto simp: Let_def alone_def created_process_def leave_def initial_def same_sandbox_def provider_create_def new_sandbox_def)
qed


subsection \<open>What does not\<close>

text \<open>The turns of one task, on one instance.\<close>

inductive goes ::
  "('s, 'r) task \<times> 's \<Rightarrow> ('s, 'r) task \<times> 's \<Rightarrow> bool" where
  "goes (Turn g, s) (g s)"

inductive_cases goesE: "goes (t, s) x"

lemma goes_Turn: "g s = x \<Longrightarrow> goes (Turn g, s) x"
  using goes.intros[of g s] by simp

lemma goes_settle: "goes (t, s) (t', s') \<Longrightarrow> goes (settle t f h, s) (settle t' f h, s')"
proof (erule goesE)
  fix g assume "t = Turn g" and "(t', s') = g s"
  from this(2)[symmetric] show "goes (settle t f h, s) (settle t' f h, s')"
    unfolding \<open>t = Turn g\<close> settle.simps by (intro goes_Turn) simp
qed

lemma goes_await: "goes\<^sup>+\<^sup>+ (t, s) (t', s') \<Longrightarrow> goes\<^sup>+\<^sup>+ (await t f, s) (settle t' f (\<lambda>e. Settled (Inl e)), s')"
proof (induction "(t', s')" arbitrary: t' s' rule: tranclp_induct)
  case (base t' s')
  then have "await t f = settle t f (\<lambda>e. Settled (Inl e))" by (auto elim!: goesE simp: await_def)
  with goes_settle[OF base, of f "\<lambda>e. Settled (Inl e)"] show ?case by auto
next
  case (step x t' s')
  then show ?case using goes_settle[of "fst x" "snd x"] by (metis prod.collapse tranclp.trancl_into_trancl)
qed

lemma goes_now:
  assumes "m s = (Inr x, s')" and "goes\<^sup>+\<^sup>+ (f x, s') y"
  shows "goes\<^sup>+\<^sup>+ (now m f, s) y"
proof -
  obtain g where g: "f x = Turn g" using assms(2) by (auto elim!: goesE dest: tranclpD)
  have "goes (now m f, s) (g s')" unfolding now_def by (rule goes_Turn) (simp add: assms(1) g)
  moreover obtain z where "goes (f x, s') z" "goes\<^sup>*\<^sup>* z y" using assms(2) by (auto dest: tranclpD)
  moreover have "z = g s'" if "goes (f x, s') z" for z using that by (auto simp: g elim: goesE)
  ultimately show ?thesis by (metis rtranclp_into_tranclp2)
qed

lemma goes_io: "m s = (r, s') \<Longrightarrow> goes\<^sup>+\<^sup>+ (io m, s) (Settled r, s')"
  unfolding io_def by (intro tranclp.r_into_trancl goes_Turn) simp

lemma goes_run: "goes\<^sup>*\<^sup>* (t, s) (Settled (fst (run t s)), snd (run t s))"
proof (induction t arbitrary: s)
  case (Turn g)
  obtain t' s' where g: "g s = (t', s')" by fastforce
  then have "(t', s') \<in> range g" by (metis rangeI)
  from Turn[OF this, of t'] have "goes\<^sup>*\<^sup>* (t', s') (Settled (fst (run t' s')), snd (run t' s'))" by simp
  moreover have "goes (Turn g, s) (t', s')" using g by (rule goes_Turn)
  ultimately show ?case by (simp add: run_Turn g converse_rtranclp_into_rtranclp)
qed (simp add: run.simps)

text \<open>Where a task goes alone, a call of the pool can go.\<close>

lemma goes_pool:
  assumes "goes\<^sup>*\<^sup>* (t, enter k (process P)) (t', s')"
    and "i < length (calls P)" and "calls P ! i = (k, t)" and "k < length (sandboxes (process P))"
  shows "(turn_step pf config)\<^sup>*\<^sup>* P (P\<lparr>process := leave k (process P) s', calls := (calls P)[i := (k, t')]\<rparr>)"
  using assms(1)
proof (induction "(t', s')" arbitrary: t' s' rule: rtranclp_induct)
  case base
  have "(calls P)[i := (k, t)] = calls P" using assms(3) by (metis list_update_id)
  then show ?case by (simp add: leave_enter)
next
  case (step x t' s')
  obtain u v where x: "x = (u, v)" by (cases x)
  let ?Q = "P\<lparr>process := leave k (process P) v, calls := (calls P)[i := (k, u)]\<rparr>"
  from step(2) obtain g where g: "u = Turn g" "g v = (t', s')" by (auto simp: x elim!: goesE)
  have "turn_step pf config ?Q (?Q\<lparr>process := leave k (process ?Q) s', calls := (calls ?Q)[i := (k, t')]\<rparr>)"
    by (rule turn_step.resumes[where g = g]) (use assms(2,4) g in \<open>simp_all add: enter_leave\<close>)
  then have "turn_step pf config ?Q (P\<lparr>process := leave k (process P) s', calls := (calls P)[i := (k, t')]\<rparr>)"
    by (simp add: leave_leave)
  with step(3)[OF x] show ?case by (rule rtranclp.rtrancl_into_rtrancl)
qed

lemma goes_awaited:
  assumes "goes\<^sup>+\<^sup>+ (t, s) (Settled (Inr x), s')" and "goes\<^sup>+\<^sup>+ (f x, s') y"
  shows "goes\<^sup>+\<^sup>+ (await t f, s) y"
  using goes_await[OF assms(1), of f] assms(2) by (simp add: settle.simps)

lemmas goes_answered = goes_awaited[OF goes_io]

text \<open>\<open>ready\<close> of a fresh instance, up to its last turn.\<close>

lemma ready_publishes:
  assumes "fresh config queue s"
  obtains ep s4 where "goes\<^sup>+\<^sup>+ (ready_task welcoming config, s) (io (publish ep), s4)"
    and "sb_job (this s4) = Some \<lparr>job_id = js ''j'', job_setId = sb_id (this s), job_queue = queue\<rparr>"
proof -
  let ?job = "\<lparr>job_id = js ''j'', job_setId = sb_id (this s), job_queue = queue\<rparr>"
  obtain s1 pod s2 url s3 s4
    where s1: "sandbox_submit welcoming config s = (Inr ?job, s1)"
      and pod: "waitForRunning welcoming config ?job (s1\<lparr>this := (this s1)\<lparr>sb_job := Some ?job\<rparr>\<rparr>) = (Inr pod, s2)"
      and url: "portUrl welcoming config ?job (cfg_agentPort config) (s2\<lparr>this := (this s2)\<lparr>sb_pod := Some pod\<rparr>\<rparr>) = (Inr url, s3)"
      and health: "agent_ready welcoming \<lparr>ep_url = url, ep_token = sb_token (this s3), ep_pod = pod\<rparr>
        AGENT_READY_TIMEOUT_MS s3 = (Inr (), s4)"
    using welcome_stages[OF assms refl] .
  let ?ep = "\<lparr>ep_url = url, ep_token = sb_token (this s3), ep_pod = pod\<rparr>"
  have s2: "this s2 = (this s1)\<lparr>sb_job := Some ?job\<rparr>" using talks_this[OF client.running pod] by simp
  have s3: "this s3 = (this s2)\<lparr>sb_pod := Some pod\<rparr>" using talks_this[OF client.url url] by simp
  have s4: "this s4 = this s3" using talks_this[OF agent.ready health] .
  have "goes\<^sup>+\<^sup>+ (await (io (agent_ready welcoming ?ep AGENT_READY_TIMEOUT_MS)) (\<lambda>_. io (publish ?ep)), s3)
      (io (publish ?ep), s4)"
    using goes_await[OF goes_io[of _ _ "Inr ()" s4], of "agent_ready welcoming ?ep AGENT_READY_TIMEOUT_MS" s3 "\<lambda>_. io (publish ?ep)"]
      health by (simp add: settle.simps)
  then have con: "goes\<^sup>+\<^sup>+ (connect_task welcoming url, s3) (io (publish ?ep), s4)"
    unfolding connect_task_def by (intro goes_now[of "getIO this" s3 "this s3" s3]) (simp_all add: io_run Let_def s3)
  have "goes\<^sup>+\<^sup>+ (await (io (portUrl welcoming config ?job (cfg_agentPort config))) (\<lambda>url. connect_task welcoming url),
      s2\<lparr>this := (this s2)\<lparr>sb_pod := Some pod\<rparr>\<rparr>) (io (publish ?ep), s4)"
    by (rule goes_answered, rule url, rule con)
  then have after: "goes\<^sup>+\<^sup>+ (now (getIO this) (\<lambda>sb. case sb_job sb of None \<Rightarrow> Settled (Inl undefined_read)
      | Some j \<Rightarrow> await (io (portUrl welcoming config j (cfg_agentPort config))) (\<lambda>url. connect_task welcoming url)),
      s2\<lparr>this := (this s2)\<lparr>sb_pod := Some pod\<rparr>\<rparr>) (io (publish ?ep), s4)"
    by (intro goes_now[OF io_run(4)]) (simp add: s2)
  have pods: "goes\<^sup>+\<^sup>+ (now (set_this (\<lambda>b. b\<lparr>sb_pod := Some pod\<rparr>)) (\<lambda>_. now (getIO this) (\<lambda>sb. case sb_job sb of None \<Rightarrow> Settled (Inl undefined_read)
      | Some j \<Rightarrow> await (io (portUrl welcoming config j (cfg_agentPort config))) (\<lambda>url. connect_task welcoming url))), s2)
      (io (publish ?ep), s4)"
    by (rule goes_now[where x = "()"], simp add: set_this_def io_run) (rule after)
  have watch: "goes\<^sup>+\<^sup>+ (watch_task welcoming config ?job, s1\<lparr>this := (this s1)\<lparr>sb_job := Some ?job\<rparr>\<rparr>) (io (publish ?ep), s4)"
    unfolding watch_task_def by (rule goes_answered, rule pod, rule pods)
  have "goes\<^sup>*\<^sup>* (submit_task welcoming config, s) (Settled (Inr ?job), s1)"
    using goes_run[of "submit_task welcoming config" s] by (simp add: run_submit s1)
  moreover have "submit_task welcoming config \<noteq> Settled (Inr ?job)" by (simp add: submit_task_def now_def)
  ultimately have submit: "goes\<^sup>+\<^sup>+ (submit_task welcoming config, s) (Settled (Inr ?job), s1)" by (auto dest: rtranclpD)
  have "goes\<^sup>+\<^sup>+ (now (set_this (\<lambda>b. b\<lparr>sb_job := Some ?job\<rparr>)) (\<lambda>_. watch_task welcoming config ?job), s1) (io (publish ?ep), s4)"
    by (rule goes_now[where x = "()"], simp add: set_this_def io_run) (rule watch)
  then have "goes\<^sup>+\<^sup>+ (await (submit_task welcoming config) (\<lambda>job. now (set_this (\<lambda>b. b\<lparr>sb_job := Some job\<rparr>))
      (\<lambda>_. watch_task welcoming config job)), s) (io (publish ?ep), s4)"
    by (rule goes_awaited[OF submit])
  then have "goes\<^sup>+\<^sup>+ (reach_task welcoming config, s) (io (publish ?ep), s4)"
    unfolding reach_task_def using assms by (intro goes_now[OF io_run(4)]) (simp add: fresh_def)
  then have "goes\<^sup>+\<^sup>+ (ready_task welcoming config, s) (io (publish ?ep), s4)"
    unfolding ready_task_def using assms
    by (intro goes_now[OF io_run(4)]) (simp add: fresh_def, intro goes_now[OF io_run(4)], simp)
  then show ?thesis using that s2 s3 s4 by simp
qed

lemma destroy_runs:
  assumes "sb_job (this s) = Some job" and "cfg_auth config = Anonymous"
  obtains t where "run (call_task welcoming config Destroy) s = (Inr None, t)"
    and "this t = (this s)\<lparr>sb_pod := None, sb_channel := None\<rparr>"
    and "\<exists>req. last (log t) = req \<and> req_body req
      = Some (CancelBody \<lparr>cancel_queue = job_queue job, cancel_jobSetId = job_setId job, cancel_jobId = Some (job_id job)\<rparr>)"
proof -
  let ?body = "CancelBody \<lparr>cancel_queue = job_queue job, cancel_jobSetId = job_setId job, cancel_jobId = Some (job_id job)\<rparr>"
  obtain u response where ask: "postTo welcoming config (cfg_url config) (js ''/v1/job/cancel'') ?body None s = (Inr response, u)"
    "net_state.more u = net_state.more s"
    by (rule welcome_answers[OF assms(2)])
  then have cancel: "cancel welcoming config job s = (Inr (), u)" by (simp add: cancel_def post_def io_eval)
  have u: "this u = this s" using ask(2) by (rule more_fields(3))
  from postTo_Inr_log[OF ask(1)] obtain req where req: "log u = log s @ [req]" "req_body req = Some ?body" by auto
  let ?t = "u\<lparr>remembered := (remembered u)(sb_id (this s) := None), placements := (placements u)(sb_id (this s) := None),
    this := (this s)\<lparr>sb_pod := None, sb_channel := None\<rparr>\<rparr>"
  have "run (call_task welcoming config Destroy) s = (Inr None, ?t)"
    using assms(1) cancel u
    by (simp add: turns destroy_def io_eval forget_def place_def set_this_def)
  then show ?thesis using that req by simp
qed

text \<open>The schedule: \<open>ready\<close> is made and runs up to some point, \<open>destroy\<close> is made and runs to its end, and \<open>ready\<close> goes on.\<close>

lemma overtaking_schedule:
  fixes t :: "(sandbox_state, ArmadaProcess option) task"
  assumes ready: "goes\<^sup>*\<^sup>* (call_task welcoming single_config Ready, enter 0 created_process) (t, s4)"
    and destroy: "run (call_task welcoming single_config Destroy) s4 = (Inr None, s5)"
    and last_turn: "goes (t, s5) (Settled (Inr None), s6)"
  shows "interleaved welcoming single_config
    \<lparr>process = leave 0 created_process s6, calls = [(0, Settled (Inr None)), (0, Settled (Inr None))]\<rparr>"
proof -
  let ?c = created_process
  have one: "length (sandboxes ?c) = 1" "sandboxes ?c \<noteq> []" by (simp_all add: created_process_def)
  let ?A = "\<lparr>process = ?c, calls = []\<rparr>"
  let ?B = "\<lparr>process = ?c, calls = [(0, call_task welcoming single_config Ready)]\<rparr>"
  let ?C = "\<lparr>process = leave 0 ?c s4, calls = [(0, t)]\<rparr>"
  let ?D = "\<lparr>process = leave 0 ?c s4, calls = [(0, t), (0, call_task welcoming single_config Destroy)]\<rparr>"
  let ?E = "\<lparr>process = leave 0 ?c s5, calls = [(0, t), (0, Settled (Inr None))]\<rparr>"
  let ?F = "\<lparr>process = leave 0 ?c s6, calls = [(0, Settled (Inr None)), (0, Settled (Inr None))]\<rparr>"
  note pool = goes_pool[where pf = welcoming and config = single_config]
  have "turn_step welcoming single_config no_calls ?A"
    using turn_step.makes[of welcoming single_config no_calls "js ''sb''" None]
    by (simp add: no_calls_def created_process_def initial_def)
  moreover have "turn_step welcoming single_config ?A ?B"
    using turn_step.begins[of 0 ?A welcoming single_config Ready] one by simp
  moreover have "(turn_step welcoming single_config)\<^sup>*\<^sup>* ?B ?C"
    using pool[of "call_task welcoming single_config Ready" 0 ?B _ s4 0] ready one by simp
  moreover have "turn_step welcoming single_config ?C ?D"
    using turn_step.begins[of 0 ?C welcoming single_config Destroy] one by (simp add: leave_def)
  moreover have "(turn_step welcoming single_config)\<^sup>*\<^sup>* ?D ?E"
    using pool[of "call_task welcoming single_config Destroy" 0 ?D "Settled (Inr None)" s5 1]
      goes_run[of "call_task welcoming single_config Destroy" s4] destroy one
    by (simp add: enter_leave leave_leave) (simp add: leave_def)
  moreover have "(turn_step welcoming single_config)\<^sup>*\<^sup>* ?E ?F"
    using pool[of t 0 ?E "Settled (Inr None)" s6 0] last_turn one
    by (simp add: enter_leave leave_leave r_into_rtranclp) (simp add: leave_def)
  ultimately show ?thesis
    unfolding interleaved_def by (meson converse_rtranclp_into_rtranclp rtranclp_trans r_into_rtranclp)
qed


end
