(* ===== verification/JobKept.thy ===== *)
theory JobKept
  imports Process
begin

section \<open>An instance keeps its job\<close>

text \<open>
  Once an instance has a job it never submits another: no method forgets the job, \<open>destroy\<close> included, and none that runs
  with a job known makes a submission.  So an instance whose submission was answered has used up its one.
\<close>

definition silent :: "request \<Rightarrow> bool" where
  "silent req \<longleftrightarrow> (\<forall>job. req_body req \<noteq> Some (SubmitBody job))"

definition settled_job :: "request list \<Rightarrow> 'a sandbox_state_scheme \<Rightarrow> bool" where
  "settled_job before s \<longleftrightarrow> sb_job (this s) \<noteq> None \<and> (\<exists>l. log s = before @ l \<and> list_all silent l)"

lemma silent_stable: "stable silent (settled_job before)"
  unfolding stable_def settled_job_def by (auto dest: more_fields)

lemma silent_armada: "talks (to_armada config (\<lambda>_. False)) m \<Longrightarrow> talks silent m"
  by (erule talks_mono) (auto simp: to_armada_def silent_def)

lemma silent_agent: "talks (to_agent ep) m \<Longrightarrow> talks silent m"
  by (erule talks_mono) (auto simp: to_agent_def silent_def)

named_theorems kept

lemmas kept_client [kept] =
  client.talking[where fine = "\<lambda>_. False", THEN silent_armada, THEN keeps_talks, OF silent_stable]

lemmas kept_agent [kept] = agent.ready[THEN silent_agent, THEN keeps_talks, OF silent_stable]
  agent.talking[THEN silent_agent, THEN keeps_talks, OF silent_stable]

lemma kept_set_this [kept]: "(\<And>sb. sb_job sb \<noteq> None \<Longrightarrow> sb_job (f sb) \<noteq> None) \<Longrightarrow> keeps (settled_job before) (set_this f)"
  by (simp add: set_this_def keeps_updIO settled_job_def)

lemma kept_world [kept]:
  "keeps (settled_job before) (place sid p)"
  "keeps (settled_job before) (forget sid)"
  "keeps (settled_job before) (console_warn line)"
  by (simp_all add: place_def forget_def console_warn_def keeps_updIO settled_job_def)

lemma kept_queue [kept]: "keeps (settled_job before) (sandbox_queue pf config)"
  by (rule keepsI) (auto simp: sandbox_queue_def settled_job_def io_run elim!: bindIO_eqE)

lemma kept_ensure_job [kept]: "keeps (settled_job before) (ensure_job pf config)"
  by (rule keepsI) (auto simp: ensure_job_def settled_job_def io_run elim!: bindIO_eqE)

lemma kept_connect [kept]: "keeps (settled_job before) (connect pf job pod url)"
  unfolding connect_def Let_def by (intro keeps_bindIO keeps_basic kept) simp

lemma kept_reach [kept]: "keeps (settled_job before) (reach pf config)"
  unfolding reach_def by (intro keeps_bindIO keeps_basic kept) simp

lemma kept_take_over [kept]: "keeps (settled_job before) (take_over pf sid p)"
  unfolding take_over_def by (intro keeps_catchIO keeps_bindIO keeps_basic kept) simp

lemma kept_ready [kept]: "keeps (settled_job before) (sandbox_ready pf config)"
  unfolding sandbox_ready_def
  by (auto intro!: keeps_bindIO kept_reach kept_take_over split: option.split)

lemma kept_open [kept]: "keeps (settled_job before) (sandbox_open pf config)"
  unfolding sandbox_open_def by (auto intro!: keeps_bindIO kept_ready split: option.split)

lemma kept_forget_value [kept]: "keeps P m \<Longrightarrow> keeps P (forget_value m)"
  unfolding forget_value_def by (intro keeps_bindIO keeps_basic)

lemma kept_exec [kept]: "keeps (settled_job before) (sandbox_exec pf config cmd wait)"
  unfolding sandbox_exec_def Let_def by (intro keeps_bindIO keeps_catchIO keeps_basic kept)

lemma kept_execStream [kept]: "keeps (settled_job before) (execStream pf config stopped cmd wait)"
  unfolding execStream_def by (intro keeps_bindIO keeps_basic kept)

lemma kept_isPortReady [kept]: "keeps (settled_job before) (isPortReady pf port options)"
  unfolding isPortReady_def
  by (intro keeps_bindIO keeps_basic) (auto intro!: keeps_catchIO keeps_bindIO kept split: option.split)

lemma kept_readFailed [kept]: "keeps (settled_job before) (readFailed path code why)"
  unfolding readFailed_def by (intro keeps_bindIO keeps_basic kept)


lemma kept_readThrough [kept]:
  assumes "\<And>ep. keeps (settled_job before) (read ep)"
  shows "keeps (settled_job before) (readThrough pf config path read encode)"
proof (rule keepsI)
  fix s r t assume s: "settled_job before s" and run: "readThrough pf config path read encode s = (r, t)"
  obtain r' u where ask: "bindIO (sandbox_open pf config) read s = (r', u)" by fastforce
  have u: "settled_job before u" using keeps_bindIO[OF kept_open assms] s ask by (rule keepsD)
  show "settled_job before t"
    using run ask u keepsD[OF kept_readFailed u]
    by (cases r') (auto simp: readThrough_def split: ReadFileOutcome.splits)
qed

lemma kept_reads [kept]:
  "keeps (settled_job before) (sandbox_readFile pf config path)"
  "keeps (settled_job before) (sandbox_readFileBounded pf config path options)"
  unfolding sandbox_readFile_def sandbox_readFileBounded_def by (auto intro!: kept)

lemma kept_listFiles [kept]: "keeps (settled_job before) (sandbox_listFiles pf config path options)"
proof -
  have "keeps (settled_job before) (bindIO (sandbox_open pf config) (\<lambda>ep. agent_listFiles pf ep path deep))" for deep
    by (intro keeps_bindIO kept)
  note run = keepsD[OF this]
  show ?thesis
    unfolding sandbox_listFiles_def
    by (rule keepsI) (auto split: prod.splits sum.splits ListFilesOutcome.splits dest: run)
qed

lemma keeps_run_all:
  assumes "\<And>m. m \<in> set ms \<Longrightarrow> keeps P m" and "run_all ms s = (es, t)" and "P s"
  shows "P t"
  using assms
proof (induction ms arbitrary: s es)
  case (Cons m ms)
  obtain r u where m: "m s = (r, u)" by fastforce
  obtain es' where rest: "run_all ms u = (es', t)" using Cons.prems(2) m by (auto split: prod.splits)
  have "P u" using Cons.prems(1)[of m] Cons.prems(3) m by (auto dest: keepsD)
  with Cons.IH[OF _ rest] Cons.prems(1) show ?case by simp
qed simp

lemma keeps_Promise_all: "(\<And>m. m \<in> set ms \<Longrightarrow> keeps P m) \<Longrightarrow> keeps P (Promise_all earliest ms)"
proof (rule keepsI)
  fix s r t assume ms: "\<And>m. m \<in> set ms \<Longrightarrow> keeps P m" and "P s" and run: "Promise_all earliest ms s = (r, t)"
  obtain es u where "run_all ms s = (es, u)" by fastforce
  then show "P t" using keeps_run_all[OF ms _ \<open>P s\<close>] run by (auto simp: Promise_all_def split: list.splits)
qed

lemma keeps_write_batches:
  assumes "\<And>f. keeps P (w f)"
  shows "keeps P (write_batches earliest w files)"
  using assms
proof (induction earliest w files rule: write_batches.induct)
  case (1 earliest w files)
  then show ?case by (subst write_batches.simps) (auto intro!: keeps_bindIO keeps_Promise_all)
qed

lemma kept_writeFiles [kept]: "keeps (settled_job before) (writeFiles pf config earliest files)"
proof -
  have "keeps (settled_job before) (write_one pf ep f)" for ep f
    unfolding write_one_def by (intro keeps_catchIO keeps_basic kept)
  then show ?thesis unfolding writeFiles_def by (auto intro!: keeps_bindIO keeps_write_batches kept)
qed

lemma kept_gitCheckout [kept]: "keeps (settled_job before) (gitCheckout pf config repo options)"
  unfolding gitCheckout_def by (intro keeps_bindIO kept) (auto split: ExecResult.split)

lemma kept_setEnvVars [kept]: "keeps (settled_job before) (setEnvVars vars onlyIfUnset)"
  unfolding setEnvVars_def by (intro keeps_bindIO keeps_basic) (auto intro!: kept)

lemma kept_startProcess [kept]: "keeps (settled_job before) (sandbox_startProcess pf config cmd options)"
  unfolding sandbox_startProcess_def Let_def by (intro keeps_bindIO keeps_catchIO keeps_basic kept)

lemma kept_exposePort [kept]: "keeps (settled_job before) (exposePort pf config port)"
  unfolding exposePort_def by (intro keeps_bindIO keeps_basic kept) (auto intro!: kept split: option.split)

lemma kept_destroy [kept]: "keeps (settled_job before) (destroy pf config)"
  unfolding destroy_def by (intro keeps_bindIO keeps_basic kept) (auto intro!: keeps_bindIO kept split: option.split)

lemma kept_perform: "keeps (settled_job before) (perform pf config c)"
  by (cases c) (auto intro!: kept simp: mountBucket_def unmountBucket_def)

subsection \<open>Along a run\<close>

text \<open>What one method does to the job and the log of an instance that has one.\<close>

lemma enter_kept:
  assumes "sb_job (sandboxes p ! k) \<noteq> None" and "on_sandbox k m p = (r, q)" and "keeps (settled_job (log p)) m"
    and "k < length (sandboxes p)"
  shows "sb_job (sandboxes q ! k) \<noteq> None" "\<exists>l. log q = log p @ l \<and> list_all silent l"
proof -
  obtain t where t: "m (enter k p) = (r, t)" "q = leave k p t" using assms(2) by (auto simp: on_sandbox_def split: prod.splits)
  have "settled_job (log p) (enter k p)" using assms(1) by (simp add: settled_job_def enter_def)
  then have "settled_job (log p) t" by (rule keepsD[OF assms(3) _ t(1)])
  then show "sb_job (sandboxes q ! k) \<noteq> None" "\<exists>l. log q = log p @ l \<and> list_all silent l"
    using t(2) assms(4) by (simp_all add: settled_job_def leave_def)
qed

lemma other_kept:
  assumes "on_sandbox i m p = (r, q)" and "i \<noteq> k"
  shows "sandboxes q ! k = sandboxes p ! k" "length (sandboxes q) = length (sandboxes p)"
  using assms by (auto simp: on_sandbox_def leave_def split: prod.splits)

lemma step_kept:
  assumes "step pf config p q" and k: "k < length (sandboxes p)" and job: "sb_job (sandboxes p ! k) \<noteq> None"
  shows "k < length (sandboxes q) \<and> sb_job (sandboxes q ! k) \<noteq> None"
proof -
  have call: "k < length (sandboxes q') \<and> sb_job (sandboxes q' ! k) \<noteq> None"
    if "on_sandbox i m p = (r, q')" and "\<And>before. keeps (settled_job before) m" for i q' r and m :: "(unit, 'r) sandbox_io"
  proof (cases "i = k")
    case True
    with enter_kept(1)[OF job that(1)[unfolded True] that(2) k] k that(1) show ?thesis
      by (auto simp: on_sandbox_def leave_def split: prod.splits)
  qed (use other_kept[OF that(1)] k job in auto)
  from assms(1) show ?thesis
  proof cases
    case (calls i c r)
    show ?thesis using call[OF calls(2) kept_perform] .
  next
    case (starts i cmd options pr q')
    with call[OF starts(3) kept_startProcess] show ?thesis by simp
  next
    case (talks_to pr c r)
    obtain l where "net_state.more q = net_state.more p" using talksE[OF talks_perform_process talks_to(2)] by blast
    then show ?thesis using k job more_process(3) by metis
  next
    case (enumerates ask fuel r)
    with enumeration_log[OF enumerates] k job show ?thesis by simp
  qed (use k job in \<open>auto simp: nth_append\<close>)
qed



end
