(* ===== verification/ApiContract.thy ===== *)
theory ApiContract
  imports Net Config
begin

section \<open>The API contract check (\<open>scripts/check-armada-api.ts\<close>)\<close>

text \<open>
  The script continuous integration runs to compare the hand-written types with the specification of the
  pinned Armada release.  The specification is read as JSON at the type the script declares for it, a
  member of another type counting as missing.  \<open>main\<close> asks for two files and says whether they agree;
  \<open>contract_holds\<close> is what agreeing means, stated without the script's loops.
\<close>

subsection \<open>The tables\<close>

datatype field_type = TString | TBoolean | TInteger | TNumber | TObject | TArray | TRef

primrec field_text :: "field_type \<Rightarrow> jsstring" where
  "field_text TString = js ''string''"
| "field_text TBoolean = js ''boolean''"
| "field_text TInteger = js ''integer''"
| "field_text TNumber = js ''number''"
| "field_text TObject = js ''object''"
| "field_text TArray = js ''array''"
| "field_text TRef = js ''ref''"

definition ENDPOINTS :: "jsstring obj" where
  "ENDPOINTS =
     [(js ''/v1/job/submit'', js ''post''),
      (js ''/v1/job-set/{queue}/{id}'', js ''post''),
      (js ''/v1/job/cancel'', js ''post''),
      (js ''/v1/job/statusUsingExternalJobUri'', js ''post'')]"

definition CONTRACT :: "field_type obj obj" where
  "CONTRACT =
     [(js ''apiJobSubmitRequest'',
        [(js ''queue'', TString), (js ''jobSetId'', TString), (js ''jobRequestItems'', TArray)]),
      (js ''apiJobSubmitRequestItem'',
        [(js ''clientId'', TString), (js ''namespace'', TString), (js ''podSpec'', TRef),
         (js ''externalJobUri'', TString), (js ''ingress'', TArray), (js ''services'', TArray),
         (js ''labels'', TObject), (js ''annotations'', TObject), (js ''priority'', TNumber)]),
      (js ''apiIngressConfig'',
        [(js ''type'', TRef), (js ''ports'', TArray), (js ''tlsEnabled'', TBoolean), (js ''certName'', TString),
         (js ''useClusterIP'', TBoolean), (js ''annotations'', TObject)]),
      (js ''apiServiceConfig'', [(js ''name'', TString), (js ''type'', TRef), (js ''ports'', TArray)]),
      (js ''apiJobSubmitResponse'', [(js ''jobResponseItems'', TArray)]),
      (js ''apiJobSubmitResponseItem'', [(js ''jobId'', TString), (js ''error'', TString)]),
      (js ''apiJobSetRequest'',
        [(js ''queue'', TString), (js ''id'', TString), (js ''watch'', TBoolean), (js ''fromMessageId'', TString),
         (js ''errorIfMissing'', TBoolean)]),
      (js ''apiEventStreamMessage'', [(js ''id'', TString), (js ''message'', TRef)]),
      (js ''apiEventMessage'',
        [(js ''running'', TRef), (js ''ingressInfo'', TRef), (js ''failed'', TRef), (js ''cancelled'', TRef),
         (js ''succeeded'', TRef)]),
      (js ''apiJobRunningEvent'',
        [(js ''jobId'', TString), (js ''jobSetId'', TString), (js ''queue'', TString), (js ''created'', TString),
         (js ''clusterId'', TString), (js ''podName'', TString), (js ''podNamespace'', TString),
         (js ''nodeName'', TString), (js ''podNumber'', TInteger)]),
      (js ''apiJobIngressInfoEvent'',
        [(js ''jobId'', TString), (js ''clusterId'', TString), (js ''podName'', TString),
         (js ''podNamespace'', TString), (js ''ingressAddresses'', TObject)]),
      (js ''apiJobFailedEvent'',
        [(js ''jobId'', TString), (js ''reason'', TString), (js ''cause'', TRef), (js ''failureCategory'', TString),
         (js ''failureSubcategory'', TString), (js ''retryable'', TBoolean), (js ''exitCodes'', TObject)]),
      (js ''apiJobCancelRequest'',
        [(js ''queue'', TString), (js ''jobSetId'', TString), (js ''jobId'', TString), (js ''jobIds'', TArray),
         (js ''reason'', TString)]),
      (js ''apiCancellationResult'', [(js ''cancelledIds'', TArray)]),
      (js ''apiJobStatusUsingExternalJobUriRequest'',
        [(js ''queue'', TString), (js ''jobset'', TString), (js ''externalJobUri'', TString)]),
      (js ''apiJobStatusResponse'', [(js ''jobStates'', TObject)]),
      (js ''runtimeStreamError'',
        [(js ''message'', TString), (js ''grpcCode'', TInteger), (js ''httpCode'', TInteger),
         (js ''httpStatus'', TString)])]"

definition ENUMS :: "jsstring list obj" where
  "ENUMS =
     [(js ''apiIngressType'', [js ''Ingress'']),
      (js ''apiServiceType'', [js ''NodePort'', js ''Headless''])]"

definition JOB_STATES :: "job_state obj" where
  "JOB_STATES =
     [(js ''QUEUED'', QUEUED), (js ''PENDING'', PENDING), (js ''RUNNING'', RUNNING), (js ''SUCCEEDED'', SUCCEEDED),
      (js ''FAILED'', FAILED), (js ''UNKNOWN'', UNKNOWN), (js ''SUBMITTED'', SUBMITTED), (js ''LEASED'', LEASED),
      (js ''PREEMPTED'', PREEMPTED), (js ''CANCELLED'', CANCELLED), (js ''REJECTED'', REJECTED)]"

definition NUMBERED_ENUMS :: "nat obj obj" where
  "NUMBERED_ENUMS = [(js ''apiJobState'', map (map_prod id (nat \<circ> JOB_STATE)) JOB_STATES)]"

definition LOOKOUT_TOKENS :: "jsstring list" where
  "LOOKOUT_TOKENS =
     [js ''/api/v1/jobs:'', js ''filters:'', js ''order:'', js ''skip:'', js ''take:'', js ''isAnnotation:'',
      js ''- exact'', js ''- anyOf'', js ''jobSet:'', js ''queue:'', js ''submitted:'', js ''state:'', js ''jobs:'']"

subsection \<open>The checks\<close>

definition actualType :: "json \<Rightarrow> jsstring" where
  "actualType schema =
     (if json_at schema (js ''$ref'') \<noteq> None then js ''ref'' else or_else (str_at schema (js ''type'')) (js ''unknown''))"

definition definitions_of :: "json \<Rightarrow> json" where
  "definitions_of doc = or_else (json_at doc (js ''definitions'')) (JObj [])"

definition property_of :: "json \<Rightarrow> jsstring \<Rightarrow> json option" where
  "property_of schema field = Option.bind (json_at schema (js ''properties'')) (\<lambda>ps. json_at ps field)"

definition enum_of :: "json \<Rightarrow> jsstring \<Rightarrow> jsstring option list" where
  "enum_of doc name =
     map (\<lambda>v. case v of JStr t \<Rightarrow> Some t | _ \<Rightarrow> None)
       (or_else (Option.bind (json_at (definitions_of doc) name) (\<lambda>schema. arr_at schema (js ''enum''))) [])"

definition listed :: "jsstring option list \<Rightarrow> jsstring" where
  "listed values = join (js '', '') (map (\<lambda>v. or_else v []) values)"

definition operation :: "json \<Rightarrow> jsstring \<Rightarrow> jsstring \<Rightarrow> json option" where
  "operation doc path verb =
     Option.bind (Option.bind (json_at doc (js ''paths'')) (\<lambda>ps. json_at ps path)) (\<lambda>p. json_at p verb)"

definition endpoint_problems :: "json \<Rightarrow> jsstring list" where
  "endpoint_problems doc =
     concat (map (\<lambda>(path, verb).
       if operation doc path verb = None
       then [concat [js ''endpoint '', toUpperCase verb, js '' '', path, js '' is gone'']] else []) ENDPOINTS)"

definition field_problems :: "jsstring \<Rightarrow> json \<Rightarrow> jsstring \<times> field_type \<Rightarrow> jsstring list" where
  "field_problems name schema = (\<lambda>(field, expected).
     (case property_of schema field of
        None \<Rightarrow> [concat [name, js ''.'', field, js '' is gone'']]
      | Some property \<Rightarrow>
          if actualType property \<noteq> field_text expected
          then [concat [name, js ''.'', field, js '' is '', actualType property, js '' now, we read it as '', field_text expected]]
          else []))"

definition contract_problems :: "json \<Rightarrow> jsstring list" where
  "contract_problems doc =
     concat (map (\<lambda>(name, members).
       case json_at (definitions_of doc) name of
         None \<Rightarrow> [concat [js ''definition '', name, js '' is gone'']]
       | Some schema \<Rightarrow> concat (map (field_problems name schema) members)) CONTRACT)"

definition enum_problems :: "json \<Rightarrow> jsstring list" where
  "enum_problems doc =
     concat (map (\<lambda>(name, members).
       concat (map (\<lambda>member.
         if Some member \<notin> set (enum_of doc name)
         then [concat [name, js '' no longer has the member '', member, js '' (has: '', listed (enum_of doc name), js '')'']]
         else []) members)) ENUMS)"

definition value_at :: "jsstring option list \<Rightarrow> nat \<Rightarrow> jsstring option" where
  "value_at values i = (if i < length values then values ! i else None)"

definition numbered_problems :: "json \<Rightarrow> jsstring list" where
  "numbered_problems doc =
     concat (map (\<lambda>(name, numbering).
       concat (map (\<lambda>(member, number).
         if value_at (enum_of doc name) number \<noteq> Some member
         then [concat [name, js '' has '', or_else (value_at (enum_of doc name) number) (js ''nothing''), js '' at '',
           show_nat number, js '', we read that number as '', member, js '' (has: '', listed (enum_of doc name), js '')'']]
         else []) numbering)) NUMBERED_ENUMS)"

definition lookout_problems :: "jsstring \<Rightarrow> jsstring \<Rightarrow> jsstring list" where
  "lookout_problems lookoutUrl spec =
     concat (map (\<lambda>token.
       if \<not> contains token spec
       then [concat [js ''lookout swagger no longer contains '', [34], token, [34], js '' ('', lookoutUrl, js '')'']]
       else []) LOOKOUT_TOKENS)"

definition problems :: "json \<Rightarrow> jsstring \<Rightarrow> jsstring \<Rightarrow> jsstring list" where
  "problems doc lookoutUrl spec =
     endpoint_problems doc @ contract_problems doc @ enum_problems doc @ numbered_problems doc
       @ lookout_problems lookoutUrl spec"

subsection \<open>The script\<close>

text \<open>Fetching fails loudly.\<close>

definition fetchSpec :: "platform \<Rightarrow> jsstring \<Rightarrow> ('a net_state_scheme, jsstring) io" where
  "fetchSpec pf url =
     bindIO (fetch pf \<lparr>req_method = js ''GET'', req_url = url, req_headers = [], req_body = None, req_timeout = None\<rparr>)
       (\<lambda>response.
         if \<not> rsp_ok response
         then throwIO (err [js ''could not fetch the spec ('', show_nat (rsp_status response), js ''): '', url])
         else liftR (response_text response))"

definition spec_url :: "jsstring \<Rightarrow> jsstring \<Rightarrow> jsstring" where
  "spec_url version path =
     concat [js ''https://raw.githubusercontent.com/armadaproject/armada/'', version, js ''/'', path]"

text \<open>How the script ends: its last line, or the lines of its complaint before exit status 1.\<close>

datatype verdict = Agreed jsstring | Drifted "jsstring list"

definition field_count :: nat where
  "field_count = foldl (\<lambda>n members. n + length (obj_keys members)) 0 (obj_values CONTRACT)"

definition agreed_line :: jsstring where
  "agreed_line =
     concat [js ''ok: '', show_nat (length (obj_keys ENDPOINTS)), js '' endpoints, '', show_nat (length (obj_keys CONTRACT)),
       js '' definitions, '', show_nat field_count, js '' fields, '', show_nat (length LOOKOUT_TOKENS), js '' lookout tokens'']"

definition drift_lines :: "jsstring \<Rightarrow> jsstring \<Rightarrow> jsstring list \<Rightarrow> jsstring list" where
  "drift_lines version url found =
     [concat [[10], show_nat (length found), js '' mismatch(es) against armada '', version, js '':'', [10]]]
     @ map (\<lambda>p. js ''  '' @ p) found
     @ [concat [[10], js ''Fix src/armada-types.ts and the CONTRACT table in this script together.'', [10],
          js ''The spec is at '', url, [10]]]"

definition main :: "platform \<Rightarrow> env \<Rightarrow> ('a net_state_scheme, verdict) io" where
  "main pf env =
     bindIO (case env (js ''ARMADA_VERSION'') of Some v \<Rightarrow> returnIO v | None \<Rightarrow> readFile_utf8 pf (js ''.armada-version'')) (\<lambda>named.
     let version = trim named; url = spec_url version (js ''pkg/api/api.swagger.json'') in
     bindIO (fetchSpec pf url) (\<lambda>raw.
     bindIO (liftR (case JSON_parse raw of None \<Rightarrow> Inl (JsError (pf_syntax pf raw)) | Some v \<Rightarrow> Inr v)) (\<lambda>parsed.
     bindIO (liftR (throw_if (case parsed of JObj _ \<Rightarrow> False | JArr _ \<Rightarrow> False | _ \<Rightarrow> True)
       (err [js ''the spec at '', url, js '' is not a JSON object'']))) (\<lambda>_.
     let lookoutUrl = spec_url version (js ''internal/lookout/swagger.yaml'') in
     bindIO (fetchSpec pf lookoutUrl) (\<lambda>lookoutSpec.
       let found = problems parsed lookoutUrl lookoutSpec in
       returnIO (if found \<noteq> [] then Drifted (drift_lines version url found) else Agreed agreed_line))))))"

subsection \<open>What agreeing means\<close>

definition declares :: "json \<Rightarrow> jsstring \<times> field_type \<Rightarrow> bool" where
  "declares schema = (\<lambda>(field, expected).
     \<exists>property. property_of schema field = Some property \<and> actualType property = field_text expected)"

definition contract_holds :: "json \<Rightarrow> jsstring \<Rightarrow> bool" where
  "contract_holds doc lookout \<longleftrightarrow>
     (\<forall>(path, verb) \<in> set ENDPOINTS. operation doc path verb \<noteq> None)
     \<and> (\<forall>(name, members) \<in> set CONTRACT. \<exists>schema. json_at (definitions_of doc) name = Some schema
        \<and> (\<forall>m \<in> set members. declares schema m))
     \<and> (\<forall>(name, members) \<in> set ENUMS. Some ` set members \<subseteq> set (enum_of doc name))
     \<and> (\<forall>(member, state) \<in> set JOB_STATES. value_at (enum_of doc (js ''apiJobState'')) (nat (JOB_STATE state)) = Some member)
     \<and> (\<forall>token \<in> set LOOKOUT_TOKENS. contains token lookout)"

lemma concat_map_Nil: "concat (map f xs) = [] \<longleftrightarrow> (\<forall>x \<in> set xs. f x = [])"
  by auto

lemma report_Nil: "(if b then [x] else []) = [] \<longleftrightarrow> \<not> b"
  by simp

lemma endpoint_problems_Nil:
  "endpoint_problems doc = [] \<longleftrightarrow> (\<forall>(path, verb) \<in> set ENDPOINTS. operation doc path verb \<noteq> None)"
  unfolding endpoint_problems_def concat_map_Nil by (simp only: case_prod_unfold report_Nil)

lemma field_problems_Nil: "field_problems name schema m = [] \<longleftrightarrow> declares schema m"
  by (auto simp: field_problems_def declares_def split: option.split prod.split)

lemma contract_problems_Nil:
  "contract_problems doc = [] \<longleftrightarrow> (\<forall>(name, members) \<in> set CONTRACT.
     \<exists>schema. json_at (definitions_of doc) name = Some schema \<and> (\<forall>m \<in> set members. declares schema m))"
  unfolding contract_problems_def concat_map_Nil
  by (rule ball_cong[OF refl]) (simp only: case_prod_beta concat_map_Nil field_problems_Nil split: option.split, auto)

lemma enum_problems_Nil:
  "enum_problems doc = [] \<longleftrightarrow> (\<forall>(name, members) \<in> set ENUMS. Some ` set members \<subseteq> set (enum_of doc name))"
  unfolding enum_problems_def concat_map_Nil
  by (simp only: case_prod_unfold concat_map_Nil report_Nil image_subset_iff not_not)

lemma numbered_problems_Nil:
  "numbered_problems doc = [] \<longleftrightarrow> (\<forall>(member, state) \<in> set JOB_STATES.
     value_at (enum_of doc (js ''apiJobState'')) (nat (JOB_STATE state)) = Some member)"
  by (auto simp: numbered_problems_def NUMBERED_ENUMS_def split: if_splits)

lemma problems_Nil: "problems doc lookoutUrl lookout = [] \<longleftrightarrow> contract_holds doc lookout"
  by (simp add: problems_def contract_holds_def endpoint_problems_Nil contract_problems_Nil enum_problems_Nil
      numbered_problems_Nil) (auto simp: lookout_problems_def)


subsection \<open>What the table covers\<close>

definition same_fields :: "jsstring \<Rightarrow> json \<Rightarrow> json \<Rightarrow> bool" where
  "same_fields name v w \<longleftrightarrow> (\<forall>members. obj_get CONTRACT name = Some members \<longrightarrow>
     (\<forall>field \<in> set (obj_keys members). json_at v field = json_at w field))"

lemma same_fieldsD:
  "same_fields name v w \<Longrightarrow> obj_get CONTRACT name = Some members \<Longrightarrow> field \<in> set (obj_keys members) \<Longrightarrow>
     json_at v field = json_at w field"
  by (simp add: same_fields_def)

text \<open>Note: The table covers what the adapter reads of Armada's answers: two answers with the same values in the fields the
  table lists for their type are decoded to the same thing, so the check misses no field whose change would
  change what the adapter sees of a submission, of a running, addressed or failed job, or of the states
  asked for.\<close>

theorem decoders_covered:
  "(same_fields (js ''apiJobSubmitResponse'') v w \<longrightarrow> decode_submit v = decode_submit w)
   \<and> (same_fields (js ''apiJobRunningEvent'') v w \<longrightarrow> decode_running v = decode_running w)
   \<and> (same_fields (js ''apiJobIngressInfoEvent'') v w \<longrightarrow> decode_info v = decode_info w)
   \<and> (same_fields (js ''apiJobFailedEvent'') v w \<longrightarrow> decode_failed v = decode_failed w)
   \<and> (same_fields (js ''apiEventMessage'') v w \<longrightarrow> decode_message v = decode_message w)
   \<and> (same_fields (js ''apiJobStatusResponse'') v w \<longrightarrow> decode_states v = decode_states w)"
  by (auto simp: same_fields_def CONTRACT_def obj_get_def obj_keys_def decode_submit_def decode_running_def decode_info_def
      decode_failed_def decode_message_def decode_states_def str_at_def arr_at_def obj_at_def is_true_def)

definition placed_event :: "json obj" where
  "placed_event = [(js ''jobId'', JStr (js ''01k''))]"

lemma decoders_covered_witness:
  "(let v = JObj placed_event; w = JObj (placed_event @ [(js ''traceId'', JStr (js ''7''))]) in
     v \<noteq> w \<and> decode_running v = decode_running w \<and> decode_failed v = decode_failed w \<and> decode_info v = decode_info w
     \<and> decode_submit v = decode_submit w \<and> decode_message v = decode_message w \<and> decode_states v = decode_states w)"
  using decoders_covered[of "JObj placed_event" "JObj (placed_event @ [(js ''traceId'', JStr (js ''7''))])"]
  by (simp add: same_fields_def CONTRACT_def placed_event_def obj_get_def obj_keys_def json_at_def js_def Let_def)

end
