(* ===== verification/Smoke.thy ===== *)
theory Smoke
  imports JobKept ApiContract
begin

section \<open>The smoke run (\<open>dev/smoke.ts\<close>)\<close>

text \<open>
  The script that drives one sandbox through everything the adapter can do, against a real Armada: it submits
  a job, runs commands, moves files, starts processes, exposes ports, looks for processes left behind, and
  tears the sandbox down.  The state is that of a sandbox with what \<open>check\<close> counts and prints; lines that only
  report progress are left out.  An exception ends the script there.  The last part of a run with an owner enumerates,
  which takes fuel, so a run as a whole may be None.
\<close>

subsection \<open>Setting up\<close>

record smoke_state = sandbox_state +
  failures :: nat
  exitCode :: nat
  checks :: "(bool \<times> jsstring) list"

definition SMOKE_DEFAULTS :: "jsstring obj" where
  "SMOKE_DEFAULTS =
     [(js ''ARMADA_URL'', js ''http://localhost:30001''),
      (js ''ARMADA_QUEUE'', js ''marimohub''),
      (js ''ARMADA_AGENT_IMAGE'', js ''marimohub-kernel-agent:local''),
      (js ''ARMADA_AGENT_TOKEN_SECRET'', js ''armada-dev-only-agent-token-secret''),
      (js ''MARIMOHUB_SURFACES'', js ''vscode'')]"

definition smoke_env :: "env \<Rightarrow> env" where
  "smoke_env env = (\<lambda>k. case env k of Some v \<Rightarrow> Some v | None \<Rightarrow> obj_get SMOKE_DEFAULTS k)"

definition smoke_owner :: "env \<Rightarrow> SandboxOwner option" where
  "smoke_owner env =
     map_option (\<lambda>p. \<lparr>projectId = p, userId = env (js ''SMOKE_OWNER_USER'')\<rparr>) (env (js ''SMOKE_OWNER_PROJECT''))"

text \<open>\<open>toString(36)\<close>\<close>

fun base36 :: "nat \<Rightarrow> jsstring" where
  "base36 n =
     (let d = n mod 36; c = (if d < 10 then 48 + d else 87 + d)
      in if n < 36 then [c] else base36 (n div 36) @ [c])"

declare base36.simps [simp del]

definition smoke_id :: "nat \<Rightarrow> SandboxId" where
  "smoke_id now' = js ''smoke-'' @ base36 now'"

definition check :: "bool \<Rightarrow> jsstring \<Rightarrow> ('a smoke_state_scheme, unit) io" where
  "check passed what =
     updIO (\<lambda>s. s\<lparr>checks := checks s @ [(passed, what)],
       failures := (if passed then failures s else failures s + 1),
       exitCode := (if passed then exitCode s else 1)\<rparr>)"

text \<open>A sandbox of its own directory and placements.\<close>

definition smoke_sandbox :: "ArmadaConfig \<Rightarrow> SandboxOwner option \<Rightarrow> 'a smoke_state_scheme \<Rightarrow> 'a smoke_state_scheme" where
  "smoke_sandbox config owner s =
     s\<lparr>remembered := \<lambda>_. None, placements := \<lambda>_. None,
       this := new_sandbox config (smoke_id (clock s))
         (map_option (\<lambda>o'. \<lparr>opt_image = None, opt_resources = None, opt_owner = Some o'\<rparr>) owner) False,
       failures := 0, exitCode := 0, checks := []\<rparr>"

text \<open>\<open>await sandbox.ready()\<close>, the agent it opened and the queue the job is in.\<close>

definition smoke_ready :: "platform \<Rightarrow> ArmadaConfig \<Rightarrow> ('a smoke_state_scheme, AgentEndpoint \<times> jsstring) io" where
  "smoke_ready pf config =
     bindIO (sandbox_ready pf config) (\<lambda>_.
     bindIO (getIO this) (\<lambda>sb.
       case (sb_channel sb, placement_of sb) of
         (Some agent, Some pod) \<Rightarrow> bindIO (sandbox_queue pf config) (\<lambda>queue. returnIO (agent, queue))
       | _ \<Rightarrow> throwIO (err [js ''ready() returned without a pod''])))"

subsection \<open>What it tries\<close>

definition smoke_exec :: "platform \<Rightarrow> ArmadaConfig \<Rightarrow> ('a smoke_state_scheme, unit) io" where
  "smoke_exec pf config =
     bindIO (sandbox_exec pf config (concat [js ''echo '', [34], js ''hello from $(hostname)'', [34], js ''; python3 -V; echo '',
         [34], js ''PID 1 is $(tr -d '', [39, 92], js ''0'', [39], js '' < /proc/1/cmdline | head -c 40)'', [34]]) None) (\<lambda>hello.
       check (case hello of ExecSuccess _ _ \<Rightarrow> True | ExecFailure _ _ _ \<Rightarrow> False) (js ''exec through the agent''))"

definition smoke_path :: jsstring where
  "smoke_path = js ''/tmp/smoke dir/it'' @ [39] @ js ''s.bin''"

definition smoke_bytes :: "byte list" where
  "smoke_bytes = [0, 159, 146, 150, 10]"

definition smoke_files :: "platform \<Rightarrow> ArmadaConfig \<Rightarrow> ('a smoke_state_scheme, unit) io" where
  "smoke_files pf config =
     bindIO (writeFiles pf config (\<lambda>_. 0) [\<lparr>fw_path = smoke_path, fw_content = BytesContent smoke_bytes\<rparr>]) (\<lambda>_.
     bindIO (sandbox_readFile pf config smoke_path) (\<lambda>readBack.
     bindIO (check (case readBack of
           ReadFileSuccess c e \<Rightarrow> e = BASE64 \<and> unbase64 c = smoke_bytes
         | ReadFileFailure _ \<Rightarrow> False) (js ''binary bytes round-trip exactly, reported as base64'')) (\<lambda>_.
     bindIO (sandbox_listFiles pf config (js ''/tmp/smoke dir'') None) (\<lambda>listed.
     bindIO (check (case listed of
           ListFilesSuccess [f] \<Rightarrow> fi_name f = js ''it'' @ [39] @ js ''s.bin'' \<and> fi_size f = of_whole (int (length smoke_bytes))
         | _ \<Rightarrow> False) (js ''the listing names the file with its size'')) (\<lambda>_.
     bindIO (sandbox_readFile pf config (js ''/tmp/smoke dir/never-written'')) (\<lambda>missing.
       check (case missing of ReadFileFailure code \<Rightarrow> code = NOT_FOUND | _ \<Rightarrow> False) (js ''an absent path is NOT_FOUND'')))))))"

text \<open>\<open>replace\<close> with a string: the first occurrence.\<close>

fun replace_first :: "jsstring \<Rightarrow> jsstring \<Rightarrow> jsstring \<Rightarrow> jsstring" where
  "replace_first p q [] = (if p = [] then q else [])"
| "replace_first p q (c # s) =
     (if startsWith p (c # s) then q @ drop (length p) (c # s) else c # replace_first p q s)"

text \<open>Polling for the TERM to land.\<close>

fun await_exit :: "nat \<Rightarrow> platform \<Rightarrow> AgentEndpoint \<Rightarrow> jsnum \<Rightarrow> bool \<Rightarrow> ('a smoke_state_scheme, bool) io" where
  "await_exit attempts pf agent pid alive' =
     (case attempts of
        0 \<Rightarrow> returnIO alive'
      | Suc n \<Rightarrow>
          if \<not> alive' then returnIO alive'
          else bindIO (sleep pf 100) (\<lambda>_.
               bindIO (agent_processStatus pf agent pid) (\<lambda>status. await_exit n pf agent pid (ps_running status))))"

declare await_exit.simps [simp del]

definition waiting :: "probe_mode option \<Rightarrow> jsstring option \<Rightarrow> jsnum option \<Rightarrow> WaitForPortOptions option" where
  "waiting mode path ms = Some \<lparr>wait_mode = mode, wait_path = path, wait_timeout = ms\<rparr>"

definition smoke_process :: "platform \<Rightarrow> ArmadaConfig \<Rightarrow> AgentEndpoint \<Rightarrow> ('a smoke_state_scheme, unit) io" where
  "smoke_process pf config agent =
     bindIO (sandbox_startProcess pf config
         (concat [js ''echo '', [34], js ''serving on 8123'', [34], js ''; python3 -m http.server 8123'']) None) (\<lambda>serving.
     let servingPid = js_Number (replace_first (js ''armada-proc-'') [] (pr_id serving)) in
     bindIO (process_waitForPort pf serving 8123 (waiting None None (Some (of_whole 30000)))) (\<lambda>_.
     bindIO (process_waitForPort pf serving 8123 (waiting (Some Http) (Some (js ''/'')) (Some (of_whole 10000)))) (\<lambda>_.
     bindIO (isPortReady pf 8123 (waiting None (Some (js ''/'')) None)) (\<lambda>ready.
     bindIO (check ready (js ''isPortReady sees the server answer over http'')) (\<lambda>_.
     bindIO (isPortReady pf 8125 None) (\<lambda>idle.
     bindIO (check (\<not> idle) (js ''isPortReady is false for a port nothing listens on'')) (\<lambda>_.
     bindIO (agent_processStatus pf agent servingPid) (\<lambda>alive.
     bindIO (check (ps_running alive) (js ''the agent reports the server running'')) (\<lambda>_.
     bindIO (process_kill pf serving None) (\<lambda>_.
     bindIO (await_exit 50 pf agent servingPid True) (\<lambda>alive'.
     bindIO (check (\<not> alive') (js ''kill() really terminated it'')) (\<lambda>_.
     bindIO (getLogs pf serving) (\<lambda>logs.
       check (fst logs \<noteq> []) (js ''its log survived it''))))))))))))))"

definition smoke_ports :: "platform \<Rightarrow> ArmadaConfig \<Rightarrow> ('a smoke_state_scheme, unit) io" where
  "smoke_ports pf config =
     bindIO (exposePort pf config (cfg_port config)) (\<lambda>kernelUrl.
     bindIO (exposePort pf config 8443) (\<lambda>surfaceUrl.
     bindIO (exposePort pf config 8443) (\<lambda>surfaceAgain.
       check (multiPort (capabilities_of config) \<and> surfaceUrl \<noteq> kernelUrl \<and> surfaceAgain = surfaceUrl)
         (concat [js ''multiPort: the surface port has its own stable address next to the kernel'', [39], js ''s'']))))"

definition smoke_crash :: "platform \<Rightarrow> ArmadaConfig \<Rightarrow> ('a smoke_state_scheme, unit) io" where
  "smoke_crash pf config =
     bindIO (sandbox_startProcess pf config (js ''echo boom; exit 7'') None) (\<lambda>crashing.
     bindIO (catchIO
         (bindIO (process_waitForPort pf crashing 8124 (waiting None None (Some (of_whole 20000)))) (\<lambda>_. returnIO []))
         (\<lambda>e. returnIO (message e))) (\<lambda>crashReport.
       check (contains (js ''process exited before port 8124 opened'') crashReport \<and> contains (js ''boom'') crashReport)
         (js ''the wait reports a crash with the log, not a timeout'')))"

text \<open>The first read of a stream: it fails when the stream breaks before its first chunk.\<close>

definition first_read :: "body_stream \<Rightarrow> unit result" where
  "first_read b = (case (chunks b, ending b) of ([], Some e) \<Rightarrow> Inl e | _ \<Rightarrow> Inr ())"

definition smoke_abandon :: "platform \<Rightarrow> ArmadaConfig \<Rightarrow> AgentEndpoint \<Rightarrow> bool \<Rightarrow> ('a smoke_state_scheme, unit) io" where
  "smoke_abandon pf config agent stopped =
     (let spin = js ''while true; do echo tick; sleep 0.2; done'' in
      bindIO (sandbox_exec pf config spin (Some (of_whole 1500))) (\<lambda>timedOut.
      bindIO (execStream pf config stopped spin None) (\<lambda>stream.
      bindIO (liftR (first_read stream)) (\<lambda>_.
      bindIO (sleep pf 2000) (\<lambda>_.
      bindIO (agent_run pf agent [js ''sh'', js ''-c'', strayProcessCommand] \<lparr>run_stdin = None, run_timeoutMs = None\<rparr>) (\<lambda>strays.
        check (parseStrayProcesses (cr_stdout strays) = [])
          (js ''nothing is left behind, zombies included: the agent kills what its callers abandon and reaps the rest'')))))))"

definition smoke_checks :: "platform \<Rightarrow> ArmadaConfig \<Rightarrow> bool \<Rightarrow> ('a smoke_state_scheme, AgentEndpoint \<times> jsstring) io" where
  "smoke_checks pf config stopped =
     bindIO (smoke_ready pf config) (\<lambda>(agent, queue).
     bindIO (smoke_exec pf config) (\<lambda>_.
     bindIO (smoke_files pf config) (\<lambda>_.
     bindIO (smoke_process pf config agent) (\<lambda>_.
     bindIO (smoke_ports pf config) (\<lambda>_.
     bindIO (smoke_crash pf config) (\<lambda>_.
     bindIO (smoke_abandon pf config agent stopped) (\<lambda>_.
       returnIO (agent, queue))))))))"

subsection \<open>How it ends\<close>

text \<open>An operation that may run out of fuel, and what follows it.\<close>

type_synonym ('s, 'r) fueled = "'s \<Rightarrow> ('r result \<times> 's) option"

definition always :: "('s, 'r) io \<Rightarrow> ('s, 'r) fueled" where
  "always m s = Some (m s)"

definition and_then :: "('s, 'a) fueled \<Rightarrow> ('a \<Rightarrow> ('s, 'b) fueled) \<Rightarrow> ('s, 'b) fueled" where
  "and_then m f s =
     (case m s of
        None \<Rightarrow> None
      | Some (Inl e, t) \<Rightarrow> Some (Inl e, t)
      | Some (Inr x, t) \<Rightarrow> f x t)"

text \<open>\<open>fresh.listActive()\<close>\<close>

definition smoke_list :: "nat \<Rightarrow> platform \<Rightarrow> ArmadaConfig \<Rightarrow> ('a smoke_state_scheme, ActiveSandbox list) fueled" where
  "smoke_list fuel pf config =
     (case provider_listActive config of
        None \<Rightarrow> always (throwIO (err [js ''unreachable: Lookout was checked above'']))
      | Some ask \<Rightarrow> ask fuel pf)"

definition listed_as :: "SandboxId \<Rightarrow> ActiveSandbox list \<Rightarrow> bool" where
  "listed_as sid active \<longleftrightarrow> list_ex (\<lambda>a. as_id a = sid) active"

fun await_gone :: "nat \<Rightarrow> nat \<Rightarrow> platform \<Rightarrow> ArmadaConfig \<Rightarrow> SandboxId \<Rightarrow> bool \<Rightarrow> ('a smoke_state_scheme, bool) fueled" where
  "await_gone attempts fuel pf config sid gone =
     (case attempts of
        0 \<Rightarrow> always (returnIO gone)
      | Suc n \<Rightarrow>
          if gone then always (returnIO gone)
          else and_then (always (sleep pf 2000)) (\<lambda>_.
               and_then (smoke_list fuel pf config) (\<lambda>after. await_gone n fuel pf config sid (\<not> listed_as sid after))))"

declare await_gone.simps [simp del]

text \<open>A second provider, with nothing remembered, and the sandbox it makes of the id alone.\<close>

definition fresh_provider :: "('a smoke_state_scheme, unit) io" where
  "fresh_provider = updIO (\<lambda>s. s\<lparr>remembered := \<lambda>_. None, placements := \<lambda>_. None\<rparr>)"

definition fresh_create :: "ArmadaConfig \<Rightarrow> SandboxId \<Rightarrow> ('a smoke_state_scheme, unit) io" where
  "fresh_create config sid = set_this (\<lambda>_. provider_create config sid None)"

definition smoke_restart ::
  "nat \<Rightarrow> platform \<Rightarrow> ArmadaConfig \<Rightarrow> SandboxId \<Rightarrow> jsstring \<Rightarrow> ('a smoke_state_scheme, unit) fueled" where
  "smoke_restart fuel pf config sid queue =
     and_then (always (findQueue pf config sid)) (\<lambda>found.
     and_then (always (check (found = Some queue)
       (concat [js ''Lookout names queue '', [34], queue, [34], js '' for the job set, by the installation'', [39], js ''s mark'']))) (\<lambda>_.
     and_then (always fresh_provider) (\<lambda>_.
     and_then (smoke_list fuel pf config) (\<lambda>before.
     and_then (always (check (listed_as sid before)
       (concat [js ''listActive sees it ('', show_nat (length before), js '' active across '',
         join (js '', '') (queue_all config), js '')'']))) (\<lambda>_.
     and_then (always (fresh_create config sid)) (\<lambda>_.
     and_then (always (destroy pf config)) (\<lambda>_.
     and_then (await_gone 15 fuel pf config sid False) (\<lambda>gone.
       always (check gone
         (concat [js ''cancelled in queue '', [34], queue, [34], js '' by a provider that had to look it up'']))))))))))"

definition smoke_end ::
  "nat \<Rightarrow> platform \<Rightarrow> ArmadaConfig \<Rightarrow> SandboxOwner option \<Rightarrow> bool \<Rightarrow> SandboxId \<Rightarrow> jsstring
     \<Rightarrow> ('a smoke_state_scheme, unit) fueled" where
  "smoke_end fuel pf config owner keep sid queue =
     (if keep then always (returnIO ())
      else if owner = None then always (destroy pf config)
      else smoke_restart fuel pf config sid queue)"

definition smoke ::
  "nat \<Rightarrow> host \<Rightarrow> env \<Rightarrow> jsstring list \<Rightarrow> platform \<Rightarrow> bool \<Rightarrow> ('a smoke_state_scheme, unit) fueled" where
  "smoke fuel h env args pf stopped s =
     (case readConfig h (smoke_env env) None of
        Inl e \<Rightarrow> Some (Inl e, s)
      | Inr config \<Rightarrow>
          let owner = smoke_owner env in
          if owner \<noteq> None \<and> cfg_lookoutUrl config = None
          then Some (Inl (err [js ''an owner check needs ARMADA_LOOKOUT_URL'']), s)
          else and_then (always (smoke_checks pf config stopped))
            (\<lambda>(agent, queue). smoke_end fuel pf config owner (js ''--keep'' \<in> set args) (smoke_id (clock s)) queue)
            (smoke_sandbox config owner s))"

subsection \<open>What every stage keeps\<close>

text \<open>The tally: the failures are the failed checks, and the exit status says whether there are any.\<close>

definition tallied :: "'a smoke_state_scheme \<Rightarrow> bool" where
  "tallied s \<longleftrightarrow> failures s = length (filter (Not \<circ> fst) (checks s)) \<and> exitCode s = (if failures s = 0 then 0 else 1)"

lemma more_tallied: "sandbox_state.more t = sandbox_state.more (s :: 'a smoke_state_scheme) \<Longrightarrow> tallied s \<Longrightarrow> tallied t"
  by (cases s; cases t) (simp add: tallied_def)

definition quiet_since :: "request list \<Rightarrow> 'a net_state_scheme \<Rightarrow> bool" where
  "quiet_since before s \<longleftrightarrow> (\<exists>l. log s = before @ l \<and> list_all silent l)"

text \<open>\<open>closing\<close>: nothing was submitted since; \<open>in_order\<close>: and the sandbox has its job.\<close>

definition closing :: "ArmadaConfig \<Rightarrow> request list \<Rightarrow> 'a smoke_state_scheme \<Rightarrow> bool" where
  "closing config before s \<longleftrightarrow> tidy config s \<and> tallied s \<and> quiet_since before s"

definition in_order :: "ArmadaConfig \<Rightarrow> SandboxId \<Rightarrow> request list \<Rightarrow> 'a smoke_state_scheme \<Rightarrow> bool" where
  "in_order config sid before s \<longleftrightarrow> closing config before s \<and> sb_job (this s) \<noteq> None \<and> sb_id (this s) = sid"

lemma in_order_settled: "in_order config sid before s \<Longrightarrow> settled_job before s"
  by (simp add: in_order_def closing_def settled_job_def quiet_since_def)

lemma stays_tallied: "stays config s t \<Longrightarrow> tallied s \<Longrightarrow> tallied (t :: 'a smoke_state_scheme)"
  by (auto simp: stays_def intro: more_tallied)

named_theorems stage

lemma stage_method:
  assumes "\<And>s0. tidy config s0 \<Longrightarrow> safe config s0 m (F s0)" and "keeps (settled_job before) m"
  shows "keeps (in_order config sid before) m"
proof (rule keepsI)
  fix s r t assume s: "in_order config sid before s" and run: "m s = (r, t)"
  then have "stays config s t" using safe_stays[OF assms(1) stays_start] by (auto simp: in_order_def closing_def)
  moreover have "settled_job before t" using keepsD[OF assms(2) in_order_settled[OF s] run] .
  ultimately show "in_order config sid before t"
    using s stays_tallied[of config s t]
    by (simp add: in_order_def closing_def settled_job_def quiet_since_def stays_tidy stays_id(1))
qed

lemmas stage_methods [stage] =
  stage_method[OF safe_ready kept_ready] stage_method[OF safe_queue kept_queue] stage_method[OF safe_exec kept_exec]
  stage_method[OF safe_execStream kept_execStream] stage_method[OF safe_isPortReady kept_isPortReady]
  stage_method[OF safe_reads(1) kept_reads(1)] stage_method[OF safe_listFiles kept_listFiles]
  stage_method[OF safe_writeFiles kept_writeFiles] stage_method[OF safe_startProcess kept_startProcess]
  stage_method[OF safe_exposePort kept_exposePort] stage_method[OF safe_destroy kept_destroy]

lemma closing_more:
  assumes "closing config before s" and "net_state.more t = net_state.more (s :: 'a smoke_state_scheme)"
    and "log t = log s @ l" and "list_all silent l"
  shows "closing config before t"
  using assms more_fields[OF assms(2)] more_tallied[OF more_fields(4)[OF assms(2)]]
  by (auto simp: closing_def tidy_def quiet_since_def)

lemma closing_talks: "talks silent m \<Longrightarrow> keeps (closing config before) m"
  by (rule keepsI) (auto elim!: talksE intro: closing_more)

lemma stage_talks:
  assumes "talks silent m"
  shows "keeps (in_order config sid before) m"
proof (rule keepsI)
  fix s r t assume s: "in_order config sid before s" and run: "m s = (r, t)"
  from run have "this t = this s" by (rule talksE[OF assms]) (rule more_fields(3))
  then show "in_order config sid before t" using s keepsD[OF closing_talks[OF assms] _ run] by (simp add: in_order_def)
qed

lemma talks_process_call:
  "talks silent (process_waitForPort pf pr port options)"
  "talks silent (process_kill pf pr signal)"
  "talks silent (getLogs pf pr)"
  using talks_perform_process[of pr pf "WaitForPort port options"] talks_perform_process[of pr pf "Kill signal"]
  by (auto simp: getLogs_def intro!: talks_bindIO silent_agent agent.talking)

lemmas stage_agent [stage] = talks_process_call[THEN stage_talks] agent.talking[THEN silent_agent, THEN stage_talks]
  talks_sleep[THEN stage_talks]

lemma closing_check: "keeps (closing config before) (check passed what)"
  by (auto simp: check_def keeps_updIO closing_def tidy_def tallied_def quiet_since_def)

lemma stage_check [stage]: "keeps (in_order config sid before) (check passed what)"
  by (auto simp: check_def keeps_updIO in_order_def closing_def tidy_def tallied_def quiet_since_def)

lemma stage_await_exit [stage]: "keeps (in_order config sid before) (await_exit attempts pf agent pid alive')"
proof (induction attempts arbitrary: alive')
  case 0
  then show ?case by (simp add: await_exit.simps)
next
  case (Suc n)
  then show ?case by (subst await_exit.simps) (auto intro!: keeps_bindIO stage)
qed

lemma stage_exec [stage]: "keeps (in_order config sid before) (smoke_exec pf config)"
  unfolding smoke_exec_def by (intro keeps_bindIO stage)

lemma stage_files [stage]: "keeps (in_order config sid before) (smoke_files pf config)"
  unfolding smoke_files_def by (intro keeps_bindIO stage)

lemma stage_process [stage]: "keeps (in_order config sid before) (smoke_process pf config agent)"
  unfolding smoke_process_def Let_def by (intro keeps_bindIO stage)

lemma stage_ports [stage]: "keeps (in_order config sid before) (smoke_ports pf config)"
  unfolding smoke_ports_def by (intro keeps_bindIO stage)

lemma stage_crash [stage]: "keeps (in_order config sid before) (smoke_crash pf config)"
  unfolding smoke_crash_def by (intro keeps_bindIO keeps_catchIO keeps_basic stage)

lemma stage_abandon [stage]: "keeps (in_order config sid before) (smoke_abandon pf config agent stopped)"
  unfolding smoke_abandon_def Let_def by (intro keeps_bindIO keeps_basic stage)

subsection \<open>Getting ready\<close>

definition is_submit :: "request \<Rightarrow> bool" where
  "is_submit req = (case req_body req of Some (SubmitBody _) \<Rightarrow> True | _ \<Rightarrow> False)"

lemma silent_iff: "silent req \<longleftrightarrow> \<not> is_submit req"
  by (auto simp: silent_def is_submit_def split: option.splits request_body.splits)

lemma silent_filter: "list_all silent l \<Longrightarrow> filter is_submit l = []"
  by (simp add: list_all_iff silent_iff filter_empty_conv)

lemma scoped_silent: "list_all (scoped config) l \<Longrightarrow> list_all silent l"
  by (auto simp: list_all_iff scoped_def silent_def)

definition submits_within :: "nat \<Rightarrow> request list \<Rightarrow> request list \<Rightarrow> bool" where
  "submits_within n before after \<longleftrightarrow> (\<exists>l. after = before @ l \<and> length (filter is_submit l) \<le> n)"

lemma submits_quiet: "submits_within n before middle \<Longrightarrow> quiet_since middle t \<Longrightarrow> submits_within n before (log t)"
  by (auto simp: submits_within_def quiet_since_def silent_filter)

lemma submit_log:
  assumes "submit pf config sid spec queue s = (r, t)"
  shows "submits_within 1 (log s) (log t)"
  using assms unfolding submit_def postJson_def
  by (auto simp: submits_within_def io_run elim!: bindIO_eqE dest!: postJsonTo_log)

lemma queue_quiet: "sandbox_queue pf config s = (r, t) \<Longrightarrow> quiet_since (log s) t"
  by (auto simp: quiet_since_def dest!: queue_asks scoped_silent)

lemma ensure_job_submits:
  assumes "\<not> sb_attachOnly (this s)" and "ensure_job pf config s = (r, t)"
  shows "submits_within 1 (log s) (log t)"
proof (cases "sb_job (this s)")
  case None
  obtain r' u where run: "sandbox_submit pf config s = (r', u)" by fastforce
  have "submits_within 1 (log s) (log u)"
    using run unfolding sandbox_submit_def
    by (auto simp: io_run submits_within_def elim!: bindIO_eqE dest!: queue_asks scoped_silent silent_filter
        submit_log[unfolded submits_within_def])
  then show ?thesis
    using assms None run by (auto simp: ensure_job_def io_run set_this_def elim!: bindIO_eqE)
qed (use assms in \<open>auto simp: ensure_job_def io_eval submits_within_def\<close>)

lemma ready_submits:
  assumes "\<not> sb_attachOnly (this s)" and "placements s (sb_id (this s)) = None" and "sandbox_ready pf config s = (r, t)"
  shows "submits_within 1 (log s) (log t)"
proof (cases "sb_channel (this s)")
  case None
  then have "reach pf config s = (r, t)" using assms by (simp add: sandbox_ready_def io_eval)
  then show ?thesis
    unfolding reach_def
  proof (rule bindIO_eqE)
    fix e assume "ensure_job pf config s = (Inl e, t)"
    then show ?thesis by (rule ensure_job_submits[OF assms(1)])
  next
    fix job u assume job: "ensure_job pf config s = (Inr job, u)"
      and rest: "bindIO (waitForRunning pf config job) (\<lambda>pod. bindIO (set_this (\<lambda>b. b\<lparr>sb_pod := Some pod\<rparr>)) (\<lambda>_.
        bindIO (portUrl pf config job (cfg_agentPort config)) (\<lambda>url. connect pf job pod url))) u = (r, t)"
    have known: "settled_job (log u) u" using ensure_job_knows[OF job] by (simp add: settled_job_def)
    have "keeps (settled_job (log u)) (bindIO (waitForRunning pf config job) (\<lambda>pod.
        bindIO (set_this (\<lambda>b. b\<lparr>sb_pod := Some pod\<rparr>)) (\<lambda>_.
        bindIO (portUrl pf config job (cfg_agentPort config)) (\<lambda>url. connect pf job pod url))))"
      by (intro keeps_bindIO kept) simp
    from keepsD[OF this known rest] have "quiet_since (log u) t" by (simp add: settled_job_def quiet_since_def)
    with ensure_job_submits[OF assms(1) job] show ?thesis by (rule submits_quiet)
  qed
qed (use assms in \<open>auto simp: sandbox_ready_def io_eval submits_within_def\<close>)

text \<open>What a run has made of its sandbox when the checks are over.\<close>

lemma smoke_ready_run:
  assumes tidy: "tidy config s" and "tallied s" and "\<not> sb_attachOnly (this s)" and "placements s (sb_id (this s)) = None"
    and run: "smoke_ready pf config s = (r, t)"
  shows "submits_within 1 (log s) (log t)
    \<and> (case r of Inl _ \<Rightarrow> True | Inr _ \<Rightarrow> \<exists>before. submits_within 1 (log s) before \<and> in_order config (sb_id (this s)) before t)"
proof -
  obtain r' u where ready: "sandbox_ready pf config s = (r', u)" by fastforce
  have sent: "submits_within 1 (log s) (log u)" by (rule ready_submits[OF assms(3,4) ready])
  have stays: "stays config s u" using safe_stays[OF safe_ready[OF tidy] stays_start[OF tidy] ready] .
  show ?thesis
  proof (cases r')
    case (Inl e)
    then show ?thesis using run ready sent by (auto simp: smoke_ready_def io_eval)
  next
    case (Inr x)
    have "sb_channel (this u) \<noteq> None"
      using triple_Inr[OF triple_ready[OF tidy] stays_start[OF tidy]] ready Inr by blast
    moreover have "sandbox_ok config (this u)" using stays_tidy[OF stays] by (simp add: tidy_def)
    ultimately have "in_order config (sb_id (this s)) (log u) u"
      using stays assms(2) stays_tallied[OF stays]
      by (auto simp: in_order_def closing_def quiet_since_def stays_tidy stays_id(1) sandbox_ok_def)
    moreover have "keeps (in_order config (sb_id (this s)) (log u)) (bindIO (getIO this) (\<lambda>sb.
       case (sb_channel sb, placement_of sb) of
         (Some agent, Some pod) \<Rightarrow> bindIO (sandbox_queue pf config) (\<lambda>queue. returnIO (agent, queue))
       | _ \<Rightarrow> throwIO (err [js ''ready() returned without a pod''])))"
      by (intro keeps_bindIO keeps_basic) (auto intro!: keeps_bindIO stage split: option.split)
    ultimately have t: "in_order config (sb_id (this s)) (log u) t"
      using run ready Inr unfolding smoke_ready_def by (auto elim!: bindIO_eqE[of "sandbox_ready pf config"] dest: keepsD)
    then have "submits_within 1 (log s) (log t)" by (intro submits_quiet[OF sent]) (simp add: in_order_def closing_def)
    with sent t show ?thesis by (auto split: sum.split)
  qed
qed

lemma smoke_checks_run:
  assumes "tidy config s" and "tallied s" and "\<not> sb_attachOnly (this s)" and "placements s (sb_id (this s)) = None"
    and run: "smoke_checks pf config stopped s = (r, t)"
  shows "submits_within 1 (log s) (log t)
    \<and> (case r of Inl _ \<Rightarrow> True | Inr _ \<Rightarrow> in_order config (sb_id (this s)) (log t) t)"
proof -
  obtain r' u where ready: "smoke_ready pf config s = (r', u)" by fastforce
  note after = smoke_ready_run[OF assms(1-4) ready]
  show ?thesis
  proof (cases r')
    case (Inl e)
    then show ?thesis using run ready after by (auto simp: smoke_checks_def io_eval)
  next
    case (Inr x)
    obtain agent queue where x: "x = (agent, queue)" by (cases x)
    obtain before where w: "submits_within 1 (log s) before" "in_order config (sb_id (this s)) before u"
      using after Inr by auto
    have "keeps (in_order config (sb_id (this s)) before) (bindIO (smoke_exec pf config) (\<lambda>_.
       bindIO (smoke_files pf config) (\<lambda>_. bindIO (smoke_process pf config agent) (\<lambda>_.
       bindIO (smoke_ports pf config) (\<lambda>_. bindIO (smoke_crash pf config) (\<lambda>_.
       bindIO (smoke_abandon pf config agent stopped) (\<lambda>_. returnIO (agent, queue))))))))"
      by (intro keeps_bindIO keeps_basic stage)
    moreover have "bindIO (smoke_exec pf config) (\<lambda>_.
       bindIO (smoke_files pf config) (\<lambda>_. bindIO (smoke_process pf config agent) (\<lambda>_.
       bindIO (smoke_ports pf config) (\<lambda>_. bindIO (smoke_crash pf config) (\<lambda>_.
       bindIO (smoke_abandon pf config agent stopped) (\<lambda>_. returnIO (agent, queue))))))) u = (r, t)"
      using run ready Inr x unfolding smoke_checks_def by (auto elim!: bindIO_eqE[of "smoke_ready pf config"])
    ultimately have t: "in_order config (sb_id (this s)) before t" using w(2) by (blast dest: keepsD)
    then have "submits_within 1 (log s) (log t)" by (intro submits_quiet[OF w(1)]) (simp add: in_order_def closing_def)
    moreover have "in_order config (sb_id (this s)) (log t) t"
      using t by (auto simp: in_order_def closing_def quiet_since_def)
    ultimately show ?thesis by (auto split: sum.split)
  qed
qed

subsection \<open>Tearing down\<close>

text \<open>What an operation that may run out of fuel keeps, when it does not.\<close>

definition keepsF :: "('s \<Rightarrow> bool) \<Rightarrow> ('s, 'r) fueled \<Rightarrow> bool" where
  "keepsF P m \<longleftrightarrow> (\<forall>s r t. P s \<longrightarrow> m s = Some (r, t) \<longrightarrow> P t)"

lemma keepsF_always [simp]: "keepsF P (always m) \<longleftrightarrow> keeps P m"
  by (auto simp: keepsF_def keeps_def always_def) (metis prod.collapse)

lemma keepsF_and_then:
  assumes "keepsF P m" and "\<And>x. keepsF P (f x)"
  shows "keepsF P (and_then m f)"
  unfolding keepsF_def
proof (intro allI impI)
  fix s r t assume s: "P s" and run: "and_then m f s = Some (r, t)"
  obtain r' u where m: "m s = Some (r', u)" using run by (cases "m s") (auto simp: and_then_def)
  then have "P u" using assms(1) s by (auto simp: keepsF_def)
  then show "P t" using run m assms(2) by (cases r') (auto simp: and_then_def keepsF_def)
qed

lemma closing_list: "keepsF (closing config before) (smoke_list fuel pf config)"
  unfolding keepsF_def
proof (intro allI impI)
  fix s r t assume s: "closing config before s" and run: "smoke_list fuel pf config s = Some (r, t)"
  show "closing config before t"
  proof (cases "cfg_lookoutUrl config")
    case None
    then show ?thesis using s run by (simp add: smoke_list_def provider_listActive_def always_def io_run)
  next
    case (Some lookout)
    obtain r' u jobs where pages: "active_pages fuel pf config lookout 0 [] s = Some (r', u)"
      and t: "t = u \<or> t = remember_all jobs u"
      using run Some
      by (auto simp: smoke_list_def provider_listActive_def client_listActive_def split: option.splits sum.splits prod.splits)
    obtain l where l: "log u = log s @ l" "list_all (scoped config) l" "net_state.more u = net_state.more s"
      using active_pages_scoped[OF pages] by blast
    have u: "closing config before u" using closing_more[OF s l(3,1)] scoped_silent[OF l(2)] by simp
    have "world.more (remember_all jobs u) = world.more u" "log (remember_all jobs u) = log u"
      "placements (remember_all jobs u) = placements u"
      using remember_all_fields[of jobs u] by simp_all
    then have "this (remember_all jobs u) = this u" "sandbox_state.more (remember_all jobs u) = sandbox_state.more u"
      by (cases u; cases "remember_all jobs u"; simp)+
    then have "closing config before (remember_all jobs u)"
      using u remember_all_fields[of jobs u] more_tallied[of "remember_all jobs u" u]
      by (simp add: closing_def tidy_def quiet_since_def)
    with t u show ?thesis by auto
  qed
qed

lemma keeps_quiet:
  "talks silent m \<Longrightarrow> keeps (quiet_since before) m"
  "keeps (quiet_since before) (sandbox_queue pf config)"
  "keeps (quiet_since before) (place sid p)"
  "keeps (quiet_since before) (forget sid)"
  "keeps (quiet_since before) (set_this f)"
proof -
  show "keeps (quiet_since before) m" if "talks silent m" for m
    by (rule keepsI) (auto simp: quiet_since_def elim!: talksE[OF that])
  show "keeps (quiet_since before) (sandbox_queue pf config)"
    by (rule keepsI) (auto simp: quiet_since_def dest!: queue_quiet)
qed (simp_all add: place_def forget_def set_this_def keeps_updIO quiet_since_def)

lemmas quiet_client = client.talking[where fine = "\<lambda>_. False", THEN silent_armada]

lemma closing_destroy: "keeps (closing config before) (destroy pf config)"
proof (rule keepsI)
  fix s r t assume s: "closing config before s" and run: "destroy pf config s = (r, t)"
  have tidy: "tidy config s" using s by (simp add: closing_def)
  have stays: "stays config s t" using safe_stays[OF safe_destroy stays_start[OF tidy] run] .
  have "keeps (quiet_since before) (destroy pf config)"
    unfolding destroy_def
    by (intro keeps_bindIO keeps_basic keeps_quiet(3-5))
      (auto intro!: keeps_bindIO keeps_quiet(2) keeps_quiet(1)[OF quiet_client(3)] keeps_quiet(1)[OF quiet_client(4)]
        split: option.split)
  then show "closing config before t"
    using s run stays stays_tallied[OF stays] by (auto simp: closing_def stays_tidy dest: keepsD)
qed

lemma closing_restart: "keepsF (closing config before) (smoke_restart fuel pf config sid queue)"
proof -
  have gone: "keepsF (closing config before) (await_gone n fuel pf config sid gone)" for n gone
  proof (induction n arbitrary: gone)
    case (Suc n)
    then show ?case
      by (subst await_gone.simps)
        (auto intro!: keepsF_and_then closing_list closing_talks)
  qed (simp add: await_gone.simps)
  have "keeps (closing config before) fresh_provider"
    by (auto simp: fresh_provider_def keeps_updIO closing_def tidy_def placements_ok_def tallied_def quiet_since_def)
  moreover have "keeps (closing config before) (fresh_create config sid)"
    by (auto simp: fresh_create_def set_this_def keeps_updIO closing_def tidy_def provider_create_def new_sandbox_ok
        tallied_def quiet_since_def)
  ultimately show ?thesis
    unfolding smoke_restart_def
    by (intro keepsF_and_then closing_list gone)
      (simp_all add: closing_talks[OF quiet_client(6)] closing_check closing_destroy)
qed

lemma destroy_in_order:
  assumes "in_order config sid before s" and "destroy pf config s = (Inr x, t)"
  shows "\<exists>req (job :: SubmittedJob). log t = log s @ [req] \<and> job_setId job = sid \<and> req_body req = Some (CancelBody
     \<lparr>cancel_queue = job_queue job, cancel_jobSetId = job_setId job, cancel_jobId = Some (job_id job)\<rparr>)"
proof -
  obtain job where job: "sb_job (this s) = Some job" using assms(1) by (auto simp: in_order_def)
  have "job_setId job = sid"
    using assms(1) job by (auto simp: in_order_def closing_def tidy_def sandbox_ok_def)
  moreover obtain v u where cancelled: "cancel pf config job s = (Inr v, u)" and "log t = log u"
    using assms(2) job unfolding destroy_def by (auto simp: io_eval forget_def place_def set_this_def split: prod.splits sum.splits)
  moreover obtain req where "log u = log s @ [req]" "req_body req = Some (CancelBody
     \<lparr>cancel_queue = job_queue job, cancel_jobSetId = job_setId job, cancel_jobId = Some (job_id job)\<rparr>)"
    using cancel_log(1)[OF cancelled] by blast
  ultimately show ?thesis by (intro exI[of _ req] exI[of _ job]) simp
qed

text \<open>Before anything is asked, the sandbox is fresh.\<close>

lemma smoke_sandbox_fresh:
  "tidy config (smoke_sandbox config owner s)" "tallied (smoke_sandbox config owner s)"
  "\<not> sb_attachOnly (this (smoke_sandbox config owner s))"
  "placements (smoke_sandbox config owner s) sid = None"
  "sb_id (this (smoke_sandbox config owner s)) = smoke_id (clock s)" "log (smoke_sandbox config owner s) = log s"
  by (simp_all add: smoke_sandbox_def tidy_def placements_ok_def new_sandbox_ok tallied_def)
    (simp_all add: new_sandbox_def)

lemma smoke_end_run:
  assumes order: "in_order config sid (log u) u"
    and run: "smoke_end fuel pf config owner keep sid queue u = rt"
  shows "case rt of
     None \<Rightarrow> owner \<noteq> None \<and> \<not> keep
   | Some (r, t) \<Rightarrow> quiet_since (log u) t \<and> tallied t \<and> (if keep \<or> fails r then True else case owner of
       Some _ \<Rightarrow> True
     | None \<Rightarrow> \<exists>job :: SubmittedJob. job_setId job = sid \<and> req_body (last (log t)) = Some (CancelBody
         \<lparr>cancel_queue = job_queue job, cancel_jobSetId = job_setId job, cancel_jobId = Some (job_id job)\<rparr>))"
proof (cases rt)
  case None
  then show ?thesis using run by (auto simp: smoke_end_def always_def split: if_splits)
next
  case (Some x)
  obtain r t where x: "x = (r, t)" by (cases x)
  have "keepsF (closing config (log u)) (smoke_end fuel pf config owner keep sid queue)"
    by (simp add: smoke_end_def closing_destroy closing_restart)
  then have "closing config (log u) t" using order run Some x by (auto simp: keepsF_def in_order_def)
  moreover have "\<exists>job :: SubmittedJob. job_setId job = sid \<and> req_body (last (log t)) = Some (CancelBody
      \<lparr>cancel_queue = job_queue job, cancel_jobSetId = job_setId job, cancel_jobId = Some (job_id job)\<rparr>)"
    if "r = Inr ()" "\<not> keep" "owner = None"
    using destroy_in_order[OF order] run Some x that by (fastforce simp: smoke_end_def always_def)
  ultimately show ?thesis using Some x by (cases r) (auto simp: closing_def split: option.split)
qed

text \<open>C40: A smoke run leaves nothing behind that it does not say: however it goes, it makes at most one submission, and only
  its enumeration with an owner can go on for longer than its fuel.  One that comes to its end counts exactly the checks that failed, ends with
  status 0 exactly when none did, and, unless asked to keep the job or run with an owner, its last request
  cancels the job of the sandbox it made.\<close>

theorem smoke_accounts:
  "case smoke fuel h env args pf stopped s of
     None \<Rightarrow> smoke_owner env \<noteq> None \<and> js ''--keep'' \<notin> set args
   | Some (r, t) \<Rightarrow> submits_within 1 (log s) (log t)
       \<and> (case r of
            Inl _ \<Rightarrow> True
          | Inr _ \<Rightarrow> failures t = length (filter (\<lambda>c. \<not> fst c) (checks t)) \<and> exitCode t = (if failures t = 0 then 0 else 1)
              \<and> (if js ''--keep'' \<in> set args then True
                 else case smoke_owner env of
                   Some _ \<Rightarrow> True
                 | None \<Rightarrow> \<exists>job :: SubmittedJob. job_setId job = smoke_id (clock s) \<and> req_body (last (log t)) = Some (CancelBody
                     \<lparr>cancel_queue = job_queue job, cancel_jobSetId = job_setId job, cancel_jobId = Some (job_id job)\<rparr>)))"
proof (cases "readConfig h (smoke_env env) None")
  case (Inr config)
  let ?owner = "smoke_owner env" and ?keep = "js ''--keep'' \<in> set args" and ?id = "smoke_id (clock s)"
  show ?thesis
  proof (cases "?owner \<noteq> None \<and> cfg_lookoutUrl config = None")
    case False
    let ?s = "smoke_sandbox config ?owner s"
    obtain r u where checks: "smoke_checks pf config stopped ?s = (r, u)" by fastforce
    note fresh = smoke_sandbox_fresh[of config ?owner s]
    have after: "submits_within 1 (log s) (log u) \<and> (case r of Inl _ \<Rightarrow> True | Inr _ \<Rightarrow> in_order config ?id (log u) u)"
      using smoke_checks_run[OF fresh(1-3) fresh(4) checks] unfolding fresh(5,6) .
    have run: "smoke fuel h env args pf stopped s = (case r of Inl e \<Rightarrow> Some (Inl e, u)
      | Inr (agent, queue) \<Rightarrow> smoke_end fuel pf config ?owner ?keep ?id queue u)"
      using Inr False checks by (auto simp: smoke_def Let_def and_then_def always_def split: sum.split)
    show ?thesis
    proof (cases r)
      case r: (Inr x)
      obtain agent queue where x: "x = (agent, queue)" by (cases x)
      obtain rt where rt: "smoke_end fuel pf config ?owner ?keep ?id queue u = rt" by blast
      have "in_order config ?id (log u) u" using after r by simp
      note ended = smoke_end_run[OF this rt]
      show ?thesis
      proof (cases rt)
        case None
        then show ?thesis using run r x rt ended by simp
      next
        case (Some y)
        obtain r' t where y: "y = (r', t)" by (cases y)
        have t: "quiet_since (log u) t" "tallied t" using ended Some y by simp_all
        have "submits_within 1 (log s) (log t)" using submits_quiet[OF conjunct1[OF after] t(1)] .
        then show ?thesis
          using run r x rt Some y ended t(2) by (cases r') (simp_all add: tallied_def comp_def)
      qed
    qed (use after run in simp)
  qed (use Inr in \<open>simp add: smoke_def submits_within_def\<close>)
qed (simp add: smoke_def submits_within_def)

end
