(* ===== verification/Wire.thy ===== *)
theory Wire
  imports ApiContract
begin

section \<open>What goes over the wire\<close>

text \<open>
  The JSON that \<open>JSON.stringify\<close> makes of the request bodies the Armada client builds, member by member in the order
  of the object literals in \<open>src/armada.ts\<close> and \<open>src/podspec.ts\<close>, an undefined member being left out; and
  what it means for such a body to fit the table of the API contract check, or the specification that
  the check reads.
\<close>

subsection \<open>Rendering\<close>

definition present :: "string \<Rightarrow> json option \<Rightarrow> json obj" where
  "present key value = (case value of None \<Rightarrow> [] | Some v \<Rightarrow> [(js key, v)])"

definition strings_json :: "jsstring list \<Rightarrow> json" where
  "strings_json ss = JArr (map JStr ss)"

definition map_json :: "jsstring obj \<Rightarrow> json" where
  "map_json m = JObj (map (map_prod id JStr) m)"

definition int_json :: "int \<Rightarrow> json" where
  "int_json i = JNum (of_whole i)"

definition resources_json :: "V1ResourceRequirements \<Rightarrow> json" where
  "resources_json r = JObj [(js ''requests'', map_json (requests r)), (js ''limits'', map_json (limits r))]"

definition container_json :: "V1Container \<Rightarrow> json" where
  "container_json c =
     JObj ([(js ''name'', JStr (ctr_name c)), (js ''image'', JStr (ctr_image c)), (js ''command'', strings_json (ctr_command c))]
       @ present ''env'' (map_option (\<lambda>es. JArr (map (\<lambda>e.
           JObj [(js ''name'', JStr (ev_name e)), (js ''value'', JStr (ev_value e))]) es)) (ctr_env c))
       @ present ''ports'' (map_option (\<lambda>ps. JArr (map (\<lambda>p.
           JObj [(js ''containerPort'', int_json (containerPort p)), (js ''protocol'', JStr (protocol p))]) ps)) (ctr_ports c))
       @ [(js ''resources'', resources_json (ctr_resources c)),
          (js ''volumeMounts'', JArr (map (\<lambda>m.
             JObj [(js ''name'', JStr (vm_name m)), (js ''mountPath'', JStr (mountPath m))]) (ctr_volumeMounts c)))])"

definition security_json :: "V1PodSecurityContext \<Rightarrow> json" where
  "security_json c =
     JObj (present ''runAsUser'' (map_option int_json (sc_runAsUser c))
       @ present ''runAsGroup'' (map_option int_json (sc_runAsGroup c))
       @ present ''fsGroup'' (map_option int_json (sc_fsGroup c)))"

definition pod_json :: "V1PodSpec \<Rightarrow> json" where
  "pod_json p =
     JObj ([(js ''restartPolicy'', JStr (restartPolicy p)),
        (js ''terminationGracePeriodSeconds'', int_json (terminationGracePeriodSeconds p)),
        (js ''activeDeadlineSeconds'', JNum (activeDeadlineSeconds p))]
       @ present ''priorityClassName'' (map_option JStr (priorityClassName p))
       @ present ''nodeSelector'' (map_option map_json (nodeSelector p))
       @ present ''imagePullSecrets'' (map_option (\<lambda>ns. JArr (map (\<lambda>n. JObj [(js ''name'', JStr n)]) ns)) (pod_imagePullSecrets p))
       @ present ''securityContext'' (map_option security_json (pod_securityContext p))
       @ [(js ''volumes'', JArr (map (\<lambda>n. JObj [(js ''name'', JStr n), (js ''emptyDir'', JObj [])]) (emptyDir_volumes p))),
          (js ''initContainers'', JArr (map container_json (initContainers p))),
          (js ''containers'', JArr (map container_json (containers p)))])"

definition ingress_json :: "IngressConfig \<Rightarrow> json" where
  "ingress_json i =
     JObj ([(js ''ports'', JArr (map int_json (ing_ports i))), (js ''tlsEnabled'', JBool (tlsEnabled i))]
       @ present ''certName'' (map_option JStr (certName i))
       @ [(js ''useClusterIP'', JBool (useClusterIP i))]
       @ present ''annotations'' (map_option map_json (ing_annotations i)))"

primrec service_type_text :: "service_type \<Rightarrow> jsstring" where
  "service_type_text ServiceNodePort = js ''NodePort''"
| "service_type_text ServiceHeadless = js ''Headless''"

definition service_json :: "ServiceConfig \<Rightarrow> json" where
  "service_json s =
     JObj [(js ''type'', JStr (service_type_text (svc_type s))), (js ''ports'', JArr (map int_json (svc_ports s)))]"

definition item_json :: "JobSubmitRequestItem \<Rightarrow> json" where
  "item_json i =
     JObj ([(js ''clientId'', JStr (clientId i)), (js ''externalJobUri'', JStr (externalJobUri i)),
        (js ''namespace'', JStr (item_namespace i)), (js ''podSpec'', pod_json (podSpec i))]
       @ present ''labels'' (map_option map_json (labels i))
       @ [(js ''annotations'', map_json (annotations i))]
       @ present ''ingress'' (map_option (\<lambda>xs. JArr (map ingress_json xs)) (item_ingress i))
       @ present ''services'' (map_option (\<lambda>xs. JArr (map service_json xs)) (services i)))"

definition submit_json :: "JobSubmitRequest \<Rightarrow> json" where
  "submit_json r =
     JObj [(js ''queue'', JStr (sub_queue r)), (js ''jobSetId'', JStr (sub_jobSetId r)),
       (js ''jobRequestItems'', JArr (map item_json (jobRequestItems r)))]"

definition job_set_json :: "JobSetRequest \<Rightarrow> json" where
  "job_set_json r =
     JObj [(js ''queue'', JStr (set_queue r)), (js ''id'', JStr (set_id r)), (js ''watch'', JBool (watch r)),
       (js ''errorIfMissing'', JBool (errorIfMissing r))]"

definition cancel_json :: "JobCancelRequest \<Rightarrow> json" where
  "cancel_json r =
     JObj ([(js ''queue'', JStr (cancel_queue r)), (js ''jobSetId'', JStr (cancel_jobSetId r))]
       @ present ''jobId'' (map_option JStr (cancel_jobId r)))"

definition status_json :: "JobStatusUsingExternalJobUriRequest \<Rightarrow> json" where
  "status_json r =
     JObj [(js ''queue'', JStr (status_queue r)), (js ''jobset'', JStr (status_jobset r)),
       (js ''externalJobUri'', JStr (status_externalJobUri r))]"

definition filter_json :: "LookoutFilter \<Rightarrow> json" where
  "filter_json f =
     JObj ([(js ''field'', JStr (flt_field f)),
        (js ''value'', case flt_value f of OneValue v \<Rightarrow> JStr v | AnyValue vs \<Rightarrow> strings_json vs),
        (js ''match'', JStr (case flt_match f of MatchExact \<Rightarrow> js ''exact'' | MatchAnyOf \<Rightarrow> js ''anyOf''))]
       @ present ''isAnnotation'' (if isAnnotation f then Some (JBool True) else None))"

definition jobs_json :: "LookoutGetJobsRequest \<Rightarrow> json" where
  "jobs_json r =
     JObj [(js ''filters'', JArr (map filter_json (filters r))),
       (js ''order'', JObj [(js ''field'', JStr (ord_field (order r))),
          (js ''direction'', JStr (case ord_direction (order r) of ASC \<Rightarrow> js ''ASC'' | DESC \<Rightarrow> js ''DESC''))]),
       (js ''skip'', int_json (int (jobs_skip r))), (js ''take'', int_json (int (jobs_take r)))]"

text \<open>The JSON bodies, those for the agent included; a file's content goes as it is.\<close>

definition body_json :: "request_body \<Rightarrow> json option" where
  "body_json b =
     (case b of
        SubmitBody r \<Rightarrow> Some (submit_json r)
      | JobSetBody r \<Rightarrow> Some (job_set_json r)
      | CancelBody r \<Rightarrow> Some (cancel_json r)
      | StatusBody r \<Rightarrow> Some (status_json r)
      | JobsBody r \<Rightarrow> Some (jobs_json r)
      | JsonBody v \<Rightarrow> Some v
      | TextBody _ \<Rightarrow> None
      | BytesBody _ \<Rightarrow> None)"

subsection \<open>Typing\<close>

text \<open>A value has a field's type as proto3 JSON writes it: a reference is a message or a member of an enumeration.\<close>

primrec has_type :: "json \<Rightarrow> field_type \<Rightarrow> bool" where
  "has_type JNull t = False"
| "has_type (JBool b) t = (t = TBoolean)"
| "has_type (JNum n) t = (t = TNumber \<or> t = TInteger \<and> isInteger n)"
| "has_type (JStr s) t = (t = TString \<or> t = TRef)"
| "has_type (JArr vs) t = (t = TArray)"
| "has_type (JObj ms) t = (t = TObject \<or> t = TRef)"

text \<open>By a specification: every member is a property of the definition, at a type its value has.\<close>

definition fits_spec :: "json \<Rightarrow> string \<Rightarrow> json \<Rightarrow> bool" where
  "fits_spec doc name v \<longleftrightarrow> (\<exists>ms schema. v = JObj ms \<and> json_at (definitions_of doc) (js name) = Some schema
     \<and> (\<forall>(k, x) \<in> set ms. \<exists>property t. property_of schema k = Some property \<and> actualType property = field_text t \<and> has_type x t))"

definition item_fits :: "json \<Rightarrow> JobSubmitRequestItem \<Rightarrow> bool" where
  "item_fits doc i \<longleftrightarrow> fits_spec doc ''apiJobSubmitRequestItem'' (item_json i)
     \<and> (\<forall>x \<in> set (or_else (item_ingress i) []). fits_spec doc ''apiIngressConfig'' (ingress_json x))
     \<and> (\<forall>x \<in> set (or_else (services i) []). fits_spec doc ''apiServiceConfig'' (service_json x)
          \<and> Some (service_type_text (svc_type x)) \<in> set (enum_of doc (js ''apiServiceType'')))"

definition body_fits :: "json \<Rightarrow> request_body \<Rightarrow> bool" where
  "body_fits doc b =
     (case b of
        SubmitBody r \<Rightarrow> fits_spec doc ''apiJobSubmitRequest'' (submit_json r) \<and> list_all (item_fits doc) (jobRequestItems r)
      | JobSetBody r \<Rightarrow> fits_spec doc ''apiJobSetRequest'' (job_set_json r)
      | CancelBody r \<Rightarrow> fits_spec doc ''apiJobCancelRequest'' (cancel_json r)
      | StatusBody r \<Rightarrow> fits_spec doc ''apiJobStatusUsingExternalJobUriRequest'' (status_json r)
      | _ \<Rightarrow> True)"

text \<open>By the table: the step from the one to the other is what the check grants.\<close>

definition typed :: "string \<Rightarrow> json \<Rightarrow> bool" where
  "typed name v \<longleftrightarrow> (\<exists>ms members. v = JObj ms \<and> obj_get CONTRACT (js name) = Some members
     \<and> list_all (\<lambda>(k, x). \<exists>t. obj_get members k = Some t \<and> has_type x t) ms)"

lemma typed_spec:
  assumes "contract_holds doc lookout" and "typed name v"
  shows "fits_spec doc name v"
proof -
  obtain ms members where v: "v = JObj ms" and m: "obj_get CONTRACT (js name) = Some members"
    and ms: "list_all (\<lambda>(k, x). \<exists>t. obj_get members k = Some t \<and> has_type x t) ms"
    using assms(2) by (auto simp: typed_def)
  have "(js name, members) \<in> set CONTRACT" using m unfolding obj_get_def by (rule map_of_SomeD)
  then obtain schema where schema: "json_at (definitions_of doc) (js name) = Some schema"
    and declared: "\<And>f. f \<in> set members \<Longrightarrow> declares schema f"
    using assms(1) unfolding contract_holds_def by fast
  have "\<exists>property t. property_of schema k = Some property \<and> actualType property = field_text t \<and> has_type x t"
    if kx: "(k, x) \<in> set ms" for k x
  proof -
    obtain t where "obj_get members k = Some t" "has_type x t" using ms kx by (auto simp: list_all_iff)
    then show ?thesis using declared[of "(k, t)"] by (auto simp: declares_def obj_get_def dest: map_of_SomeD)
  qed
  then show ?thesis using v schema by (auto simp: fits_spec_def)
qed

lemma list_all_present [simp]: "list_all P (present key value) \<longleftrightarrow> (case value of None \<Rightarrow> True | Some v \<Rightarrow> P (js key, v))"
  by (simp add: present_def split: option.split)

lemma has_type_map [simp]: "has_type (map_json m) t \<longleftrightarrow> t = TObject \<or> t = TRef"
  by (simp add: map_json_def)

lemma has_type_pod [simp]: "has_type (pod_json p) t \<longleftrightarrow> t = TObject \<or> t = TRef"
  by (simp add: pod_json_def)

lemma typed_bodies:
  "typed ''apiJobSubmitRequest'' (submit_json r)"
  "typed ''apiJobSubmitRequestItem'' (item_json i)"
  "typed ''apiIngressConfig'' (ingress_json x)"
  "typed ''apiServiceConfig'' (service_json y)"
  "typed ''apiJobSetRequest'' (job_set_json s)"
  "typed ''apiJobCancelRequest'' (cancel_json c)"
  "typed ''apiJobStatusUsingExternalJobUriRequest'' (status_json u)"
  by (simp_all add: typed_def submit_json_def item_json_def ingress_json_def service_json_def job_set_json_def cancel_json_def
      status_json_def CONTRACT_def split: option.split)

lemma service_listed: "contract_holds doc lookout \<Longrightarrow> Some (service_type_text t) \<in> set (enum_of doc (js ''apiServiceType''))"
  by (cases t) (auto simp: contract_holds_def ENUMS_def)

subsection \<open>Every body fits\<close>

text \<open>C21: A body the adapter posts to Armada is well typed by the specification whenever the check passes on it: every member
  the client writes, in the request and in its items, ingresses and services, is declared there, at a type
  its value has, and the service type is a member of its enumeration.\<close>

theorem bodies_fit_spec:
  assumes "problems doc lookoutUrl lookout = []"
  shows "body_fits doc b"
proof -
  have ok: "contract_holds doc lookout" using assms by (simp add: problems_Nil)
  have "item_fits doc i" for i
    using typed_bodies[THEN typed_spec[OF ok]] service_listed[OF ok] by (simp add: item_fits_def)
  then show ?thesis
    using typed_bodies[THEN typed_spec[OF ok]] by (auto simp: body_fits_def list_all_iff split: request_body.split)
qed

definition schema_of :: "field_type obj \<Rightarrow> json" where
  "schema_of members = JObj [(js ''properties'', JObj (map (\<lambda>(k, t).
     (k, if t = TRef then JObj [(js ''$ref'', JNull)] else JObj [(js ''type'', JStr (field_text t))])) members))]"

definition pinned_spec :: json where
  "pinned_spec = JObj
     [(js ''paths'', JObj (map (\<lambda>(path, verb). (path, JObj [(verb, JObj [])])) ENDPOINTS)),
      (js ''definitions'', JObj (map (\<lambda>(name, members). (name, schema_of members)) CONTRACT
        @ map (\<lambda>(name, members). (name, JObj [(js ''enum'', strings_json members)])) ENUMS
        @ [(js ''apiJobState'', JObj [(js ''enum'', strings_json (map fst JOB_STATES))])]))]"

lemma contains_concat: "\<forall>p \<in> set ps. contains p (concat ps)"
proof
  fix p assume "p \<in> set ps"
  then obtain us vs where "ps = us @ p # vs" by (auto dest: split_list)
  then show "contains p (concat ps)" unfolding contains_iff by (auto intro: exI[of _ "concat us"])
qed

lemma pinned_spec_agrees: "problems pinned_spec lookoutUrl (concat LOOKOUT_TOKENS) = []"
  unfolding problems_Nil contract_holds_def
  by (intro conjI) (simp_all add: pinned_spec_def schema_of_def ENDPOINTS_def CONTRACT_def ENUMS_def JOB_STATES_def operation_def
      definitions_of_def json_at_def arr_at_def str_at_def declares_def property_of_def actualType_def enum_of_def
      strings_json_def value_at_def contains_concat)

lemma bodies_fit_spec_witness:
  "body_fits pinned_spec (CancelBody \<lparr>cancel_queue = js ''q'', cancel_jobSetId = js ''sb'', cancel_jobId = None\<rparr>)"
  by (rule bodies_fit_spec[OF pinned_spec_agrees])

end
