(* ===== verification/Changelog.thy ===== *)
theory Changelog
  imports JsText
begin

section \<open>The changelog reader (\<open>scripts/changelog.ts\<close>)\<close>

text \<open>
  The script the release workflow asks for the newest version and for a version's notes.  The parser is the
  package \<open>keep-a-changelog\<close>: a parameter, which gives the releases newest first, each with its
  version, when it has one, and the text it prints as.
\<close>

record release =
  rel_version :: "jsstring option"
  rel_text :: jsstring

definition line_end :: "nat \<Rightarrow> bool" where
  "line_end c \<longleftrightarrow> c = 10 \<or> c = 13 \<or> c = 8232 \<or> c = 8233"

text \<open>The names \<open>/^## \[([^\]]*)\]/gm\<close> finds, one match after the other: \<open>fresh\<close> says that a line starts here.\<close>

function headings :: "bool \<Rightarrow> jsstring \<Rightarrow> jsstring list" where
  "headings fresh [] = []"
| "headings fresh (c # s) =
     (if fresh \<and> startsWith (js ''## ['') (c # s) \<and> 93 \<in> set (drop 4 (c # s))
      then takeWhile (\<lambda>d. d \<noteq> 93) (drop 4 (c # s)) # headings False (tl (dropWhile (\<lambda>d. d \<noteq> 93) (drop 4 (c # s))))
      else headings (line_end c) s)"
  by pat_completeness auto

termination
proof (relation "measure (length \<circ> snd)", goal_cases)
  case (2 fresh c s)
  have "length (dropWhile (\<lambda>d. d \<noteq> 93) (drop 4 (c # s))) \<le> length (drop 4 (c # s))"
    by (rule length_dropWhile_le)
  then show ?case by (auto simp only: in_measure comp_apply snd_conv length_tl length_drop list.size)
qed simp_all

text \<open>Lower case, as far as a comparison with \<open>unreleased\<close> can tell: no other character becomes one of its letters.\<close>

definition toLowerCase :: "jsstring \<Rightarrow> jsstring" where
  "toLowerCase s = map (\<lambda>c. if 65 \<le> c \<and> c \<le> 90 then c + 32 else c) s"

definition released_of :: "release list \<Rightarrow> release list" where
  "released_of releases = filter (\<lambda>r. rel_version r \<noteq> None) releases"

definition check_heading :: "release list \<Rightarrow> jsstring \<Rightarrow> unit result" where
  "check_heading released name =
     throw_if (toLowerCase name \<noteq> js ''unreleased'' \<and> \<not> list_ex (\<lambda>r. rel_version r = Some name) released)
       (JsError (concat [js ''CHANGELOG.md: ['', name, js ''] is not a semantic version'']))"

text \<open>What the script writes, or the usage line with exit status 2.\<close>

datatype answer = Printed jsstring | Usage

definition notes_of :: "release \<Rightarrow> jsstring" where
  "notes_of r = trim (join [10] (drop 1 (splitOn 10 (rel_text r))))"

definition changelog :: "(jsstring \<Rightarrow> release list result) \<Rightarrow> jsstring \<Rightarrow> jsstring list \<Rightarrow> answer result" where
  "changelog parser txt args =
     bindR (parser txt) (\<lambda>releases.
     let released = released_of releases in
     bindR (each (check_heading released) (headings True txt)) (\<lambda>_.
       (case args of
          command # rest \<Rightarrow>
            if command = js ''version''
            then Inr (Printed (case released of [] \<Rightarrow> [] | r # _ \<Rightarrow> or_else (rel_version r) []))
            else if command = js ''notes'' \<and> rest \<noteq> []
            then (case find (\<lambda>r. rel_version r = Some (hd rest)) released of
                    None \<Rightarrow> Inl (JsError (concat [js ''CHANGELOG.md has no ['', hd rest, js '']'']))
                  | Some r \<Rightarrow> Inr (Printed (notes_of r)))
            else Inr Usage
        | [] \<Rightarrow> Inr Usage)))"

subsection \<open>The headings found\<close>

lemma until_bracket [simp]:
  "93 \<notin> set u \<Longrightarrow> takeWhile (\<lambda>d. d \<noteq> 93) (u @ 93 # v) = u"
  "93 \<notin> set u \<Longrightarrow> dropWhile (\<lambda>d. d \<noteq> 93) (u @ 93 # v) = 93 # v"
  by (induction u) auto

lemma heading_here:
  "93 \<notin> set name \<Longrightarrow> headings True (js ''## ['' @ name @ 93 # post) = name # headings False post"
  by (simp add: js_def startsWith_def)

text \<open>A heading on a line of its own is found, or stands inside one that an unclosed bracket before it opened.\<close>

lemma heading_found:
  assumes "93 \<notin> set name"
  shows "(if pre = [] then fresh else line_end (last pre)) \<Longrightarrow>
    \<exists>h \<in> set (headings fresh (pre @ js ''## ['' @ name @ 93 # post)). h = name \<or> 91 \<in> set h"
proof (induction pre arbitrary: fresh rule: length_induct)
  case (1 pre)
  show ?case
  proof (cases pre)
    case Nil
    then show ?thesis using 1 assms by (simp add: heading_here)
  next
    case (Cons c p)
    let ?t = "js ''## ['' @ name @ 93 # post"
    have stop: "line_end (last pre)" using 1 Cons by simp
    show ?thesis
    proof (cases "fresh \<and> startsWith (js ''## ['') (pre @ ?t)")
      case True
      have "\<not> length pre \<le> 4"
      proof
        assume short: "length pre \<le> 4"
        have whole: "take (length pre) (take 4 (pre @ ?t)) = pre" using short by simp
        have found: "take 4 (pre @ ?t) = js ''## [''" using True by (simp add: startsWith_def eval_nat_numeral)
        have "set pre \<subseteq> set (js ''## ['')"
          using whole set_take_subset[of "length pre" "js ''## [''"] unfolding found by simp
        moreover have "last pre \<in> set pre" using Cons by simp
        ultimately have "last pre \<in> set (js ''## ['')" by blast
        then show False using stop by (auto simp: line_end_def js_def)
      qed
      then have cut: "drop 4 (pre @ ?t) = drop 4 pre @ ?t" "drop 4 pre \<noteq> []" "last (drop 4 pre) = last pre"
        by simp_all
      show ?thesis
      proof (cases "93 \<in> set (drop 4 pre)")
        case inside: True
        then obtain u v where uv: "drop 4 pre = u @ 93 # v" "93 \<notin> set u"
          by (meson split_list_first)
        have "v \<noteq> []" using uv cut stop by (auto simp: line_end_def)
        moreover have "last v = last pre" using uv cut \<open>v \<noteq> []\<close> by auto
        moreover have "length v < length pre"
          using arg_cong[OF uv(1), of length] by simp
        ultimately have "\<exists>h \<in> set (headings False (v @ ?t)). h = name \<or> 91 \<in> set h"
          using 1 stop by auto
        moreover have "headings fresh (pre @ ?t) = u # headings False (v @ ?t)"
          using True Cons cut uv by simp
        ultimately show ?thesis by auto
      next
        case outside: False
        have "headings fresh (pre @ ?t) = (drop 4 pre @ js ''## ['' @ name) # headings False post"
          using True Cons cut outside assms until_bracket[of "drop 4 pre @ js ''## ['' @ name" post] by (simp add: js_def)
        then show ?thesis by (auto simp: js_def)
      qed
    next
      case False
      have "\<exists>h \<in> set (headings (line_end c) (p @ ?t)). h = name \<or> 91 \<in> set h"
        using 1 Cons by (auto split: if_splits)
      then show ?thesis using False Cons by auto
    qed
  qed
qed

subsection \<open>Properties\<close>

definition bracketed :: "jsstring \<Rightarrow> jsstring \<Rightarrow> bool" where
  "bracketed txt name \<longleftrightarrow> 93 \<notin> set name \<and> (\<exists>before after. txt = before @ js ''## ['' @ name @ 93 # after
     \<and> (before = [] \<or> line_end (last before)))"

lemma each_fails: "x \<in> set xs \<Longrightarrow> fails (f x) \<Longrightarrow> fails (each f xs)"
  using not_fails_iff[of "each f xs"] by auto

lemma newest: "filter P xs = x # ys \<Longrightarrow> find P xs = Some x"
  by (induction xs) (auto split: if_splits)

lemma changelog_checked:
  "changelog parser txt args = Inr a \<Longrightarrow> \<exists>releases. parser txt = Inr releases
     \<and> each (check_heading (released_of releases)) (headings True txt) = Inr ()"
  by (auto simp: changelog_def bindR_def Let_def split: sum.splits)

lemma bindR_fails: "fails m \<or> (\<forall>x. m = Inr x \<longrightarrow> fails (f x)) \<Longrightarrow> fails (bindR m f)"
  by (auto simp: bindR_def fails_def split: sum.splits)

text \<open>Note: A typo in a version heading is never skipped: when a line of the changelog opens with a bracketed name that is
  neither \<open>Unreleased\<close>, in whatever case, nor the version of a release the parser found, every command
  of the script fails.  A version has no opening bracket, as semantic versioning says.\<close>

theorem typo_never_skipped:
  assumes "bracketed txt name" and "toLowerCase name \<noteq> js ''unreleased''"
    and "\<And>releases. parser txt = Inr releases \<Longrightarrow> Some name \<notin> rel_version ` set releases"
    and semver: "\<And>releases r v. parser txt = Inr releases \<Longrightarrow> r \<in> set releases \<Longrightarrow> rel_version r = Some v \<Longrightarrow> 91 \<notin> set v"
  shows "fails (changelog parser txt args)"
proof -
  obtain h where h: "h \<in> set (headings True txt)" "h = name \<or> 91 \<in> set h"
    using assms(1) heading_found[of name] unfolding bracketed_def by (metis (full_types))
  have unnamed: "toLowerCase h \<noteq> js ''unreleased''"
  proof
    assume lower: "toLowerCase h = js ''unreleased''"
    have "91 \<in> set h \<Longrightarrow> 91 \<in> set (toLowerCase h)" by (force simp: toLowerCase_def)
    then show False using h(2) assms(2) lower by (auto simp: js_def)
  qed
  have "fails (each (check_heading (released_of releases)) (headings True txt))" if "parser txt = Inr releases" for releases
  proof (rule each_fails[OF h(1)])
    have "\<not> list_ex (\<lambda>r. rel_version r = Some h) (released_of releases)"
      using h(2) assms(3) semver that by (auto simp: released_of_def list_ex_iff image_iff)
    then show "fails (check_heading (released_of releases) h)"
      using unnamed by (simp add: check_heading_def throw_if_def)
  qed
  then show ?thesis unfolding changelog_def Let_def by (intro bindR_fails) (auto intro: bindR_fails)
qed

definition demo_changes :: jsstring where
  "demo_changes = js ''## [Unreleased]'' @ [10] @ js ''## [0.2] - 2026-10-13'' @ [10] @ js ''text''"

definition demo_parser :: "jsstring \<Rightarrow> release list result" where
  "demo_parser txt = Inr [\<lparr>rel_version = None, rel_text = js ''## [Unreleased]''\<rparr>]"

lemma typo_never_skipped_witness: "fails (changelog demo_parser demo_changes [js ''version''])"
proof (rule typo_never_skipped[where name = "js ''0.2''"])
  have "demo_changes = (js ''## [Unreleased]'' @ [10]) @ js ''## ['' @ js ''0.2'' @ 93 # js '' - 2026-10-13'' @ [10] @ js ''text''"
    by (simp add: demo_changes_def js_def)
  then show "bracketed demo_changes (js ''0.2'')"
    unfolding bracketed_def
    by (intro conjI exI[of _ "js ''## [Unreleased]'' @ [10]"] exI) (assumption | simp add: line_end_def js_def)+
qed (auto simp: demo_parser_def toLowerCase_def js_def)

text \<open>Note: The two commands agree: the version the first one prints, when it prints any, is the newest released version,
  and asking for its notes succeeds with the text of that very release less its heading line.\<close>

theorem notes_of_version:
  assumes "changelog parser txt [js ''version''] = Inr (Printed v)" and "v \<noteq> []"
  shows "\<exists>releases r. parser txt = Inr releases \<and> find (\<lambda>r. rel_version r \<noteq> None) releases = Some r
    \<and> rel_version r = Some v \<and> changelog parser txt [js ''notes'', v] = Inr (Printed (notes_of r))"
proof -
  obtain releases where p: "parser txt = Inr releases"
    and ok: "each (check_heading (released_of releases)) (headings True txt) = Inr ()"
    using changelog_checked[OF assms(1)] by blast
  have "or_else (Option.bind (case released_of releases of [] \<Rightarrow> None | r # _ \<Rightarrow> Some r) rel_version) [] = v"
    using assms(1) p ok by (simp add: changelog_def bindR_def Let_def del: each_Inr split: list.splits)
  then obtain r rs where rs: "released_of releases = r # rs" "rel_version r = Some v"
  proof (cases "released_of releases")
    case (Cons r rs)
    then have "rel_version r \<noteq> None" by (auto simp: released_of_def filter_eq_Cons_iff)
    then show ?thesis using \<open>or_else _ _ = v\<close> Cons that by auto
  qed (use assms(2) in simp)
  then have "find (\<lambda>r. rel_version r \<noteq> None) releases = Some r"
    by (simp add: released_of_def newest)
  moreover have "changelog parser txt [js ''notes'', v] = Inr (Printed (notes_of r))"
    using p ok rs by (simp add: changelog_def bindR_def Let_def del: each_Inr)
  ultimately show ?thesis using p rs by blast
qed

lemma notes_of_version_witness:
  "\<exists>r. changelog (\<lambda>_. Inr [\<lparr>rel_version = Some (js ''0.2''), rel_text = js ''## [0.2]'' @ [10] @ js ''news''\<rparr>])
     demo_changes [js ''notes'', js ''0.2''] = Inr (Printed (notes_of r))"
  using notes_of_version[of "\<lambda>_. Inr [\<lparr>rel_version = Some (js ''0.2''), rel_text = js ''## [0.2]'' @ [10] @ js ''news''\<rparr>]"
      demo_changes "js ''0.2''"]
  by (auto simp: changelog_def bindR_def released_of_def demo_changes_def check_heading_def throw_if_def startsWith_def
      line_end_def toLowerCase_def js_def)

end
