(* ===== verification/JsonText.thy ===== *)
theory JsonText
  imports Ndjson
begin

section \<open>JSON texts read back\<close>

text \<open>
  Both ends of the control channel print JSON: the adapter with \<open>JSON.stringify\<close>, the agent with
  \<open>encoding/json\<close>, which escapes more characters.  A printer differs from another only in how it writes
  the characters of a string; \<open>json_quoting\<close> is what a way of writing them has to satisfy, and
  inside it a printed value is shown to be read back as the value it was, for every value whose
  numbers are whole.  Both printers are interpretations.
\<close>

subsection \<open>A printer, given how strings are written\<close>

primrec print_json :: "(jsstring \<Rightarrow> jsstring) \<Rightarrow> json \<Rightarrow> jsstring" where
  "print_json q JNull = js ''null''"
| "print_json q (JBool b) = (if b then js ''true'' else js ''false'')"
| "print_json q (JNum n) = (if isFinite n then num_String n else js ''null'')"
| "print_json q (JStr s) = 34 # q s @ [34]"
| "print_json q (JArr vs) = 91 # join [44] (map (print_json q) vs) @ [93]"
| "print_json q (JObj ms) =
     123 # join [44] (map (\<lambda>(k, t). (34 # q k @ [34]) @ 58 # t) (map (map_prod id (print_json q)) ms)) @ [125]"

lemma JSON_stringify_print: "JSON_stringify v = print_json quote_units v"
proof (induction v)
  case (JArr vs)
  then have "map JSON_stringify vs = map (print_json quote_units) vs" by simp
  then show ?case by (simp only: JSON_stringify.simps print_json.simps)
next
  case (JObj ms)
  then have "map (map_prod id JSON_stringify) ms = map (map_prod id (print_json quote_units)) ms"
    by (auto simp: snds.simps)
  then show ?case by (simp only: JSON_stringify.simps print_json.simps quote_string_def append_Cons append_assoc)
qed (simp_all add: quote_string_def)

definition unit16 :: "jsstring \<Rightarrow> bool" where
  "unit16 s \<longleftrightarrow> list_all (\<lambda>u. u < 65536) s"

text \<open>The values whose text says what they are: whole numbers, keys that do not repeat.\<close>

fun plain_json :: "json \<Rightarrow> bool" where
  "plain_json (JNum n) \<longleftrightarrow> isInteger n"
| "plain_json (JStr s) \<longleftrightarrow> unit16 s"
| "plain_json (JArr vs) \<longleftrightarrow> list_all plain_json vs"
| "plain_json (JObj ms) \<longleftrightarrow> distinct (map fst ms) \<and> list_all (\<lambda>(k, v). unit16 k \<and> plain_json v) ms"
| "plain_json _ \<longleftrightarrow> True"

subsection \<open>Numbers\<close>

text \<open>What may follow a number without becoming part of it.\<close>

definition number_ends :: "jsstring \<Rightarrow> bool" where
  "number_ends r \<longleftrightarrow> (r = [] \<or> \<not> number_unit (hd r))"

lemma number_ends_simps [simp]: "number_ends []" "number_ends (44 # r)" "number_ends (93 # r)" "number_ends (125 # r)"
  "number_ends (10 # r)"
  by (simp_all add: number_ends_def number_unit_def is_digit_def)

lemma show_nat_lead: "n = 0 \<or> (\<exists>c t. show_nat n = c # t \<and> 49 \<le> c \<and> c \<le> 57)"
proof (induction n rule: show_nat.induct)
  case (1 n)
  show ?case
  proof (cases "n < 10")
    case True
    then show ?thesis by (auto simp: show_nat.simps[of n])
  next
    case False
    with 1 have "n div 10 = 0 \<or> (\<exists>c t. show_nat (n div 10) = c # t \<and> 49 \<le> c \<and> c \<le> 57)" by simp
    moreover have "n div 10 \<noteq> 0" using False by simp
    ultimately show ?thesis using False by (auto simp: show_nat.simps[of n])
  qed
qed

lemma in_digit_class: "in_class [(48, 57)] c \<longleftrightarrow> is_digit c"
  by (auto simp: in_class_def is_digit_def)

lemma show_nat_lang:
  "show_nat n \<in> lang (Alt (One_of [(48, 48)]) (Seq (One_of [(49, 57)]) (Star (One_of [(48, 57)]))))"
proof (cases "n = 0")
  case True
  then show ?thesis by (simp add: show_nat.simps[of 0] in_class_def)
next
  case False
  then obtain c t where ct: "show_nat n = c # t" "49 \<le> c" "c \<le> 57" using show_nat_lead[of n] by blast
  moreover have "\<forall>d \<in> set t. in_class [(48, 57)] d" using show_nat_digits[of n] ct by (simp add: in_digit_class)
  ultimately have "show_nat n \<in> lang (Seq (One_of [(49, 57)]) (Star (One_of [(48, 57)])))"
    unfolding lang_Seq_head lang_Star_class by (simp add: in_class_def)
  then show ?thesis by simp
qed

lemma lang_SeqI: "a \<in> lang r \<Longrightarrow> b \<in> lang q \<Longrightarrow> a @ b \<in> lang (Seq r q)"
  and lang_Opt_Nil: "[] \<in> lang (Opt r)"
  and lang_OptI: "a \<in> lang r \<Longrightarrow> a \<in> lang (Opt r)"
  by auto

lemma number_regex_int: "regex_test number_regex (show_int i)"
proof -
  have whole: "show_nat n \<in> lang (Seq (Alt (One_of [(48, 48)]) (Seq (One_of [(49, 57)]) (Star (One_of [(48, 57)]))))
      (Seq (Opt r) (Opt q)))" for n r q
    using lang_SeqI[OF show_nat_lang[of n] lang_SeqI[OF lang_Opt_Nil[of r] lang_Opt_Nil[of q]]]
    by (simp only: append_Nil2)
  have minus: "[45] \<in> lang (Opt (One_of [(45, 45)]))" by (simp add: in_class_def)
  show ?thesis
    unfolding regex_test_iff number_regex_def show_int_def
    using lang_SeqI[OF minus whole[of "nat (- i)"]] lang_SeqI[OF lang_Opt_Nil whole[of "nat i"]]
    by (simp only: append_Cons append_Nil split: if_split) blast
qed

lemma show_int_units: "c \<in> set (show_int i) \<Longrightarrow> is_digit c \<or> c = 45"
  using show_nat_digits by (auto simp: show_int_def split: if_splits)

lemma show_int_lead: "\<exists>c t. show_int i = c # t \<and> (is_digit c \<or> c = 45)"
  using show_int_units[of _ i] by (cases "show_int i") (auto simp: show_int_def split: if_splits)

lemma read_signed_int: "read_signed (show_int i) = of_whole i"
proof -
  have d: "\<forall>c \<in> set (show_int i). is_digit c \<or> c = 45" using show_int_units by blast
  then have "\<forall>c \<in> set (show_int i). \<not> is_space c" by (auto simp: is_digit_def is_space_def)
  then have "js_Number (show_int i) = read_signed (show_int i)"
    using d show_int_lead[of i] by (auto simp: js_Number_def Let_def no_radix_prefix)
  then show ?thesis by simp
qed

lemma takeWhile_show_int: "number_ends r \<Longrightarrow> takeWhile number_unit (show_int i @ r) = show_int i"
  and dropWhile_show_int: "number_ends r \<Longrightarrow> dropWhile number_unit (show_int i @ r) = r"
proof -
  have all: "\<forall>c \<in> set (show_int i). number_unit c" using show_int_units by (auto simp: number_unit_def)
  then show "number_ends r \<Longrightarrow> takeWhile number_unit (show_int i @ r) = show_int i"
    by (cases r) (auto simp: number_ends_def takeWhile_append)
  from all show "number_ends r \<Longrightarrow> dropWhile number_unit (show_int i @ r) = r"
    by (cases r) (auto simp: number_ends_def dropWhile_append)
qed

lemma read_number_int: "number_ends r \<Longrightarrow> read_number (show_int i @ r) = Some (JNum (of_whole i), r)"
  by (simp add: read_number_def takeWhile_show_int dropWhile_show_int number_regex_int read_signed_int)

lemma read_literal_int: "number_ends r \<Longrightarrow> read_literal (show_int i @ r) = Some (JNum (of_whole i), r)"
  using show_int_lead[of i]
  by (auto simp: read_literal_def startsWith_def js_def is_digit_def read_number_int[of r i])

subsection \<open>Values\<close>

lemma skip_ws_Cons: "\<not> json_space c \<Longrightarrow> skip_ws (c # s) = c # s"
  by (simp add: skip_ws_def)

lemma eat_Cons: "\<not> json_space c \<Longrightarrow> eat d (c # s) = (if c = d then Some s else None)"
  by (simp add: eat_def skip_ws_Cons)

lemma not_json_space [simp]:
  "\<not> json_space 34" "\<not> json_space 44" "\<not> json_space 58" "\<not> json_space 91" "\<not> json_space 93" "\<not> json_space 123"
  "\<not> json_space 125"
  by (simp_all add: json_space_def)

lemma print_number: "isInteger n \<Longrightarrow> \<exists>i. n = of_whole i \<and> print_json q (JNum n) = show_int i"
  by (auto simp: isInteger_def integer_of_Some num_String_whole isFinite_def of_whole_def)
    (metis num_String_whole of_whole_def)

lemma print_json_lead:
  assumes "plain_json v"
  shows "\<exists>c t. print_json q v = c # t \<and> \<not> json_space c \<and> c \<noteq> 93 \<and> c < 128"
proof (cases v)
  case (JNum n)
  with assms obtain i where "print_json q v = show_int i" using print_number[of n q] by auto
  then show ?thesis using show_int_lead[of i] by (auto simp: is_digit_def json_space_def)
qed (simp_all add: js_def json_space_def)

lemma read_word:
  "read_value (Suc n) (js ''true'' @ r) = Some (JBool True, r)"
  "read_value (Suc n) (js ''false'' @ r) = Some (JBool False, r)"
  "read_value (Suc n) (js ''null'' @ r) = Some (JNull, r)"
  by (simp_all add: js_def skip_ws_Cons json_space_def read_literal_def startsWith_def)

locale json_quoting =
  fixes q :: "jsstring \<Rightarrow> jsstring"
  assumes read_back: "unit16 s \<Longrightarrow> read_string (q s @ 34 # r) = Some (s, r)"
begin

lemma read_members_back:
  assumes "\<And>k v r n. (k, v) \<in> set ms \<Longrightarrow> number_ends r \<Longrightarrow> 2 * length (print_json q v @ r) + 2 \<le> n \<Longrightarrow>
      read_value n (print_json q v @ r) = Some (v, r)"
    and "ms \<noteq> []" and "distinct (map fst (acc @ ms))" and "list_all (\<lambda>(k, v). unit16 k) ms"
    and "2 * length (join [44] (map (\<lambda>(k, v). (34 # q k @ [34]) @ 58 # print_json q v) ms) @ 125 # r) + 3 \<le> n"
  shows "read_members n acc (join [44] (map (\<lambda>(k, v). (34 # q k @ [34]) @ 58 # print_json q v) ms) @ 125 # r) =
    Some (JObj (acc @ ms), r)"
  using assms
proof (induction ms arbitrary: acc n)
  case (Cons m ms)
  obtain k v where m: "m = (k, v)" by fastforce
  obtain n' where n: "n = Suc n'" using Cons.prems(5) by (cases n) auto
  have new: "obj_set k v acc = acc @ [(k, v)]" using Cons.prems(3) m by (intro obj_set_new) simp
  have key: "unit16 k" using Cons.prems(4) m by simp
  show ?case
  proof (cases "ms = []")
    case True
    have "read_value n' (print_json q v @ 125 # r) = Some (v, 125 # r)"
      using Cons.prems(1)[of k v "125 # r" n'] Cons.prems(5) m n True by simp
    then show ?thesis using True m n new key by (simp add: eat_Cons read_back)
  next
    case False
    let ?tail = "join [44] (map (\<lambda>(k, v). (34 # q k @ [34]) @ 58 # print_json q v) ms) @ 125 # r"
    have J: "join [44] (map (\<lambda>(k, v). (34 # q k @ [34]) @ 58 # print_json q v) (m # ms)) @ 125 # r =
        34 # q k @ 34 # 58 # print_json q v @ 44 # ?tail"
      using False m by (simp add: join_Cons)
    have "read_value n' (print_json q v @ 44 # ?tail) = Some (v, 44 # ?tail)"
      using Cons.prems(1)[of k v "44 # ?tail" n'] Cons.prems(5) m n unfolding J by simp
    moreover have "read_members n' (acc @ [(k, v)]) ?tail = Some (JObj ((acc @ [(k, v)]) @ ms), r)"
      using Cons.prems m n False unfolding J by (intro Cons.IH) auto
    ultimately show ?thesis using n m new key unfolding J by (simp add: eat_Cons read_back)
  qed
qed simp

lemma read_elements_back:
  assumes "\<And>v r n. v \<in> set vs \<Longrightarrow> number_ends r \<Longrightarrow> 2 * length (print_json q v @ r) + 2 \<le> n \<Longrightarrow>
      read_value n (print_json q v @ r) = Some (v, r)"
    and "vs \<noteq> []"
    and "2 * length (join [44] (map (print_json q) vs) @ 93 # r) + 3 \<le> n"
  shows "read_elements n acc (join [44] (map (print_json q) vs) @ 93 # r) = Some (JArr (acc @ vs), r)"
  using assms
proof (induction vs arbitrary: acc n)
  case (Cons v vs)
  obtain n' where n: "n = Suc n'" using Cons.prems(3) by (cases n) auto
  show ?case
  proof (cases "vs = []")
    case True
    have "read_value n' (print_json q v @ 93 # r) = Some (v, 93 # r)"
      using Cons.prems(1)[of v "93 # r" n'] Cons.prems(3) n True by simp
    then show ?thesis using True n by (simp add: eat_Cons)
  next
    case False
    let ?tail = "join [44] (map (print_json q) vs) @ 93 # r"
    have J: "join [44] (map (print_json q) (v # vs)) @ 93 # r = print_json q v @ 44 # ?tail"
      using False by (simp add: join_Cons)
    have "read_value n' (print_json q v @ 44 # ?tail) = Some (v, 44 # ?tail)"
      using Cons.prems(1)[of v "44 # ?tail" n'] Cons.prems(3) n unfolding J by simp
    moreover have "read_elements n' (acc @ [v]) ?tail = Some (JArr ((acc @ [v]) @ vs), r)"
      using Cons.prems n False unfolding J by (intro Cons.IH) auto
    ultimately show ?thesis using n unfolding J by (simp add: eat_Cons)
  qed
qed simp

lemma read_value_back:
  "plain_json v \<Longrightarrow> number_ends r \<Longrightarrow> 2 * length (print_json q v @ r) + 2 \<le> n \<Longrightarrow>
     read_value n (print_json q v @ r) = Some (v, r)"
proof (induction v arbitrary: r n)
  case (JNum x)
  from JNum(1) obtain i where i: "x = of_whole i" "print_json q (JNum x) = show_int i"
    using print_number[of x q] by auto
  obtain c t where ct: "show_int i = c # t" "is_digit c \<or> c = 45" using show_int_lead by blast
  then have "skip_ws (show_int i @ r) = show_int i @ r" by (auto simp: is_digit_def json_space_def skip_ws_def)
  then show ?case
    using i ct JNum(2,3) read_literal_int[of r i] by (cases n) (auto simp: is_digit_def)
next
  case (JArr vs)
  obtain n' where n: "n = Suc n'" using JArr(4) by (cases n) auto
  show ?case
  proof (cases "vs = []")
    case False
    then obtain v vs' where v: "vs = v # vs'" by (cases vs) auto
    then obtain c t where "print_json q v = c # t" "\<not> json_space c" "c \<noteq> 93"
      using print_json_lead[of v q] JArr(2) by auto
    then have e: "eat 93 (join [44] (map (print_json q) vs) @ 93 # r) = None"
      using v by (cases "map (print_json q) vs'") (simp_all add: eat_Cons)
    have "read_elements n' [] (join [44] (map (print_json q) vs) @ 93 # r) = Some (JArr ([] @ vs), r)"
      using JArr False n by (intro read_elements_back) (auto simp: list_all_iff)
    with e show ?thesis using n by (simp add: skip_ws_Cons)
  qed (simp add: n eat_Cons skip_ws_Cons)
next
  case (JObj ms)
  obtain n' where n: "n = Suc n'" using JObj(4) by (cases n) auto
  have J: "print_json q (JObj ms) = 123 # join [44] (map (\<lambda>(k, v). (34 # q k @ [34]) @ 58 # print_json q v) ms) @ [125]"
    by (simp add: comp_def case_prod_unfold map_prod_def)
  show ?case
  proof (cases "ms = []")
    case False
    let ?b = "join [44] (map (\<lambda>(k, v). (34 # q k @ [34]) @ 58 # print_json q v) ms) @ 125 # r"
    have e: "eat 125 ?b = None"
      using False by (cases ms; cases "tl ms") (auto simp: eat_Cons)
    have "read_members n' [] ?b = Some (JObj ([] @ ms), r)"
      using JObj(2,4) False n unfolding J
      by (intro read_members_back JObj(1)) (auto simp: list_all_iff)
    with e show ?thesis unfolding J n by (simp add: skip_ws_Cons)
  qed (simp add: n eat_Cons skip_ws_Cons)
next
  case (JStr t)
  then show ?case by (cases n) (simp_all add: skip_ws_Cons read_back)
next
  case (JBool b)
  then show ?case using read_word(1,2)[of _ r] by (cases n) simp_all
next
  case JNull
  then show ?case using read_word(3)[of _ r] by (cases n) simp_all
qed

text \<open>A printed value, whatever white space follows it, parses to the value.\<close>

lemma parse_printed:
  assumes "plain_json v" and "number_ends r" and "skip_ws r = []"
  shows "JSON_parse (print_json q v @ r) = Some v"
  using read_value_back[OF assms(1,2) order_refl] assms(3) by (simp add: JSON_parse_def)

end

subsection \<open>How \<open>JSON.stringify\<close> writes strings\<close>

lemma hex_digit_back: "n < 16 \<Longrightarrow> digit_of (hex_digit n) = Some n"
  by (auto simp: hex_digit_def digit_of_def)

lemma hex_parts: "u = 16 * (16 * (16 * (u div 4096) + u div 256 mod 16) + u div 16 mod 16) + u mod 16" for u :: nat
proof -
  have "16 * (16 * (u div 16 div 16 div 16) + u div 16 div 16 mod 16) = 16 * (u div 16 div 16)"
    using mult_div_mod_eq[of 16 "u div 16 div 16"] by simp
  moreover have "16 * (u div 16 div 16) + u div 16 mod 16 = u div 16"
    by (rule mult_div_mod_eq)
  ultimately show ?thesis using mult_div_mod_eq[of 16 u] by (simp flip: div_mult2_eq)
qed

lemma read_hex4_escape:
  assumes "u < 65536"
  shows "read_hex4 (hex_digit (u div 4096) # hex_digit (u div 256 mod 16) # hex_digit (u div 16 mod 16)
     # hex_digit (u mod 16) # t) = Some (u, t)"
proof -
  have "u div 4096 < 16" using assms by (simp add: div_less_iff_less_mult)
  then show ?thesis using hex_parts[of u] by (simp add: read_hex4_def hex_digit_back)
qed

lemma read_u_escape: "u < 65536 \<Longrightarrow> read_string (u_escape u @ t) = map_option (\<lambda>(s, r). (u # s, r)) (read_string t)"
  by (simp add: u_escape_def read_hex4_escape)

lemma read_verbatim: "u \<noteq> 34 \<Longrightarrow> u \<noteq> 92 \<Longrightarrow> 32 \<le> u \<Longrightarrow>
    read_string (u # t) = map_option (\<lambda>(s, r). (u # s, r)) (read_string t)"
  by simp

lemma read_short_escape:
  "escape_unit e = Some u \<Longrightarrow> e \<noteq> 117 \<Longrightarrow> read_string (92 # e # t) = map_option (\<lambda>(s, r). (u # s, r)) (read_string t)"
  by simp

lemma escape_units [simp]:
  "escape_unit 34 = Some 34" "escape_unit 92 = Some 92" "escape_unit 98 = Some 8" "escape_unit 102 = Some 12"
  "escape_unit 110 = Some 10" "escape_unit 114 = Some 13" "escape_unit 116 = Some 9"
  by (simp_all add: escape_unit_def)

lemmas read_unit_rules = read_u_escape read_verbatim read_short_escape

lemma read_quote_unit:
  "u < 65536 \<Longrightarrow> read_string (quote_unit u @ t) = map_option (\<lambda>(s, r). (u # s, r)) (read_string t)"
  by (simp add: quote_unit_def read_u_escape)

lemma read_quote_units: "unit16 s \<Longrightarrow> read_string (quote_units s @ 34 # r) = Some (s, r)"
proof (induction s rule: quote_units.induct)
  case (3 u v s)
  then show ?case
    by (auto simp: read_quote_unit unit16_def is_high_def is_low_def simp del: read_string.simps
        simp: read_verbatim)
qed (simp_all add: read_quote_unit unit16_def)

interpretation js: json_quoting quote_units
  by unfold_locales (rule read_quote_units)

text \<open>Note: What \<open>JSON.stringify\<close> prints, \<open>JSON.parse\<close> reads back: any value, however deep, with any strings in
  it, lone surrogates and control characters included, as long as its numbers are whole and its
  objects repeat no key.\<close>

theorem JSON_parse_stringify:
  assumes "plain_json v"
  shows "JSON_parse (JSON_stringify v) = Some v"
  unfolding JSON_stringify_print using js.parse_printed[OF assms, of "[]"] by (simp add: skip_ws_def)

lemma JSON_parse_stringify_witness:
  "JSON_parse (JSON_stringify (JObj [(js ''cmd'', JArr [JStr [34, 55296, 10]]), (js ''timeoutMs'', JNum (of_whole (- 20)))])) =
     Some (JObj [(js ''cmd'', JArr [JStr [34, 55296, 10]]), (js ''timeoutMs'', JNum (of_whole (- 20)))])"
  by (rule JSON_parse_stringify) (simp add: js_def unit16_def isInteger_def)

end
