(* ===== verification/GoText.thy ===== *)
theory GoText
  imports JsonText Base64
begin

section \<open>Text and JSON on the agent's side (\<open>encoding/json\<close>, \<open>unicode/utf8\<close>)\<close>

text \<open>
  A Go string is its bytes.  \<open>go_text\<close> is the text \<open>encoding/json\<close> makes of them: rune by rune, one U+FFFD
  for every byte that does not belong to one.  \<open>go_json\<close> is \<open>json.Marshal\<close> on the values the agent sends,
  with the escapes it adds for HTML, and \<open>go_Encode\<close> the line \<open>Encoder.Encode\<close> writes;
  \<open>go_Decode\<close> is the first value of \<open>Decoder.Decode\<close>, and the \<open>go_\<dots>\<close> readers below it decode one field
  into a Go variable, None being an \<open>UnmarshalTypeError\<close>.  A number is taken for an \<open>int64\<close> by its
  value; a whole number spelt with a fraction or an exponent, which Go refuses and
  \<open>JSON.stringify\<close> never writes below \<open>10\<^sup>2\<^sup>1\<close>, is not told apart.
\<close>

subsection \<open>Runes\<close>

definition rune_at :: "nat \<Rightarrow> byte list \<Rightarrow> nat option" where
  "rune_at n bs =
     (if length bs < n then None
      else case utf8_run Start (take n bs) of (Start, [Some cp]) \<Rightarrow> Some cp | _ \<Rightarrow> None)"

function go_text :: "byte list \<Rightarrow> jsstring" where
  "go_text [] = []"
| "go_text (b # bs) =
     (case List.find (\<lambda>n. rune_at n (b # bs) \<noteq> None) [1, 2, 3, 4] of
        None \<Rightarrow> 65533 # go_text bs
      | Some n \<Rightarrow> utf16 (the (rune_at n (b # bs))) @ go_text (drop n (b # bs)))"
  by pat_completeness auto
termination
  by (relation "measure length") (auto simp: find_Some_iff less_Suc_eq nth_Cons split: nat.splits if_splits)

declare go_text.simps(2) [simp del]

lemma utf8_step_start: "utf8_step st b = (Start, out) \<Longrightarrow> out \<noteq> []"
  by (cases "(st, b)" rule: utf8_step.cases) (auto simp: utf8_lead_def split: if_splits)

lemma utf8_run_silent: "utf8_run st bs = (Start, []) \<Longrightarrow> st = Start \<and> bs = []"
proof (induction bs arbitrary: st)
  case (Cons b bs)
  obtain st1 out1 where 1: "utf8_step st (unat b) = (st1, out1)" by fastforce
  obtain st2 out2 where 2: "utf8_run st1 bs = (st2, out2)" by fastforce
  from Cons.prems 1 2 have "out1 = []" "out2 = []" "st2 = Start" by auto
  with Cons.IH 2 have "st1 = Start" by blast
  then show ?case using utf8_step_start 1 \<open>out1 = []\<close> by blast
qed simp

lemma rune_at_prefix:
  assumes run: "utf8_run Start (p @ q) = (Start, [Some cp])" and q: "q \<noteq> []" and p: "p \<noteq> []"
  shows "rune_at (length p) (p @ q @ r) = None"
proof (rule ccontr)
  assume "rune_at (length p) (p @ q @ r) \<noteq> None"
  then obtain x where "utf8_run Start p = (Start, [Some x])"
    by (auto simp: rune_at_def split: prod.splits utf8_state.splits list.splits option.splits)
  with run have "utf8_run Start q = (Start, [])"
    by (simp add: utf8_run_append prod_eq_iff)
  with q show False using utf8_run_silent by blast
qed

lemma length_utf8_encode: "length (utf8_encode cp) \<in> {1, 2, 3, 4}"
  by (simp add: utf8_encode_def)

lemma go_text_rune:
  assumes "scalar cp"
  shows "go_text (map of_nat (utf8_encode cp) @ r) = utf16 cp @ go_text r"
proof -
  let ?e = "map of_nat (utf8_encode cp) :: byte list"
  have run: "utf8_run Start ?e = (Start, [Some cp])" by (rule utf8_run_scalar[OF assms])
  have whole: "rune_at (length ?e) (?e @ r) = Some cp" using run by (simp add: rune_at_def)
  have less: "rune_at k (?e @ r) = None" if "0 < k" "k < length ?e" for k
  proof -
    have "rune_at (length (take k ?e)) (take k ?e @ drop k ?e @ r) = None"
      using run that by (intro rune_at_prefix[of _ _ cp]) auto
    then show ?thesis using that by (simp flip: append_assoc)
  qed
  have found: "List.find (\<lambda>n. rune_at n (?e @ r) \<noteq> None) [1, 2, 3, 4] = Some (length ?e)"
    using length_utf8_encode[of cp] whole less by auto
  obtain b bs where e: "?e @ r = b # bs" using length_utf8_encode[of cp] by (cases ?e) auto
  have "go_text (?e @ r) = utf16 (the (rune_at (length ?e) (?e @ r))) @ go_text (drop (length ?e) (?e @ r))"
    using found unfolding e go_text.simps(2) by simp
  then show ?thesis unfolding whole by simp
qed

lemma go_text_runes:
  "\<forall>c \<in> set cps. scalar c \<Longrightarrow> go_text (map of_nat (concat (map utf8_encode cps)) @ r) = concat (map utf16 cps) @ go_text r"
  by (induction cps) (simp_all add: go_text_rune)

lemma utf8_bytes_points: "code_points s = map Some cps \<Longrightarrow> utf8_bytes s = map of_nat (concat (map utf8_encode cps))"
  by (simp add: utf8_bytes_def replacement_def comp_def)

text \<open>A well-formed text survives the trip through its bytes.\<close>

lemma go_text_bytes: "well_formed s \<Longrightarrow> go_text (utf8_bytes s @ r) = s @ go_text r"
  using well_formed_points[of s] by (auto simp: utf8_bytes_points go_text_runes)

lemma go_text_utf8_bytes [simp]: "well_formed s \<Longrightarrow> go_text (utf8_bytes s) = s"
  using go_text_bytes[of s "[]"] by simp

lemma code_points_append: "well_formed s \<Longrightarrow> code_points (s @ t) = code_points s @ code_points t"
proof -
  assume "well_formed s"
  then obtain cps where cps: "code_points s = map Some cps" "\<forall>c \<in> set cps. scalar c" "concat (map utf16 cps) = s"
    using well_formed_points by blast
  have "code_points (concat (map utf16 cps) @ t) = map Some cps @ code_points t"
    using cps(2) by (induction cps) (simp_all add: code_points_utf16)
  then show ?thesis using cps by simp
qed

lemma well_formed_append [simp]: "well_formed s \<Longrightarrow> well_formed t \<Longrightarrow> well_formed (s @ t)"
  by (simp add: well_formed_def code_points_append[unfolded well_formed_def])

lemma well_formed_Nil [simp]: "well_formed []"
  by (simp add: well_formed_def)

lemma well_formed_Cons [simp]: "u < 55296 \<Longrightarrow> well_formed t \<Longrightarrow> well_formed (u # t)"
  using well_formed_append[of "[u]" t] by (simp add: well_formed_def is_high_def is_low_def)

lemma utf8_bytes_append: "well_formed s \<Longrightarrow> utf8_bytes (s @ t) = utf8_bytes s @ utf8_bytes t"
  by (simp add: utf8_bytes_def code_points_append)

lemma well_formed_js [simp]: "well_formed (js s)"
  using js_unit[of _ s] by (intro well_formed_latin) auto

lemma utf16_well_formed: "scalar cp \<Longrightarrow> well_formed (utf16 cp)"
  using code_points_utf16[of cp "[]"]
  by (auto simp: well_formed_def utf16_def scalar_def div_less_iff_less_mult)

subsection \<open>Printing\<close>

definition go_quote_unit :: "nat \<Rightarrow> jsstring" where
  "go_quote_unit u =
     (if u = 34 \<or> u = 92 then [92, u]
      else if u = 8 then [92, 98] else if u = 12 then [92, 102] else if u = 10 then [92, 110]
      else if u = 13 then [92, 114] else if u = 9 then [92, 116]
      else if u < 32 \<or> u = 60 \<or> u = 62 \<or> u = 38 \<or> u = 8232 \<or> u = 8233 then u_escape u
      else [u])"

definition go_quote :: "jsstring \<Rightarrow> jsstring" where
  "go_quote s = concat (map go_quote_unit s)"

definition go_json :: "json \<Rightarrow> jsstring" where
  "go_json v = print_json go_quote v"

definition go_Encode :: "json \<Rightarrow> byte list" where
  "go_Encode v = utf8_bytes (go_json v @ [10])"

lemma read_go_quote_unit:
  "u < 65536 \<Longrightarrow> read_string (go_quote_unit u @ t) = map_option (\<lambda>(s, r). (u # s, r)) (read_string t)"
  by (simp add: go_quote_unit_def read_u_escape)

lemma read_go_quote: "unit16 s \<Longrightarrow> read_string (go_quote s @ 34 # r) = Some (s, r)"
  by (induction s) (simp_all add: go_quote_def unit16_def read_go_quote_unit)

interpretation go: json_quoting go_quote
  by unfold_locales (rule read_go_quote)

text \<open>The values the agent sends: whole numbers, well-formed texts, no key twice.\<close>

fun texts_ok :: "json \<Rightarrow> bool" where
  "texts_ok (JNum n) \<longleftrightarrow> isInteger n"
| "texts_ok (JStr s) \<longleftrightarrow> well_formed s"
| "texts_ok (JArr vs) \<longleftrightarrow> list_all texts_ok vs"
| "texts_ok (JObj ms) \<longleftrightarrow> distinct (map fst ms) \<and> list_all (\<lambda>(k, v). well_formed k \<and> texts_ok v) ms"
| "texts_ok _ \<longleftrightarrow> True"

lemma texts_ok_plain: "texts_ok v \<Longrightarrow> plain_json v"
proof (induction v)
  case (JObj ms)
  then show ?case by (fastforce simp: list_all_iff well_formed_def unit16_def)
qed (simp_all add: list_all_iff well_formed_def unit16_def)

lemma well_formed_hex: "u < 65536 \<Longrightarrow> well_formed (u_escape u)"
  unfolding u_escape_def
  by (intro well_formed_Cons well_formed_Nil) (auto simp: hex_digit_def div_less_iff_less_mult)

lemma well_formed_go_quote: "well_formed s \<Longrightarrow> well_formed (go_quote s)"
proof -
  assume "well_formed s"
  then obtain cps where cps: "\<forall>c \<in> set cps. scalar c" "s = concat (map utf16 cps)"
    using well_formed_points by metis
  have "well_formed (go_quote (utf16 c))" if "scalar c" for c
  proof (cases "c < 65536")
    case True
    then show ?thesis
      using utf16_well_formed[OF that]
      by (auto simp: utf16_def go_quote_def go_quote_unit_def well_formed_hex)
  next
    case False
    then have "go_quote (utf16 c) = utf16 c" by (simp add: utf16_def go_quote_def go_quote_unit_def)
    then show ?thesis using utf16_well_formed[OF that] by simp
  qed
  with cps(1) have "well_formed (go_quote (concat (map utf16 cps)))"
    by (induction cps) (simp_all add: go_quote_def)
  then show ?thesis using cps(2) by simp
qed

lemma well_formed_join: "list_all well_formed ws \<Longrightarrow> well_formed (join [44] ws)"
  by (induction "[44] :: jsstring" ws rule: join.induct) simp_all

lemma well_formed_int: "well_formed (show_int i)"
  using show_int_units[of _ i] by (intro well_formed_latin) (fastforce simp: is_digit_def)

lemma well_formed_go_json: "texts_ok v \<Longrightarrow> well_formed (go_json v)"
proof (induction v)
  case (JNum n)
  then show ?case using print_number[of n go_quote] by (auto simp: go_json_def well_formed_int)
next
  case (JArr vs)
  then show ?case by (simp add: go_json_def well_formed_join list_all_iff)
next
  case (JObj ms)
  have "well_formed (join [44] (map (\<lambda>(k, t). (34 # go_quote k @ [34]) @ 58 # t) (map (map_prod id (print_json go_quote)) ms)))"
    using JObj by (intro well_formed_join) (auto simp: list_all_iff go_json_def well_formed_go_quote)
  then show ?case by (simp add: go_json_def)
qed (simp_all add: go_json_def well_formed_go_quote)

text \<open>A line the agent writes is the value it wrote, for whoever reads the line.\<close>

lemma go_json_parse:
  assumes "texts_ok v" and "number_ends r" and "skip_ws r = []"
  shows "JSON_parse (go_json v @ r) = Some v"
  using go.parse_printed[OF texts_ok_plain[OF assms(1)] assms(2,3)] by (simp add: go_json_def)

lemma body_text_Encode: "texts_ok v \<Longrightarrow> body_text (go_Encode v) = go_json v @ [10]"
  using well_formed_go_json[of v] print_json_lead[OF texts_ok_plain, of v go_quote]
  by (auto simp: go_Encode_def body_text_bytes drop_bom_def go_json_def hd_append)

text \<open>Lines of objects: what \<open>readNdjson\<close> makes of them, however the network cuts the bytes.\<close>

lemma no_newline_quote: "10 \<notin> set (go_quote s)"
  by (induction s) (auto simp: go_quote_def go_quote_unit_def u_escape_def hex_digit_def)

lemma set_join_words: "set (join sep ws) \<subseteq> set sep \<union> \<Union> (set ` set ws)"
  by (induction sep ws rule: join.induct) auto

lemma no_newline_join: "(\<And>w. w \<in> set ws \<Longrightarrow> 10 \<notin> set w) \<Longrightarrow> 10 \<notin> set (join [44] ws)"
  using set_join_words[of "[44]" ws] by auto

lemma no_newline: "plain_json v \<Longrightarrow> 10 \<notin> set (go_json v)"
proof (induction v)
  case (JNum n)
  then show ?case using print_number[of n go_quote] show_int_units[of 10] by (auto simp: go_json_def is_digit_def)
next
  case (JArr vs)
  then show ?case using no_newline_join[of "map (print_json go_quote) vs"] by (auto simp: go_json_def list_all_iff)
next
  case (JObj ms)
  then have "10 \<notin> set (join [44] (map (\<lambda>(k, t). (34 # go_quote k @ [34]) @ 58 # t) (map (map_prod id (print_json go_quote)) ms)))"
    by (intro no_newline_join) (fastforce simp: list_all_iff go_json_def no_newline_quote)
  then show ?case by (simp add: go_json_def)
qed (simp_all add: go_json_def no_newline_quote js_def)

definition is_record :: "json \<Rightarrow> bool" where
  "is_record v \<longleftrightarrow> (case v of JObj _ \<Rightarrow> texts_ok v | _ \<Rightarrow> False)"

lemma trim_record: "is_record v \<Longrightarrow> trim (go_json v) = go_json v \<and> go_json v \<noteq> []"
  by (auto simp: is_record_def go_json_def trim_def is_space_def split: json.splits)

lemma text_lines_records:
  "list_all is_record vs \<Longrightarrow> text_lines (concat (map (\<lambda>v. go_json v @ [10]) vs)) = map go_json vs"
proof (induction vs)
  case Nil
  then show ?case by (simp add: text_lines_def trim_def)
next
  case (Cons v vs)
  then have "texts_ok v" by (simp add: is_record_def split: json.splits)
  then have "plain_json v" by (rule texts_ok_plain)
  then show ?case
    using Cons no_newline[of v] trim_record[of v] by (simp add: text_lines_def splitOn_append)
qed

lemma parse_lines_records: "list_all is_record vs \<Longrightarrow> parse_lines syn (map go_json vs) = (vs, None)"
  using go_json_parse[of _ "[]"]
  by (induction vs) (auto simp: is_record_def skip_ws_def split: json.splits)

lemma stream_text_records:
  assumes "list_all is_record vs"
  shows "stream_text (concat (map go_Encode vs)) = concat (map (\<lambda>v. go_json v @ [10]) vs)"
proof -
  let ?t = "\<lambda>vs. concat (map (\<lambda>v. go_json v @ [10]) vs)"
  have ok: "is_record v \<Longrightarrow> well_formed (go_json v @ [10])" for v
    using well_formed_go_json[of v] by (auto simp: is_record_def split: json.splits)
  have "well_formed (?t vs) \<and> utf8_bytes (?t vs) = concat (map go_Encode vs)"
    using assms by (induction vs) (simp_all add: ok utf8_bytes_append go_Encode_def utf8_bytes_def[of "[]"] del: append_assoc)
  moreover have "drop_bom (?t vs) = ?t vs"
    using assms by (cases vs) (auto simp: drop_bom_def is_record_def go_json_def split: json.splits)
  ultimately show ?thesis using stream_text_bytes[of "?t vs"] by simp
qed

lemma readNdjson_records:
  assumes "list_all is_record vs" and "concat cs = concat (map go_Encode vs)"
  shows "readNdjson syn \<lparr>chunks = cs, ending = None\<rparr> = (vs, None)"
  using assms
  by (simp add: readNdjson_def nd_loop_ended decode_new stream_text_records text_lines_records parse_lines_records)

subsection \<open>Reading\<close>

definition go_Decode :: "byte list \<Rightarrow> json option" where
  "go_Decode bs = (let t = go_text bs in map_option fst (read_value (2 * length t + 2) t))"

text \<open>Keys match whatever their case, by the simple folding of \<open>encoding/json\<close>; the last match wins.\<close>

definition go_fold :: "jsstring \<Rightarrow> jsstring" where
  "go_fold s = map (\<lambda>c. if 97 \<le> c \<and> c \<le> 122 then c - 32 else if c = 383 then 83 else if c = 8490 then 75 else c) s"

definition go_is_struct :: "json \<Rightarrow> bool" where
  "go_is_struct v = (case v of JObj _ \<Rightarrow> True | JNull \<Rightarrow> True | _ \<Rightarrow> False)"

definition go_member :: "json \<Rightarrow> string \<Rightarrow> json option" where
  "go_member v name =
     (case v of
        JObj ms \<Rightarrow> map_of (rev (map (\<lambda>(k, x). (go_fold k, x)) ms)) (go_fold (js name))
      | _ \<Rightarrow> None)"

definition go_field :: "(json \<Rightarrow> 'v option) \<Rightarrow> 'v \<Rightarrow> json \<Rightarrow> string \<Rightarrow> 'v option" where
  "go_field decode zero v name = (case go_member v name of None \<Rightarrow> Some zero | Some x \<Rightarrow> decode x)"

definition go_string :: "json \<Rightarrow> byte list option" where
  "go_string v = (case v of JStr s \<Rightarrow> Some (utf8_bytes s) | JNull \<Rightarrow> Some [] | _ \<Rightarrow> None)"

definition go_string_pointer :: "json \<Rightarrow> byte list option option" where
  "go_string_pointer v = (case v of JStr s \<Rightarrow> Some (Some (utf8_bytes s)) | JNull \<Rightarrow> Some None | _ \<Rightarrow> None)"

fun go_elements :: "json list \<Rightarrow> byte list list option" where
  "go_elements [] = Some []"
| "go_elements (v # vs) =
     (case go_string v of None \<Rightarrow> None | Some s \<Rightarrow> map_option (Cons s) (go_elements vs))"

definition go_strings :: "json \<Rightarrow> byte list list option" where
  "go_strings v = (case v of JArr vs \<Rightarrow> go_elements vs | JNull \<Rightarrow> Some [] | _ \<Rightarrow> None)"

definition go_int64 :: "json \<Rightarrow> int option" where
  "go_int64 v =
     (case v of
        JNum n \<Rightarrow> (case integer_of n of
                     Some i \<Rightarrow> if - (2 ^ 63) \<le> i \<and> i < 2 ^ 63 then Some i else None
                   | None \<Rightarrow> None)
      | JNull \<Rightarrow> Some 0
      | _ \<Rightarrow> None)"

lemma well_formed_quote_units: "unit16 s \<Longrightarrow> well_formed (quote_units s)"
proof (induction s rule: quote_units.induct)
  have unit: "u < 65536 \<Longrightarrow> well_formed (quote_unit u)" for u
    using well_formed_hex[of u] by (auto simp: quote_unit_def well_formed_def is_high_def is_low_def)
  {
    case (2 u) then show ?case by (simp add: unit unit16_def)
  next
    case (3 u v s)
    show ?case
    proof (cases "is_high u \<and> is_low v")
      case True
      then have "well_formed [u, v]" using 3(3) by (auto simp: well_formed_def unit16_def)
      then show ?thesis using True 3 well_formed_append[of "[u, v]"] by (simp add: unit16_def)
    next
      case False
      then have q: "quote_units (u # v # s) = quote_unit u @ quote_units (v # s)" by auto
      have "well_formed (quote_units (v # s))" using 3(2)[OF False] 3(3) by (simp add: unit16_def)
      then show ?thesis unfolding q using unit 3(3) by (intro well_formed_append) (simp_all add: unit16_def)
    qed
  }
qed simp

lemma well_formed_stringify: "plain_json v \<Longrightarrow> well_formed (JSON_stringify v)"
proof (induction v)
  case (JNum n)
  then show ?case using print_number[of n quote_units] by (auto simp: JSON_stringify_print well_formed_int)
next
  case (JArr vs)
  then show ?case by (simp add: well_formed_join list_all_iff)
next
  case (JObj ms)
  have "well_formed (join [44] (map (\<lambda>(k, t). quote_string k @ 58 # t) (map (map_prod id JSON_stringify) ms)))"
    using JObj by (intro well_formed_join) (auto simp: list_all_iff quote_string_def well_formed_quote_units)
  then show ?case by simp
qed (simp_all add: quote_string_def well_formed_quote_units)

text \<open>What the adapter prints is decoded as the value it printed.\<close>

lemma go_Decode_stringify: "plain_json v \<Longrightarrow> go_Decode (utf8_bytes (JSON_stringify v)) = Some v"
  using well_formed_stringify[of v] js.read_value_back[of v "[]", OF _ _ order_refl]
  by (simp add: go_Decode_def Let_def JSON_stringify_print)

end
