(* ===== verification/AgentServer.thy ===== *)
theory AgentServer
  imports GoText Sha256 Net
begin

section \<open>The agent: requests, refusals, who may ask (\<open>agent/main.go\<close>, \<open>agent/server.go\<close>)\<close>

text \<open>
  A request is what \<open>net/http\<close> hands a handler: the method, the path the mux matches, the raw query,
  the \<open>Authorization\<close> header and the body; an answer is the status, the content type and the body
  written.  A Go string is a list of bytes, and the text of a message is kept as the text that
  \<open>encoding/json\<close> prints for it.  The wording of the errors of Go's own decoders is the \<open>wording\<close> a
  handler is given.
\<close>

subsection \<open>Strings\<close>

definition lit :: "string \<Rightarrow> byte list" where
  "lit s = utf8_bytes (js s)"

lemma go_text_lit [simp]: "go_text (lit s) = js s" "go_text (lit s @ r) = js s @ go_text r"
  by (simp_all add: lit_def go_text_bytes)

definition HasPrefix :: "byte list \<Rightarrow> byte list \<Rightarrow> bool" where
  "HasPrefix s p \<longleftrightarrow> take (length p) s = p"

definition CutPrefix :: "byte list \<Rightarrow> byte list \<Rightarrow> byte list option" where
  "CutPrefix s p = (if HasPrefix s p then Some (drop (length p) s) else None)"

text \<open>\<open>hex.DecodeString\<close>\<close>

fun hex_Decode :: "byte list \<Rightarrow> byte list option" where
  "hex_Decode [] = Some []"
| "hex_Decode [_] = None"
| "hex_Decode (h # l # r) =
     (case (hex_value (unat h), hex_value (unat l)) of
        (Some a, Some b) \<Rightarrow> map_option (Cons (of_nat (16 * a + b))) (hex_Decode r)
      | _ \<Rightarrow> None)"

text \<open>\<open>base64.StdEncoding.DecodeString\<close>: line breaks do not count, groups of four, padding only at the end.\<close>

definition b64_std :: "nat \<Rightarrow> bool" where
  "b64_std c \<longleftrightarrow> b64_digit c \<noteq> None \<and> c \<noteq> 45 \<and> c \<noteq> 95"

definition StdEncoding_Decode :: "byte list \<Rightarrow> byte list option" where
  "StdEncoding_Decode s =
     (let t = filter (\<lambda>c. c \<noteq> 10 \<and> c \<noteq> 13) (map unat s);
          ds = takeWhile b64_std t;
          pad = dropWhile b64_std t
      in if length t mod 4 = 0 \<and> (pad = [] \<or> pad = [61] \<or> pad = [61, 61]) then Some (unbase64 ds) else None)"

subsection \<open>Requests and answers\<close>

record http_request =
  rq_method :: jsstring
  rq_path :: jsstring
  rq_query :: jsstring
  rq_auth :: "byte list"      \<comment> \<open>empty when the header is absent\<close>
  rq_body :: "byte list"

record http_answer =
  ans_status :: nat
  ans_type :: jsstring
  ans_body :: "byte list"

definition maxRequestBytes :: nat where "maxRequestBytes = 2 ^ 30"
definition chunkSize :: nat where "chunkSize = 32 * 1024"
definition maxBoundedReads :: nat where "maxBoundedReads = 64"

text \<open>\<open>url.Values.Get\<close> over \<open>url.ParseQuery\<close>: a pair that does not unescape, or has a semicolon, is dropped.\<close>

definition QueryUnescape :: "jsstring \<Rightarrow> byte list option" where
  "QueryUnescape s = percent_decode (map (\<lambda>c. if c = 43 then 32 else c) s)"

definition cut_pair :: "jsstring \<Rightarrow> jsstring \<times> jsstring" where
  "cut_pair s = (takeWhile (\<lambda>c. c \<noteq> 61) s, drop 1 (dropWhile (\<lambda>c. c \<noteq> 61) s))"

definition query_pair :: "jsstring \<Rightarrow> (byte list \<times> byte list) option" where
  "query_pair s =
     (if s = [] \<or> 59 \<in> set s then None
      else case (QueryUnescape (fst (cut_pair s)), QueryUnescape (snd (cut_pair s))) of
             (Some k, Some v) \<Rightarrow> Some (k, v)
           | _ \<Rightarrow> None)"

definition Query_Get :: "http_request \<Rightarrow> string \<Rightarrow> byte list" where
  "Query_Get r name =
     (case map_of (List.map_filter query_pair (splitOn 38 (rq_query r))) (lit name) of
        Some v \<Rightarrow> v | None \<Rightarrow> [])"

text \<open>\<open>json.NewDecoder(http.MaxBytesReader(w, r.Body, maxRequestBytes)).Decode\<close>\<close>

definition decode_body :: "http_request \<Rightarrow> json option" where
  "decode_body r = go_Decode (take maxRequestBytes (rq_body r))"

definition apiError :: "jsstring \<Rightarrow> jsstring \<Rightarrow> json" where
  "apiError code text' =
     JObj ([(js ''error'', JStr text')] @ (if code = [] then [] else [(js ''code'', JStr code)]))"

definition writeCodedError :: "nat \<Rightarrow> string \<Rightarrow> jsstring \<Rightarrow> http_answer" where
  "writeCodedError status code text' =
     \<lparr>ans_status = status, ans_type = js ''application/json'', ans_body = go_Encode (apiError (js code) text')\<rparr>"

definition writeError :: "nat \<Rightarrow> jsstring \<Rightarrow> http_answer" where
  "writeError status text' = writeCodedError status '''' text'"

definition writeJSON :: "json \<Rightarrow> http_answer" where
  "writeJSON v = \<lparr>ans_status = 200, ans_type = js ''application/json'', ans_body = go_Encode v\<rparr>"

text \<open>A member with the \<open>omitempty\<close> tag.\<close>

definition omitempty :: "bool \<Rightarrow> string \<Rightarrow> json \<Rightarrow> (jsstring \<times> json) list" where
  "omitempty absent k v = (if absent then [] else [(js k, v)])"

text \<open>\<open>time.Duration(ms) * time.Millisecond\<close>: nanoseconds in 64 bits, the product wraps.\<close>

definition Milliseconds :: "int \<Rightarrow> int" where
  "Milliseconds ms = sint (word_of_int ms * word_of_int 1000000 :: 64 word)"

subsection \<open>The agent and its token\<close>

record startedProcess =
  sp_pid :: int
  sp_logPath :: "byte list"
  sp_exit :: "int option"      \<comment> \<open>the status, once \<open>Wait\<close> has collected it\<close>

record agent =
  ag_tokenHash :: "byte list"
  ag_children :: "int list"
  ag_started :: "int \<Rightarrow> startedProcess option"
  ag_boundedReads :: nat

definition newAgent :: "byte list \<Rightarrow> agent" where
  "newAgent tokenHash =
     \<lparr>ag_tokenHash = tokenHash, ag_children = [], ag_started = (\<lambda>_. None), ag_boundedReads = 0\<rparr>"

text \<open>\<open>main\<close>, from the environment variable to the agent; None is \<open>log.Fatalf\<close>.\<close>

definition TokenHashEnv :: jsstring where
  "TokenHashEnv = js ''MH_AGENT_TOKEN_SHA256''"

definition agent_of_env :: "byte list \<Rightarrow> agent option" where
  "agent_of_env value =
     (case hex_Decode value of
        None \<Rightarrow> None
      | Some hash \<Rightarrow> if length hash \<noteq> 32 then None else Some (newAgent hash))"

definition tokenMatches :: "byte list \<Rightarrow> byte list \<Rightarrow> bool" where
  "tokenMatches presented hash \<longleftrightarrow> presented = hash"

definition owns :: "agent \<Rightarrow> int \<Rightarrow> bool" where
  "owns a pid \<longleftrightarrow> pid \<in> set (ag_children a)"

text \<open>\<open>authenticated\<close>: the refusal, or None when the request goes through.\<close>

definition authenticated :: "agent \<Rightarrow> http_request \<Rightarrow> http_answer option" where
  "authenticated a r =
     (case CutPrefix (rq_auth r) (lit ''Bearer '') of
        None \<Rightarrow> Some (writeError 401 (js ''missing bearer token''))
      | Some token \<Rightarrow>
          if \<not> tokenMatches (sha256 token) (ag_tokenHash a) then Some (writeError 401 (js ''wrong token''))
          else None)"

definition guarded :: "agent \<Rightarrow> http_request \<Rightarrow> 's \<Rightarrow> (http_answer \<times> 's) \<Rightarrow> http_answer \<times> 's" where
  "guarded a r s next' = (case authenticated a r of Some refusal \<Rightarrow> (refusal, s) | None \<Rightarrow> next')"

subsection \<open>Facts\<close>

lemma CutPrefix_append [simp]: "CutPrefix (p @ s) p = Some s"
  by (simp add: CutPrefix_def HasPrefix_def)

lemma CutPrefix_Some: "CutPrefix s p = Some t \<longleftrightarrow> s = p @ t"
  by (auto simp: CutPrefix_def HasPrefix_def) (metis append_take_drop_id)

lemma authenticated_None:
  "authenticated a r = None \<longleftrightarrow> (\<exists>token. rq_auth r = lit ''Bearer '' @ token \<and> sha256 token = ag_tokenHash a)"
  by (auto simp: authenticated_def tokenMatches_def CutPrefix_Some split: option.splits)

lemma hex_value_unit: "n < 16 \<Longrightarrow> hex_value (hex_unit n) = Some n"
  by (auto simp: hex_value_def hex_unit_def)

lemma code_points_ascii: "\<forall>u \<in> set s. u < 128 \<Longrightarrow> code_points s = map Some s"
  by (induction s rule: code_points.induct) (auto simp: is_high_def is_low_def)

lemma utf8_bytes_ascii: "\<forall>u \<in> set s. u < 128 \<Longrightarrow> utf8_bytes s = map of_nat s"
proof -
  assume ascii: "\<forall>u \<in> set s. u < 128"
  then have "concat (map utf8_encode s) = s"
    by (induction s) (auto simp: utf8_encode_def)
  with ascii show ?thesis by (simp add: utf8_bytes_points code_points_ascii)
qed

lemma hex_of_ascii: "u \<in> set (hex_of bs) \<Longrightarrow> u < 128"
  using hex_of_hex[of u bs] by (auto simp: is_hex_def)

lemma hex_Decode_of: "hex_Decode (utf8_bytes (hex_of bs)) = Some bs"
proof -
  have "hex_Decode (map of_nat (hex_of bs)) = Some bs"
  proof (induction bs)
    case Nil
    then show ?case by (simp add: hex_of_def)
  next
    case (Cons b bs)
    have b: "unat b < 256" by (rule order.strict_trans2[OF unsigned_less]) simp
    then have "unat b div 16 < 16" "unat b mod 16 < 16" by auto
    then have v: "hex_value (hex_unit (unat b div 16)) = Some (unat b div 16)"
      "hex_value (hex_unit (unat b mod 16)) = Some (unat b mod 16)" by (simp_all add: hex_value_unit)
    have u: "unat (of_nat (hex_unit n) :: byte) = hex_unit n" if "n < 16" for n
      using that by (auto simp: hex_unit_def unat_of_nat)
    show ?case using Cons v u \<open>unat b div 16 < 16\<close> \<open>unat b mod 16 < 16\<close>
      by (simp add: hex_of_def)
  qed
  then show ?thesis using utf8_bytes_ascii[of "hex_of bs"] hex_of_ascii by simp
qed

text \<open>The variable a pod is given makes an agent, and the one with that hash.\<close>

lemma agent_of_env_hash: "length hash = 32 \<Longrightarrow> agent_of_env (utf8_bytes (hex_of hash)) = Some (newAgent hash)"
  by (simp add: agent_of_env_def hex_Decode_of)

lemma lit_inject [simp]: "lit s = lit t \<longleftrightarrow> s = t"
  by (metis go_text_lit(1) js_inject)

definition ascii :: "jsstring \<Rightarrow> bool" where
  "ascii s \<longleftrightarrow> (\<forall>u \<in> set s. u < 128)"

lemma lit_ascii: "ascii (js s) \<Longrightarrow> lit s = map of_nat (js s)"
  by (simp add: lit_def ascii_def utf8_bytes_ascii)

subsection \<open>Queries the adapter writes\<close>

text \<open>What has no meaning of its own in a query.\<close>

definition query_plain :: "nat \<Rightarrow> bool" where
  "query_plain u \<longleftrightarrow> u < 128 \<and> u \<notin> {37, 38, 43, 59, 61}"

lemma percent_decode_plain: "list_all query_plain s \<Longrightarrow> percent_decode s = Some (map of_nat s)"
proof (induction s)
  case (Cons c s)
  then have "c \<noteq> 37" by (simp add: query_plain_def)
  then show ?case using Cons by simp
qed simp

lemma map_unplus: "43 \<notin> set s \<Longrightarrow> map (\<lambda>c. if c = 43 then 32 else c) s = s" for s :: jsstring
  by (induction s) auto

lemma QueryUnescape_plain: "list_all query_plain s \<Longrightarrow> QueryUnescape s = Some (map of_nat s)"
proof -
  assume s: "list_all query_plain s"
  then have "43 \<notin> set s" by (auto simp: list_all_iff query_plain_def)
  then show "QueryUnescape s = Some (map of_nat s)"
    unfolding QueryUnescape_def map_unplus[OF \<open>43 \<notin> set s\<close>] using percent_decode_plain[OF s] by simp
qed

definition uri_text :: "byte list \<Rightarrow> jsstring" where
  "uri_text bs = concat (map (percent \<circ> unat) bs)"

lemma uri_text_units: "u \<in> set (uri_text bs) \<Longrightarrow> u < 128 \<and> u \<notin> {38, 43, 59, 61, 63}"
proof -
  have "u \<in> set (percent b) \<Longrightarrow> b < 256 \<Longrightarrow> u < 128 \<and> u \<notin> {38, 43, 59, 61, 63}" for b
  proof (cases "uri_unreserved b")
    case True
    then show "u \<in> set (percent b) \<Longrightarrow> u < 128 \<and> u \<notin> {38, 43, 59, 61, 63}"
      by (auto simp: percent_def uri_unreserved_def in_class_def)
  next
    case False
    assume "b < 256"
    then have "b div 16 < 16" "b mod 16 < 16" by auto
    then have "u = upper_hex n \<Longrightarrow> n \<in> {b div 16, b mod 16} \<Longrightarrow> u < 128 \<and> u \<notin> {38, 43, 59, 61, 63}" for n
      by (auto simp: upper_hex_def)
    then show "u \<in> set (percent b) \<Longrightarrow> u < 128 \<and> u \<notin> {38, 43, 59, 61, 63}"
      using False by (auto simp: percent_def)
  qed
  moreover have "unat (b :: byte) < 256" for b by (rule order.strict_trans2[OF unsigned_less]) simp
  ultimately show "u \<in> set (uri_text bs) \<Longrightarrow> u < 128 \<and> u \<notin> {38, 43, 59, 61, 63}"
    by (auto simp: uri_text_def)
qed

lemma QueryUnescape_uri: "QueryUnescape (uri_text bs) = Some bs"
proof -
  have "43 \<notin> set (uri_text bs)" using uri_text_units[of 43 bs] by blast
  then show ?thesis
    unfolding QueryUnescape_def map_unplus[OF \<open>43 \<notin> set (uri_text bs)\<close>]
    using percent_decode_bytes by (simp add: uri_text_def)
qed

text \<open>One pair, and a query made of pairs.\<close>

definition pair_of :: "jsstring \<Rightarrow> jsstring \<Rightarrow> jsstring" where
  "pair_of k v = k @ 61 # v"

definition clean_pair :: "jsstring \<Rightarrow> jsstring \<Rightarrow> bool" where
  "clean_pair k v \<longleftrightarrow> list_all query_plain k \<and> 38 \<notin> set v \<and> 59 \<notin> set v"

lemma query_pair_of:
  assumes "clean_pair k v" and "QueryUnescape v = Some w"
  shows "query_pair (pair_of k v) = Some (map of_nat k, w)" "38 \<notin> set (pair_of k v)"
proof -
  have k: "\<forall>u \<in> set k. u \<noteq> 61" "59 \<notin> set k" "38 \<notin> set k"
    using assms(1) by (auto simp: clean_pair_def list_all_iff query_plain_def)
  then have "takeWhile (\<lambda>c. c \<noteq> 61) (k @ 61 # v) = k" "dropWhile (\<lambda>c. c \<noteq> 61) (k @ 61 # v) = 61 # v"
    by (simp_all add: takeWhile_append dropWhile_append)
  moreover have "QueryUnescape k = Some (map of_nat k)"
    using assms(1) by (intro QueryUnescape_plain) (simp add: clean_pair_def)
  ultimately show "query_pair (pair_of k v) = Some (map of_nat k, w)"
    using assms k by (simp add: query_pair_def pair_of_def cut_pair_def clean_pair_def)
  show "38 \<notin> set (pair_of k v)" using assms(1) k by (simp add: pair_of_def clean_pair_def)
qed

definition query_of :: "(jsstring \<times> jsstring) list \<Rightarrow> jsstring" where
  "query_of kvs = join [38] (map (\<lambda>(k, v). pair_of k v) kvs)"

lemma Query_Get_of:
  assumes "rq_query r = query_of kvs" and "kvs \<noteq> []"
    and "list_all (\<lambda>(k, v). clean_pair k v \<and> QueryUnescape v \<noteq> None) kvs"
  shows "Query_Get r name =
    (case map_of (map (\<lambda>(k, v). (map of_nat k, the (QueryUnescape v))) kvs) (lit name) of Some v \<Rightarrow> v | None \<Rightarrow> [])"
proof -
  have "\<forall>w \<in> set (map (\<lambda>(k, v). pair_of k v) kvs). 38 \<notin> set w"
    using assms(3) query_pair_of(2) by (fastforce simp: list_all_iff)
  then have "splitOn 38 (query_of kvs) = map (\<lambda>(k, v). pair_of k v) kvs"
    unfolding query_of_def using assms(2) by (intro splitOn_join) simp_all
  moreover have "List.map_filter query_pair (map (\<lambda>(k, v). pair_of k v) kvs) =
      map (\<lambda>(k, v). (map of_nat k, the (QueryUnescape v))) kvs"
    using assms(3)
  proof (induction kvs)
    case (Cons kv kvs)
    then show ?case using query_pair_of(1) by (cases kv) (auto simp: map_filter_simps)
  qed (simp add: map_filter_simps)
  ultimately show ?thesis by (simp add: Query_Get_def assms(1))
qed

end
