(* ===== verification/OsFiles.thy ===== *)
theory OsFiles
  imports AgentServer "HOL-Library.List_Lexorder"
begin

section \<open>The file system the agent works on (\<open>os\<close>, \<open>path/filepath\<close>, the system calls below them)\<close>

text \<open>
  Inodes by number, zero the root.  A directory lists its entries by name and knows its parent; a
  symbolic link is its target; anything else that is not a regular file delivers what it delivers
  (\<open>Special\<close>).  \<open>fs_denied\<close> are the inodes the agent may not open, read or search.  \<open>walk\<close> is the kernel's path
  resolution with its limit of forty links, total because each link spends one and each component
  shortens the rest.  The functions of \<open>os\<close> and \<open>path/filepath\<close> the agent calls are defined on top, each for a
  file system that nobody else changes during the call.
\<close>

type_synonym ino = nat

datatype inode =
    Regular "byte list"
  | Folder "(byte list \<times> ino) list" ino
  | Link "byte list"
  | Special "byte list option"    \<comment> \<open>what reading it delivers, if reading it works\<close>

record file_system =
  fs_inode :: "ino \<Rightarrow> inode option"
  fs_next :: ino
  fs_denied :: "ino \<Rightarrow> bool"
  fs_size :: "ino \<Rightarrow> nat"    \<comment> \<open>the size \<open>stat\<close> reports of what is not a regular file\<close>
  fs_cwd :: ino

datatype errno = ENOENT | ENOTDIR | ELOOP | EACCES | EISDIR | EEXIST

definition errno_text :: "errno \<Rightarrow> jsstring" where
  "errno_text e =
     js (case e of ENOENT \<Rightarrow> ''no such file or directory'' | ENOTDIR \<Rightarrow> ''not a directory''
         | ELOOP \<Rightarrow> ''too many levels of symbolic links'' | EACCES \<Rightarrow> ''permission denied''
         | EISDIR \<Rightarrow> ''is a directory'' | EEXIST \<Rightarrow> ''file exists'')"

definition path_error :: "string \<Rightarrow> byte list \<Rightarrow> errno \<Rightarrow> jsstring" where
  "path_error op path e = js op @ [32] @ go_text path @ js '': '' @ errno_text e"

definition not_exist :: "errno \<Rightarrow> bool" where    \<comment> \<open>\<open>errors.Is(err, fs.ErrNotExist)\<close>\<close>
  "not_exist e \<longleftrightarrow> e = ENOENT"

subsection \<open>Paths\<close>

definition slash :: byte where "slash = 47"

definition Split :: "byte list \<Rightarrow> byte list list" where
  "Split path = map (map of_nat) (splitOn 47 (map unat path))"

definition rooted :: "byte list \<Rightarrow> bool" where
  "rooted path \<longleftrightarrow> path \<noteq> [] \<and> hd path = slash"

text \<open>The components the kernel walks: a trailing slash asks for a directory, as a trailing dot does.\<close>

definition components :: "byte list \<Rightarrow> byte list list" where
  "components path =
     filter (\<lambda>n. n \<noteq> []) (Split path) @ (if path \<noteq> [] \<and> last path = slash then [lit ''.''] else [])"

definition clean_step :: "bool \<Rightarrow> byte list list \<Rightarrow> byte list \<Rightarrow> byte list list" where
  "clean_step absolute out name =
     (if name = [] \<or> name = lit ''.'' then out
      else if name = lit ''..'' then
        (if out \<noteq> [] \<and> last out \<noteq> lit ''..'' then butlast out
         else if absolute then out else out @ [name])
      else out @ [name])"

fun join_path :: "byte list list \<Rightarrow> byte list" where
  "join_path [] = []"
| "join_path [n] = n"
| "join_path (n # m # ns) = n @ slash # join_path (m # ns)"

text \<open>\<open>filepath.Clean\<close>, \<open>filepath.Dir\<close>, \<open>filepath.Join\<close> of two non-empty elements\<close>

definition Clean :: "byte list \<Rightarrow> byte list" where
  "Clean path =
     (let out = foldl (clean_step (rooted path)) [] (Split path);
          t = (if rooted path then [slash] else []) @ join_path out
      in if t = [] then lit ''.'' else t)"

definition Dir :: "byte list \<Rightarrow> byte list" where
  "Dir path = Clean (rev (dropWhile (\<lambda>c. c \<noteq> slash) (rev path)))"

definition Join :: "byte list \<Rightarrow> byte list \<Rightarrow> byte list" where
  "Join dir name = Clean (dir @ slash # name)"

subsection \<open>Resolution\<close>

datatype destination = Found ino | Missing ino "byte list"    \<comment> \<open>no entry of this name in this directory\<close>

definition entry_of :: "(byte list \<times> ino) list \<Rightarrow> ino \<Rightarrow> ino \<Rightarrow> byte list \<Rightarrow> ino option" where
  "entry_of entries parent self name =
     (if name = lit ''.'' then Some self else if name = lit ''..'' then Some parent else map_of entries name)"

text \<open>One component in one directory.\<close>

datatype hop = Refused errno | Absent | Into ino | Through ino "byte list"

definition hop_of :: "file_system \<Rightarrow> ino \<Rightarrow> byte list \<Rightarrow> hop" where
  "hop_of fs d n =
     (case fs_inode fs d of
        Some (Folder entries parent) \<Rightarrow>
          if fs_denied fs d then Refused EACCES
          else
            (case entry_of entries parent d n of
               None \<Rightarrow> Absent
             | Some i \<Rightarrow> (case fs_inode fs i of Some (Link target) \<Rightarrow> Through i target | _ \<Rightarrow> Into i))
      | _ \<Rightarrow> Refused ENOTDIR)"

function walk :: "file_system \<Rightarrow> bool \<Rightarrow> nat \<Rightarrow> ino \<Rightarrow> byte list list \<Rightarrow> errno + destination" where
  "walk fs follow links d [] = Inr (Found d)"
| "walk fs follow links d (n # ns) =
     (case hop_of fs d n of
        Refused e \<Rightarrow> Inl e
      | Absent \<Rightarrow> if ns = [] then Inr (Missing d n) else Inl ENOENT
      | Into i \<Rightarrow> walk fs follow links i ns
      | Through i target \<Rightarrow>
          if ns = [] \<and> \<not> follow then Inr (Found i)
          else if links = 0 then Inl ELOOP
          else if target = [] then Inl ENOENT
          else walk fs follow (links - 1) (if rooted target then 0 else d) (components target @ ns))"
  by pat_completeness auto
termination
  by (relation "measures [\<lambda>(fs, follow, links, d, ns). links, \<lambda>(fs, follow, links, d, ns). length ns]") auto

declare walk.simps(2) [simp del]

definition locate :: "file_system \<Rightarrow> bool \<Rightarrow> byte list \<Rightarrow> errno + destination" where
  "locate fs follow path =
     (if path = [] then Inl ENOENT
      else walk fs follow 40 (if rooted path then 0 else fs_cwd fs) (components path))"

definition stat :: "file_system \<Rightarrow> bool \<Rightarrow> byte list \<Rightarrow> errno + ino" where
  "stat fs follow path =
     (case locate fs follow path of
        Inl e \<Rightarrow> Inl e | Inr (Missing _ _) \<Rightarrow> Inl ENOENT | Inr (Found i) \<Rightarrow> Inr i)"

definition Stat :: "file_system \<Rightarrow> byte list \<Rightarrow> errno + ino" where "Stat fs path = stat fs True path"
definition Lstat :: "file_system \<Rightarrow> byte list \<Rightarrow> errno + ino" where "Lstat fs path = stat fs False path"

definition is_dir :: "file_system \<Rightarrow> ino \<Rightarrow> bool" where
  "is_dir fs i = (case fs_inode fs i of Some (Folder _ _) \<Rightarrow> True | _ \<Rightarrow> False)"

subsection \<open>Reading and writing whole files\<close>

definition ReadFile :: "file_system \<Rightarrow> byte list \<Rightarrow> errno + byte list" where
  "ReadFile fs path =
     (case Stat fs path of
        Inl e \<Rightarrow> Inl e
      | Inr i \<Rightarrow>
          if fs_denied fs i then Inl EACCES
          else
            (case fs_inode fs i of
               Some (Regular bs) \<Rightarrow> Inr bs
             | Some (Special (Some bs)) \<Rightarrow> Inr bs
             | Some (Special None) \<Rightarrow> Inl EACCES
             | Some (Folder _ _) \<Rightarrow> Inl EISDIR
             | _ \<Rightarrow> Inl ENOENT))"

definition set_inode :: "ino \<Rightarrow> inode \<Rightarrow> file_system \<Rightarrow> file_system" where
  "set_inode i x fs = fs\<lparr>fs_inode := (fs_inode fs)(i \<mapsto> x)\<rparr>"

text \<open>A new entry of a directory, with a new inode.\<close>

definition create :: "ino \<Rightarrow> byte list \<Rightarrow> inode \<Rightarrow> file_system \<Rightarrow> file_system" where
  "create d name x fs =
     (case fs_inode fs d of
        Some (Folder entries parent) \<Rightarrow>
          (set_inode (fs_next fs) x (set_inode d (Folder (entries @ [(name, fs_next fs)]) parent) fs))
            \<lparr>fs_next := Suc (fs_next fs)\<rparr>
      | _ \<Rightarrow> fs)"

definition WriteFile :: "byte list \<Rightarrow> byte list \<Rightarrow> file_system \<Rightarrow> (jsstring + unit) \<times> file_system" where
  "WriteFile path bs fs =
     (case locate fs True path of
        Inl e \<Rightarrow> (Inl (path_error ''open'' path e), fs)
      | Inr (Missing d name) \<Rightarrow> (Inr (), create d name (Regular bs) fs)
      | Inr (Found i) \<Rightarrow>
          if fs_denied fs i then (Inl (path_error ''open'' path EACCES), fs)
          else
            (case fs_inode fs i of
               Some (Regular _) \<Rightarrow> (Inr (), set_inode i (Regular bs) fs)
             | Some (Special _) \<Rightarrow> (Inr (), fs)
             | Some (Folder _ _) \<Rightarrow> (Inl (path_error ''open'' path EISDIR), fs)
             | _ \<Rightarrow> (Inl (path_error ''open'' path ENOENT), fs)))"

text \<open>\<open>mkdir\<close> takes a trailing slash for what it is about to make; \<open>os.MkdirAll\<close> passes the parent with one.\<close>

definition trim_slashes :: "byte list \<Rightarrow> byte list" where
  "trim_slashes path = rev (dropWhile (\<lambda>c. c = slash) (rev path))"

definition Mkdir :: "byte list \<Rightarrow> file_system \<Rightarrow> (errno + unit) \<times> file_system" where
  "Mkdir path fs =
     (if path \<noteq> [] \<and> trim_slashes path = [] then (Inl EEXIST, fs)
      else case locate fs False (trim_slashes path) of
        Inl e \<Rightarrow> (Inl e, fs)
      | Inr (Found _) \<Rightarrow> (Inl EEXIST, fs)
      | Inr (Missing d name) \<Rightarrow> (Inr (), create d name (Folder [] d) fs))"

definition parent_path :: "byte list \<Rightarrow> byte list" where
  "parent_path path = rev (dropWhile (\<lambda>c. c \<noteq> slash) (rev (trim_slashes path)))"

lemma parent_path_shorter: "parent_path path \<noteq> [] \<Longrightarrow> length (parent_path path) < length path"
proof -
  assume parent: "parent_path path \<noteq> []"
  let ?r = "dropWhile (\<lambda>c. c = slash) (rev path)"
  obtain c t where r: "?r = c # t" using parent by (cases ?r) (auto simp: parent_path_def trim_slashes_def)
  then have "c \<noteq> slash" using hd_dropWhile[of "\<lambda>c. c = slash" "rev path"] by simp
  then have "length (parent_path path) \<le> length t"
    using length_dropWhile_le[of _ t] by (simp add: parent_path_def trim_slashes_def r)
  moreover have "length (c # t) \<le> length path" unfolding r[symmetric] using length_dropWhile_le[of _ "rev path"] by simp
  ultimately show ?thesis by simp
qed

function MkdirAll :: "byte list \<Rightarrow> file_system \<Rightarrow> (jsstring + unit) \<times> file_system" where
  "MkdirAll path fs =
     (case Stat fs path of
        Inr i \<Rightarrow> (if is_dir fs i then Inr () else Inl (path_error ''mkdir'' path ENOTDIR), fs)
      | Inl _ \<Rightarrow>
          (case (if parent_path path = [] then (Inr (), fs) else MkdirAll (parent_path path) fs) of
             (Inl m, fs') \<Rightarrow> (Inl m, fs')
           | (Inr _, fs') \<Rightarrow>
               (case Mkdir path fs' of
                  (Inr _, fs'') \<Rightarrow> (Inr (), fs'')
                | (Inl e, fs'') \<Rightarrow>
                    (case Lstat fs'' path of
                       Inr i \<Rightarrow> (if is_dir fs'' i then Inr () else Inl (path_error ''mkdir'' path e), fs'')
                     | Inl _ \<Rightarrow> (Inl (path_error ''mkdir'' path e), fs'')))))"
  by pat_completeness auto
termination
  by (relation "measure (\<lambda>(path, fs). length path)") (auto dest: parent_path_shorter)

declare MkdirAll.simps [simp del]

subsection \<open>Directories\<close>

definition entries_at :: "file_system \<Rightarrow> ino \<Rightarrow> (byte list \<times> ino) list option" where
  "entries_at fs i =
     (case fs_inode fs i of
        Some (Folder entries _) \<Rightarrow> if fs_denied fs i then None else Some (sort_key fst entries)
      | _ \<Rightarrow> None)"

text \<open>\<open>os.ReadDir\<close>: through symbolic links to the directory, the entries in the order of their names.\<close>

definition ReadDir :: "file_system \<Rightarrow> byte list \<Rightarrow> jsstring + (byte list \<times> ino) list" where
  "ReadDir fs path =
     (case Stat fs path of
        Inl e \<Rightarrow> Inl (path_error ''open'' path e)
      | Inr i \<Rightarrow>
          (case entries_at fs i of
             None \<Rightarrow> Inl (path_error ''open'' path (if is_dir fs i then EACCES else ENOTDIR))
           | Some es \<Rightarrow> Inr es))"

subsection \<open>A file system that is one\<close>

text \<open>Every inode an entry names exists, new numbers are unused, the root and the working directory are directories.\<close>

definition fs_wf :: "file_system \<Rightarrow> bool" where
  "fs_wf fs \<longleftrightarrow>
     (\<forall>d entries parent. fs_inode fs d = Some (Folder entries parent) \<longrightarrow>
        is_dir fs parent \<and> (\<forall>(n, i) \<in> set entries. fs_inode fs i \<noteq> None))
     \<and> (\<forall>i \<ge> fs_next fs. fs_inode fs i = None \<and> \<not> fs_denied fs i)
     \<and> is_dir fs 0 \<and> is_dir fs (fs_cwd fs)"

lemma set_inode_simps [simp]:
  "fs_inode (set_inode i x fs) = (fs_inode fs)(i \<mapsto> x)" "fs_next (set_inode i x fs) = fs_next fs"
  "fs_denied (set_inode i x fs) = fs_denied fs" "fs_cwd (set_inode i x fs) = fs_cwd fs"
  by (simp_all add: set_inode_def)

lemma fs_wf_new: "fs_wf fs \<Longrightarrow> fs_inode fs (fs_next fs) = None" "fs_wf fs \<Longrightarrow> \<not> fs_denied fs (fs_next fs)"
  by (auto simp: fs_wf_def)

lemma entry_of_exists:
  assumes "fs_wf fs" and "fs_inode fs d = Some (Folder entries parent)" and "entry_of entries parent d n = Some i"
  shows "fs_inode fs i \<noteq> None"
proof -
  have "fs_inode fs parent \<noteq> None" "\<forall>(n, i) \<in> set entries. fs_inode fs i \<noteq> None"
    using assms(1,2) unfolding fs_wf_def is_dir_def by (metis option.case(1))+
  then show ?thesis
    using assms(2,3) by (auto simp: entry_of_def split: if_splits dest!: map_of_SomeD)
qed

lemma create_simps:
  assumes "fs_inode fs d = Some (Folder entries parent)"
  shows "fs_inode (create d name x fs) =
      (fs_inode fs)(d \<mapsto> Folder (entries @ [(name, fs_next fs)]) parent, fs_next fs \<mapsto> x)"
    "fs_denied (create d name x fs) = fs_denied fs" "fs_cwd (create d name x fs) = fs_cwd fs"
    "fs_next (create d name x fs) = Suc (fs_next fs)"
  using assms by (simp_all add: create_def)

text \<open>What a regular file holds does not matter to where paths lead.\<close>

lemma hop_set_regular:
  "fs_inode fs i = Some (Regular x) \<Longrightarrow> hop_of (set_inode i (Regular y) fs) d n = hop_of fs d n"
  by (auto simp: hop_of_def split: option.split inode.split)

lemma walk_set_regular:
  "fs_inode fs i = Some (Regular x) \<Longrightarrow> walk (set_inode i (Regular y) fs) follow links d ns = walk fs follow links d ns"
proof (induction fs follow links d ns rule: walk.induct)
  case (2 fs follow links d n ns)
  then show ?case by (cases "hop_of fs d n") (auto simp: walk.simps(2) hop_set_regular)
qed simp

text \<open>A path that lacked only its last entry leads to it once that is there.\<close>

lemma hop_create:
  assumes wf: "fs_wf fs" and d: "fs_inode fs d = Some (Folder entries parent)"
  shows "hop_of (create d name (Regular bs) fs) d' n =
    (if d' = d \<and> hop_of fs d n = Absent \<and> n = name then Into (fs_next fs) else hop_of fs d' n)"
proof -
  have new: "fs_inode fs (fs_next fs) = None" using wf by (rule fs_wf_new)
  then have ne: "d \<noteq> fs_next fs" using d by auto
  have old: "entry_of es p e m = Some i \<Longrightarrow> fs_inode fs e = Some (Folder es p) \<Longrightarrow> i \<noteq> fs_next fs" for es p e m i
    using entry_of_exists[OF wf] new by metis
  have grown: "entry_of (entries @ [(name, fs_next fs)]) parent d m =
      (case entry_of entries parent d m of
         Some i \<Rightarrow> Some i | None \<Rightarrow> if m = name then Some (fs_next fs) else None)" for m
    by (auto simp: entry_of_def map_add_def split: option.split)
  show ?thesis
  proof (cases "d' = d")
    case True
    show ?thesis
      using ne old[OF _ d] unfolding True hop_of_def create_simps[OF d]
      by (auto simp: d grown split: option.splits inode.splits)
  next
    case False
    show ?thesis
    proof (cases "d' = fs_next fs")
      case True
      then show ?thesis using new False unfolding hop_of_def create_simps[OF d] by simp
    next
      case no: False
      show ?thesis
        using ne old no False d unfolding hop_of_def create_simps[OF d]
        by (auto split: option.split inode.split)
    qed
  qed
qed

lemma walk_missing: "walk fs follow links d ns = Inr (Missing e name) \<Longrightarrow> hop_of fs e name = Absent"
  by (induction fs follow links d ns rule: walk.induct) (auto simp: walk.simps(2) split: hop.splits if_splits)

lemma hop_absent: "hop_of fs e name = Absent \<Longrightarrow> \<exists>entries parent. fs_inode fs e = Some (Folder entries parent)"
  by (auto simp: hop_of_def split: option.splits inode.splits if_splits)

lemma walk_create:
  assumes "fs_wf fs" and "walk fs follow links d0 ns = Inr (Missing d name)"
  shows "walk (create d name (Regular bs) fs) follow links d0 ns = Inr (Found (fs_next fs))"
proof -
  obtain entries parent where d: "fs_inode fs d = Some (Folder entries parent)"
    using hop_absent[OF walk_missing[OF assms(2)]] by blast
  note hop = hop_create[OF assms(1) d, of name bs]
  from assms(2) show ?thesis
    using assms(1) d hop
  proof (induction fs follow links d0 ns rule: walk.induct)
    case (2 fs follow links d0 n ns)
    then show ?case
      by (auto simp: walk.simps(2) split: hop.splits if_splits)
  qed simp
qed

subsection \<open>What the operations keep\<close>

lemma fs_wf_set_regular:
  assumes "fs_wf fs" and "fs_inode fs i = Some (Regular x)"
  shows "fs_wf (set_inode i (Regular y) fs)"
proof -
  have "i < fs_next fs" using assms by (metis fs_wf_def not_le option.distinct(1))
  moreover have dir: "is_dir (set_inode i (Regular y) fs) j = is_dir fs j" for j
    using assms(2) by (simp add: is_dir_def)
  ultimately show ?thesis using assms unfolding fs_wf_def dir
    by (auto split: if_splits) blast+
qed

lemma fs_wf_create:
  assumes wf: "fs_wf fs" and d: "fs_inode fs d = Some (Folder entries parent)"
    and x: "x = Regular bs \<or> x = Folder [] d"
  shows "fs_wf (create d name x fs)"
proof -
  note c = create_simps[OF d, of name x]
  have new: "fs_inode fs (fs_next fs) = None" using wf by (rule fs_wf_new)
  then have ne: "d \<noteq> fs_next fs" using d by auto
  have dir: "is_dir fs j \<Longrightarrow> is_dir (create d name x fs) j" for j
    using new ne d unfolding is_dir_def c by (auto split: option.splits)
  have self: "is_dir fs d" using d by (simp add: is_dir_def)
  have ex: "fs_inode fs j \<noteq> None \<Longrightarrow> fs_inode (create d name x fs) j \<noteq> None" for j unfolding c by simp
  have old: "is_dir fs p \<and> (\<forall>(n, i) \<in> set es. fs_inode fs i \<noteq> None)" if "fs_inode fs e = Some (Folder es p)" for e es p
    using wf that unfolding fs_wf_def by blast
  have "is_dir (create d name x fs) p \<and> (\<forall>(n, i) \<in> set es. fs_inode (create d name x fs) i \<noteq> None)"
    if e: "fs_inode (create d name x fs) e = Some (Folder es p)" for e es p
  proof -
    consider (new) "e = fs_next fs" | (self) "e = d" | (other) "e \<noteq> fs_next fs" "e \<noteq> d" by blast
    then show ?thesis
    proof cases
      case new
      then show ?thesis using e x self dir ne unfolding c(1) by auto
    next
      case self
      then have "es = entries @ [(name, fs_next fs)]" "p = parent" using e ne unfolding c(1) by auto
      then show ?thesis using old[OF d] dir ex by (fastforce simp: c(1))
    next
      case other
      then have "fs_inode fs e = Some (Folder es p)" using e unfolding c(1) by simp
      then show ?thesis using old dir ex by blast
    qed
  qed
  moreover have "\<forall>i \<ge> fs_next (create d name x fs). fs_inode (create d name x fs) i = None
      \<and> \<not> fs_denied (create d name x fs) i"
    using wf d unfolding c fs_wf_def by (auto simp: Suc_le_eq)
  moreover have "is_dir (create d name x fs) 0" "is_dir (create d name x fs) (fs_cwd (create d name x fs))"
    using wf dir unfolding fs_wf_def c(3) by blast+
  ultimately show ?thesis unfolding fs_wf_def by blast
qed

lemma locate_missing:
  assumes "locate fs follow path = Inr (Missing d name)"
  shows "\<exists>entries parent. fs_inode fs d = Some (Folder entries parent)"
  using assms walk_missing hop_absent unfolding locate_def by (metis Inl_Inr_False)

lemma fs_wf_Mkdir: "fs_wf fs \<Longrightarrow> Mkdir path fs = (r, fs') \<Longrightarrow> fs_wf fs'"
  using locate_missing fs_wf_create
  by (fastforce simp: Mkdir_def split: if_splits sum.splits destination.splits)

lemma fs_wf_MkdirAll: "fs_wf fs \<Longrightarrow> MkdirAll path fs = (r, fs') \<Longrightarrow> fs_wf fs'"
proof (induction path fs arbitrary: r fs' rule: MkdirAll.induct)
  case (1 path fs)
  then show ?case
    by (subst (asm) MkdirAll.simps) (auto split: sum.splits prod.splits if_splits dest: fs_wf_Mkdir)
qed

text \<open>What was written is what is read, unless the path is a device that swallows it.\<close>

lemma WriteFile_ReadFile:
  assumes wf: "fs_wf fs" and "WriteFile path bs fs = (Inr (), fs')"
  shows "ReadFile fs' path = Inr bs \<or> (\<exists>i x. Stat fs' path = Inr i \<and> fs_inode fs' i = Some (Special x))"
proof (cases "locate fs True path")
  case (Inl e)
  then show ?thesis using assms(2) by (simp add: WriteFile_def)
next
  case (Inr pl)
  show ?thesis
  proof (cases pl)
    case (Missing d name)
    then have fs': "fs' = create d name (Regular bs) fs" using assms(2) Inr by (simp add: WriteFile_def)
    obtain entries parent where d: "fs_inode fs d = Some (Folder entries parent)"
      using locate_missing Inr Missing by blast
    have "locate fs' True path = Inr (Found (fs_next fs))"
      using Inr Missing walk_create[OF wf] unfolding locate_def fs' create_simps[OF d] by (auto split: if_splits)
    then show ?thesis
      using fs_wf_new[OF wf] d by (simp add: ReadFile_def Stat_def stat_def fs' create_simps[OF d])
  next
    case (Found i)
    show ?thesis
    proof (cases "\<exists>x. fs_inode fs i = Some (Regular x)")
      case True
      then obtain x where x: "fs_inode fs i = Some (Regular x)" by blast
      then have fs': "fs' = set_inode i (Regular bs) fs" "\<not> fs_denied fs i"
        using assms(2) Inr Found by (auto simp: WriteFile_def split: if_splits)
      have "locate fs' True path = Inr (Found i)"
        using Inr Found walk_set_regular[OF x] by (auto simp: locate_def fs' split: if_splits)
      then show ?thesis using fs' by (simp add: ReadFile_def Stat_def stat_def)
    next
      case False
      then have "fs' = fs \<and> (\<exists>x. fs_inode fs i = Some (Special x))"
        using assms(2) Inr Found by (auto simp: WriteFile_def split: if_splits option.splits inode.splits)
      then show ?thesis using Inr Found by (auto simp: Stat_def stat_def)
    qed
  qed
qed

end
