(* ===== verification/AgentFiles.thy ===== *)
theory AgentFiles
  imports OsFiles
begin

section \<open>The agent's file endpoints (\<open>agent/files.go\<close>, \<open>agent/files_linux.go\<close>)\<close>

text \<open>
  The plain endpoints are one request on a file system nobody else changes meanwhile.  The bounded
  read is the one that is written against interference, so here every system call it makes sees its
  own file system: \<open>env t\<close> is the file system at the \<open>t\<close>-th call, chosen by whoever else runs in the pod.
  How much a read of the file asks for, and at which call the deadline has passed, are arguments
  too; \<open>stalled\<close> says that the request was answered before the read ended, which then keeps its slot.
\<close>

subsection \<open>Parameters\<close>

definition pathParam :: "http_request \<Rightarrow> byte list option" where
  "pathParam r = (let path = Query_Get r ''path'' in if path = [] then None else Some path)"

definition no_path :: http_answer where
  "no_path = writeError 400 (js ''path is required'')"

text \<open>\<open>strconv.ParseInt(s, 10, 64)\<close>\<close>

definition ParseInt :: "byte list \<Rightarrow> int option" where
  "ParseInt s =
     (let t = map unat s;
          neg = (t \<noteq> [] \<and> hd t = 45);
          ds = (if t \<noteq> [] \<and> (hd t = 45 \<or> hd t = 43) then tl t else t);
          i = (if neg then - int (digits_val ds) else int (digits_val ds))
      in if ds = [] \<or> \<not> list_all is_digit ds \<or> \<not> (- (2 ^ 63) \<le> i \<and> i < 2 ^ 63) then None else Some i)"

subsection \<open>Whole files\<close>

definition octets :: "byte list \<Rightarrow> http_answer" where
  "octets bs = \<lparr>ans_status = 200, ans_type = js ''application/octet-stream'', ans_body = bs\<rparr>"

definition writeFile_handler :: "http_request \<Rightarrow> file_system \<Rightarrow> http_answer \<times> file_system" where
  "writeFile_handler r fs =
     (case pathParam r of
        None \<Rightarrow> (no_path, fs)
      | Some path \<Rightarrow>
          if maxRequestBytes < length (rq_body r) then
            (writeCodedError 400 ''write_failed'' (js ''http: request body too large''), fs)
          else
            (case (if Dir path = lit ''.'' then (Inr (), fs) else MkdirAll (Dir path) fs) of
               (Inl m, fs') \<Rightarrow> (writeCodedError 500 ''write_failed'' m, fs')
             | (Inr _, fs') \<Rightarrow>
                 (case WriteFile path (rq_body r) fs' of
                    (Inl m, fs'') \<Rightarrow> (writeCodedError 500 ''write_failed'' m, fs'')
                  | (Inr _, fs'') \<Rightarrow> (writeJSON (JObj []), fs''))))"

definition readFile_handler :: "http_request \<Rightarrow> file_system \<Rightarrow> http_answer" where
  "readFile_handler r fs =
     (case pathParam r of
        None \<Rightarrow> no_path
      | Some path \<Rightarrow>
          (case Lstat fs path of
             Inl e \<Rightarrow>
               if not_exist e then writeCodedError 404 ''not_found'' (js ''no such file: '' @ go_text path)
               else writeCodedError 500 ''read_failed'' (path_error ''lstat'' path e)
           | Inr _ \<Rightarrow>
               (case ReadFile fs path of
                  Inl e \<Rightarrow> writeCodedError 500 ''read_failed'' (path_error (if e = EISDIR then ''read'' else ''open'') path e)
                | Inr bs \<Rightarrow> octets bs)))"

subsection \<open>Opening without following a link\<close>

text \<open>\<open>openat\<close> with \<open>O_NOFOLLOW\<close>, for the directory open at \<open>d\<close>\<close>

definition Openat :: "file_system \<Rightarrow> ino \<Rightarrow> byte list \<Rightarrow> bool \<Rightarrow> errno + ino" where
  "Openat fs d name directory =
     (case hop_of fs d name of
        Refused e \<Rightarrow> Inl e
      | Absent \<Rightarrow> Inl ENOENT
      | Through _ _ \<Rightarrow> Inl (if directory then ENOTDIR else ELOOP)
      | Into i \<Rightarrow>
          if fs_inode fs i = None then Inl ENOENT
          else if directory \<and> \<not> is_dir fs i then Inl ENOTDIR
          else if fs_denied fs i then Inl EACCES
          else Inr i)"

text \<open>The loop: call \<open>t\<close> opens the next component; what is returned is the inode and the number of the next call.\<close>

fun open_names :: "(nat \<Rightarrow> file_system) \<Rightarrow> nat \<Rightarrow> ino \<Rightarrow> byte list list \<Rightarrow> errno + ino \<times> nat" where
  "open_names env t d [] = Inr (d, t)"
| "open_names env t d (name # rest) =
     (case Openat (env t) d name (rest \<noteq> []) of
        Inl e \<Rightarrow> Inl e
      | Inr i \<Rightarrow> open_names env (Suc t) i rest)"

definition walked_names :: "byte list \<Rightarrow> byte list list" where
  "walked_names path = filter (\<lambda>n. n \<noteq> [] \<and> n \<noteq> lit ''.'') (Split path)"

definition openNoFollow :: "(nat \<Rightarrow> file_system) \<Rightarrow> byte list \<Rightarrow> (byte list \<times> errno) + ino \<times> nat" where
  "openNoFollow env path =
     (if fs_denied (env 0) 0 then Inl ([slash], EACCES)
      else case open_names env 1 0 (walked_names path) of
             Inl e \<Rightarrow> Inl (path, e)
           | Inr opened \<Rightarrow> Inr opened)"

subsection \<open>The bounded read\<close>

definition maxSafeInteger :: int where "maxSafeInteger = 2 ^ 53 - 1"
definition maxTimeoutMs :: int where "maxTimeoutMs = 2 ^ 31 - 1"

record read_env =
  re_fs :: "nat \<Rightarrow> file_system"
  re_ask :: "nat \<Rightarrow> nat"       \<comment> \<open>one less than the bytes the \<open>t\<close>-th call asks for\<close>
  re_late :: "nat \<Rightarrow> bool"     \<comment> \<open>whether the context has ended when the \<open>t\<close>-th call is about to be made\<close>

datatype read_failure = NotExist jsstring | Failed jsstring

text \<open>\<open>ReadFrom(io.LimitReader(contextReader{ctx, file}, limit))\<close> on the file open at \<open>i\<close>\<close>

function read_some :: "read_env \<Rightarrow> ino \<Rightarrow> nat \<Rightarrow> nat \<Rightarrow> byte list \<Rightarrow> jsstring + byte list" where
  "read_some env i limit t got =
     (if limit \<le> length got then Inr got
      else if re_late env t then Inl (js ''context deadline exceeded'')
      else
        (case fs_inode (re_fs env t) i of
           Some (Regular bs) \<Rightarrow>
             (let chunk = take (min (Suc (re_ask env t)) (limit - length got)) (drop (length got) bs)
              in if chunk = [] then Inr got else read_some env i limit (Suc t) (got @ chunk))
         | _ \<Rightarrow> Inl (js ''input/output error'')))"
  by pat_completeness auto
termination
  by (relation "measure (\<lambda>(env, i, limit, t, got). limit - length got)") (auto simp: not_le intro!: diff_less_mono2)

declare read_some.simps [simp del]

definition regular_size :: "file_system \<Rightarrow> ino \<Rightarrow> nat option" where
  "regular_size fs i = (case fs_inode fs i of Some (Regular bs) \<Rightarrow> Some (length bs) | _ \<Rightarrow> None)"

definition readBounded :: "read_env \<Rightarrow> byte list \<Rightarrow> int \<Rightarrow> read_failure + byte list" where
  "readBounded env path budget =
     (case openNoFollow (re_fs env) path of
        Inl (p, e) \<Rightarrow> Inl (if not_exist e then NotExist (path_error ''open'' p e) else Failed (path_error ''open'' p e))
      | Inr (i, t) \<Rightarrow>
          (case regular_size (re_fs env t) i of
             None \<Rightarrow> Inl (Failed (go_text path @ js '' is not a regular file''))
           | Some found \<Rightarrow>
               if budget < int found then
                 Inl (Failed (go_text path @ js '' is '' @ show_int (int found) @ js '' bytes, over the budget of ''
                   @ show_int budget))
               else
                 (case read_some env i (nat (budget + 1)) (Suc t) [] of
                    Inl m \<Rightarrow> Inl (Failed m)
                  | Inr bs \<Rightarrow>
                      if budget < int (length bs) then
                        Inl (Failed (go_text path @ js '' grew past the budget of '' @ show_int budget
                          @ js '' bytes while being read''))
                      else Inr bs)))"

datatype stall = DeadlinePassed | CallerGone

definition stall_text :: "byte list \<Rightarrow> int \<Rightarrow> stall \<Rightarrow> jsstring" where
  "stall_text path ms s =
     js ''reading '' @ go_text path @
     (case s of DeadlinePassed \<Rightarrow> js '': deadline of '' @ show_int ms @ js ''ms passed''
      | CallerGone \<Rightarrow> js '': the caller went away'')"

definition names_file :: "byte list \<Rightarrow> bool" where
  "names_file path \<longleftrightarrow>
     HasPrefix path [slash] \<and> lit ''..'' \<notin> set (Split path)
     \<and> last (Split path) \<noteq> [] \<and> last (Split path) \<noteq> lit ''.''"

definition bounded_answer :: "byte list \<Rightarrow> read_failure + byte list \<Rightarrow> http_answer" where
  "bounded_answer path result =
     (case result of
        Inr bs \<Rightarrow> octets bs
      | Inl (NotExist _) \<Rightarrow> writeCodedError 404 ''not_found'' (js ''no such file: '' @ go_text path)
      | Inl (Failed m) \<Rightarrow> writeCodedError 500 ''read_failed'' m)"

definition bounded_request :: "http_request \<Rightarrow> http_answer + byte list \<times> int \<times> int" where
  "bounded_request r =
     (case pathParam r of
        None \<Rightarrow> Inl no_path
      | Some path \<Rightarrow>
          (case ParseInt (Query_Get r ''maxBytes'') of
             None \<Rightarrow> Inl (writeCodedError 400 ''read_failed'' (js ''maxBytes must be an integer from 0 to 2^53-1''))
           | Some budget \<Rightarrow>
               if budget < 0 \<or> maxSafeInteger < budget then
                 Inl (writeCodedError 400 ''read_failed'' (js ''maxBytes must be an integer from 0 to 2^53-1''))
               else
                 (case ParseInt (Query_Get r ''timeoutMs'') of
                    None \<Rightarrow> Inl (writeCodedError 400 ''read_failed'' (js ''timeoutMs must be an integer from 1 to 2^31-1''))
                  | Some ms \<Rightarrow>
                      if ms \<le> 0 \<or> maxTimeoutMs < ms then
                        Inl (writeCodedError 400 ''read_failed'' (js ''timeoutMs must be an integer from 1 to 2^31-1''))
                      else if \<not> names_file path then
                        Inl (writeCodedError 400 ''read_failed''
                          (js ''path must be absolute, name a file and have no ..: '' @ go_text path))
                      else Inr (path, budget, ms))))"

definition readFileBounded_handler ::
  "read_env \<Rightarrow> stall option \<Rightarrow> http_request \<Rightarrow> agent \<Rightarrow> http_answer \<times> agent" where
  "readFileBounded_handler env stalled r a =
     (case bounded_request r of
        Inl refusal \<Rightarrow> (refusal, a)
      | Inr (path, budget, ms) \<Rightarrow>
          if maxBoundedReads \<le> ag_boundedReads a then
            (writeCodedError 503 ''read_failed'' (show_nat maxBoundedReads @ js '' bounded reads are already running''), a)
          else
            (case stalled of
               Some s \<Rightarrow>
                 (bounded_answer path (Inl (Failed (stall_text path ms s))),
                  a\<lparr>ag_boundedReads := Suc (ag_boundedReads a)\<rparr>)
             | None \<Rightarrow> (bounded_answer path (readBounded env path budget), a)))"

text \<open>A stalled read ends, unheard, and gives its slot back.\<close>

definition bounded_read_ends :: "agent \<Rightarrow> agent" where
  "bounded_read_ends a = a\<lparr>ag_boundedReads := ag_boundedReads a - 1\<rparr>"

subsection \<open>Listings\<close>

record fileEntry =
  fe_path :: "byte list"
  fe_type :: string
  fe_size :: nat

definition typeName :: "inode option \<Rightarrow> string" where
  "typeName x =
     (case x of Some (Regular _) \<Rightarrow> ''file'' | Some (Folder _ _) \<Rightarrow> ''directory'' | Some (Link _) \<Rightarrow> ''symlink''
      | _ \<Rightarrow> ''other'')"

definition inode_size :: "file_system \<Rightarrow> ino \<Rightarrow> nat" where
  "inode_size fs i = (case fs_inode fs i of Some (Regular bs) \<Rightarrow> length bs | _ \<Rightarrow> fs_size fs i)"

definition entry_at :: "file_system \<Rightarrow> byte list \<Rightarrow> byte list \<times> ino \<Rightarrow> fileEntry" where
  "entry_at fs dir e =
     \<lparr>fe_path = Join dir (fst e), fe_type = typeName (fs_inode fs (snd e)), fe_size = inode_size fs (snd e)\<rparr>"

text \<open>\<open>filepath.WalkDir\<close> below a directory, to a depth: the entries of one directory in order, each before what is in it.\<close>

fun walk_entries :: "nat \<Rightarrow> file_system \<Rightarrow> byte list \<Rightarrow> (byte list \<times> ino) list \<Rightarrow> jsstring + fileEntry list" where
  "walk_entries depth fs dir [] = Inr []"
| "walk_entries 0 fs dir (e # es) = Inl (js ''too deep'')"
| "walk_entries (Suc depth) fs dir (e # es) =
     (case (if is_dir fs (snd e) then
              (case entries_at fs (snd e) of
                 None \<Rightarrow> Inl (path_error ''open'' (Join dir (fst e)) EACCES)
               | Some inner \<Rightarrow> walk_entries depth fs (Join dir (fst e)) inner)
            else Inr []) of
        Inl m \<Rightarrow> Inl m
      | Inr below \<Rightarrow>
          (case walk_entries (Suc depth) fs dir es of
             Inl m \<Rightarrow> Inl m
           | Inr beside \<Rightarrow> Inr (entry_at fs dir e # below @ beside)))"

text \<open>\<open>filepath.WalkDir\<close> looks at the root itself with \<open>lstat\<close>: a link is not walked into.\<close>

definition WalkDir :: "file_system \<Rightarrow> byte list \<Rightarrow> jsstring + fileEntry list" where
  "WalkDir fs base =
     (case Lstat fs base of
        Inl e \<Rightarrow> Inl (path_error ''lstat'' base e)
      | Inr i \<Rightarrow>
          if is_dir fs i then
            (case entries_at fs i of
               None \<Rightarrow> Inl (path_error ''open'' base EACCES)
             | Some es \<Rightarrow> walk_entries (fs_next fs) fs base es)
          else Inr [])"

definition listEntries :: "file_system \<Rightarrow> byte list \<Rightarrow> bool \<Rightarrow> jsstring + fileEntry list" where
  "listEntries fs base deep =
     (if deep then WalkDir fs base
      else (case ReadDir fs base of Inl m \<Rightarrow> Inl m | Inr es \<Rightarrow> Inr (map (entry_at fs base) es)))"

definition fileEntry_json :: "fileEntry \<Rightarrow> json" where
  "fileEntry_json e =
     JObj [(js ''path'', JStr (go_text (fe_path e))), (js ''type'', JStr (js (fe_type e))),
       (js ''size'', JNum (of_whole (int (fe_size e))))]"

definition listFilesResponse :: "fileEntry list \<Rightarrow> json" where
  "listFilesResponse entries = JObj [(js ''entries'', JArr (map fileEntry_json entries))]"

definition not_a_directory :: "byte list \<Rightarrow> http_answer" where
  "not_a_directory path = writeCodedError 409 ''not_a_directory'' (go_text path @ js '' is not a directory'')"

definition listFiles_handler :: "http_request \<Rightarrow> file_system \<Rightarrow> http_answer" where
  "listFiles_handler r fs =
     (case pathParam r of
        None \<Rightarrow> no_path
      | Some path \<Rightarrow>
          (case Stat fs path of
             Inl e \<Rightarrow>
               if not_exist e then
                 (case Lstat fs path of
                    Inr _ \<Rightarrow> not_a_directory path
                  | Inl _ \<Rightarrow> writeCodedError 404 ''not_found'' (js ''no such directory: '' @ go_text path))
               else writeCodedError 500 ''list_failed'' (path_error ''stat'' path e)
           | Inr i \<Rightarrow>
               if \<not> is_dir fs i then not_a_directory path
               else
                 (case listEntries fs path (Query_Get r ''recursive'' = lit ''true'') of
                    Inl m \<Rightarrow> writeCodedError 500 ''list_failed'' m
                  | Inr entries \<Rightarrow> writeJSON (listFilesResponse entries))))"

subsection \<open>A bounded read under interference\<close>

text \<open>
  The directories a path leads through, each looked at once, at consecutive calls: what is named there is
  not a link, is a directory unless it is the last, and is what the next call starts from.
\<close>

definition openable :: "inode option \<Rightarrow> bool \<Rightarrow> bool" where
  "openable x at_end =
     (case x of None \<Rightarrow> False | Some (Link _) \<Rightarrow> False | Some (Folder _ _) \<Rightarrow> True | Some _ \<Rightarrow> at_end)"

fun real_chain :: "(nat \<Rightarrow> file_system) \<Rightarrow> nat \<Rightarrow> ino \<Rightarrow> byte list list \<Rightarrow> ino \<Rightarrow> bool" where
  "real_chain env t d [] i \<longleftrightarrow> i = d"
| "real_chain env t d (n # ns) i \<longleftrightarrow>
     (\<exists>entries parent j. fs_inode (env t) d = Some (Folder entries parent) \<and> entry_of entries parent d n = Some j
        \<and> openable (fs_inode (env t) j) (ns = []) \<and> real_chain env (Suc t) j ns i)"

lemma Openat_found:
  assumes "Openat fs d name directory = Inr j"
  shows "\<exists>entries parent. fs_inode fs d = Some (Folder entries parent) \<and> entry_of entries parent d name = Some j
     \<and> openable (fs_inode fs j) (\<not> directory)"
  using assms
  by (auto simp: openable_def Openat_def hop_of_def is_dir_def split: hop.splits option.splits inode.splits if_splits)

lemma open_names_chain:
  "open_names env t d ns = Inr (i, t') \<Longrightarrow> real_chain env t d ns i \<and> t' = t + length ns"
proof (induction env t d ns rule: open_names.induct)
  case (2 env t d name rest)
  then obtain j where j: "Openat (env t) d name (rest \<noteq> []) = Inr j" and go: "open_names env (Suc t) j rest = Inr (i, t')"
    by (auto split: sum.splits)
  from Openat_found[OF j] 2(1)[OF j go] show ?case by auto
qed simp

text \<open>Every byte read was at its place in the file at the moment of one of the reads.\<close>

definition byte_of :: "(nat \<Rightarrow> file_system) \<Rightarrow> ino \<Rightarrow> nat \<Rightarrow> byte \<Rightarrow> bool" where
  "byte_of env i k b \<longleftrightarrow> (\<exists>t bs. fs_inode (env t) i = Some (Regular bs) \<and> k < length bs \<and> bs ! k = b)"

lemma read_some_sound:
  assumes "read_some env i limit t got = Inr bs"
    and "length got \<le> limit" and "\<And>k. k < length got \<Longrightarrow> byte_of (re_fs env) i k (got ! k)"
  shows "length bs \<le> limit \<and> (\<forall>k < length bs. byte_of (re_fs env) i k (bs ! k))"
  using assms
proof (induction env i limit t got rule: read_some.induct)
  case (1 env i limit t got)
  show ?case
  proof (cases "limit \<le> length got")
    case True
    then have "bs = got" using 1(2) unfolding read_some.simps[of env i limit t got] by simp
    then show ?thesis using 1(3,4) by simp
  next
    case False
    then obtain cs where late: "\<not> re_late env t" and cs: "fs_inode (re_fs env t) i = Some (Regular cs)"
      using 1(2) by (auto simp: read_some.simps[of env i limit t got] split: if_splits option.splits inode.splits)
    let ?c = "take (min (Suc (re_ask env t)) (limit - length got)) (drop (length got) cs)"
    show ?thesis
    proof (cases "?c = []")
      case True
      then show ?thesis using 1(2-4) False late cs by (simp add: read_some.simps[of env i limit t got])
    next
      case ne: False
      have "read_some env i limit (Suc t) (got @ ?c) = Inr bs"
        using 1(2) False late cs ne
        by (simp only: read_some.simps[of env i limit t got] Let_def if_False option.case inode.case)
      moreover have "length (got @ ?c) \<le> limit" using False by simp
      moreover have "byte_of (re_fs env) i k ((got @ ?c) ! k)" if "k < length (got @ ?c)" for k
      proof (cases "k < length got")
        case False
        then have "k - length got < length ?c" using that unfolding length_append by linarith
        then have "?c ! (k - length got) = cs ! k" "k < length cs" using False by auto
        then have "k < length cs" "(got @ ?c) ! k = cs ! k" using False by (simp_all add: nth_append)
        then show ?thesis using cs unfolding byte_of_def by metis
      qed (use 1(4) in \<open>simp add: nth_append\<close>)
      ultimately show ?thesis using 1(1)[OF False late cs refl refl ne] by blast
    qed
  qed
qed

lemma readBounded_sound:
  assumes "readBounded env path budget = Inr bs"
  shows "\<exists>i size. real_chain (re_fs env) 1 0 (walked_names path) i
     \<and> regular_size (re_fs env (1 + length (walked_names path))) i = Some size \<and> int size \<le> budget
     \<and> int (length bs) \<le> budget \<and> (\<forall>k < length bs. byte_of (re_fs env) i k (bs ! k))"
proof -
  from assms obtain i t size where open': "openNoFollow (re_fs env) path = Inr (i, t)"
    and size: "regular_size (re_fs env t) i = Some size" "int size \<le> budget" "int (length bs) \<le> budget"
    and bs: "read_some env i (nat (budget + 1)) (Suc t) [] = Inr bs"
    by (auto simp: readBounded_def split: sum.splits option.splits if_splits)
  from open' have "open_names (re_fs env) 1 0 (walked_names path) = Inr (i, t)"
    by (auto simp: openNoFollow_def split: if_splits sum.splits)
  from open_names_chain[OF this] size read_some_sound[OF bs] show ?thesis by auto
qed

lemma writeCodedError_status [simp]: "ans_status (writeCodedError c k m) = c"
  by (simp add: writeCodedError_def)

lemma refusals_status: "bounded_request r = Inl ans \<Longrightarrow> ans_status ans = 400"
  by (auto simp: bounded_request_def no_path_def writeError_def split: option.splits if_splits)

lemma bounded_answer_fine: "ans_status (bounded_answer path res) = 200 \<Longrightarrow> \<exists>bs. res = Inr bs \<and> bounded_answer path res = octets bs"
  by (auto simp: bounded_answer_def split: sum.splits read_failure.splits)

lemma bounded_request_names: "bounded_request r = Inr (path, budget, ms) \<Longrightarrow> names_file path \<and> 0 \<le> budget"
  by (auto simp: bounded_request_def split: option.splits if_splits)

text \<open>C5: Whatever else runs in the pod may swap directories for links, rename and grow files between any two
  of its system calls: a bounded read that answers bytes opened each name of the path in the
  directory the name before it gave, never through a symbolic link and never upwards, ended at a regular
  file that fitted the budget when it was measured, and answers no more than the budget, every
  byte of it a byte that file had at that place.\<close>

theorem bounded_read_safe:
  assumes "readFileBounded_handler env stalled r a = (ans, a')" and "ans_status ans = 200"
  shows "\<exists>path budget ms i size. bounded_request r = Inr (path, budget, ms)
     \<and> lit ''..'' \<notin> set (walked_names path)
     \<and> real_chain (re_fs env) 1 0 (walked_names path) i
     \<and> regular_size (re_fs env (1 + length (walked_names path))) i = Some size \<and> int size \<le> budget
     \<and> int (length (ans_body ans)) \<le> budget
     \<and> (\<forall>k < length (ans_body ans). byte_of (re_fs env) i k (ans_body ans ! k))"
proof -
  from assms obtain path budget ms where req: "bounded_request r = Inr (path, budget, ms)"
    using refusals_status by (cases "bounded_request r") (auto simp: readFileBounded_handler_def)
  have fin: "ans = bounded_answer path (readBounded env path budget)"
    using assms req by (auto simp: readFileBounded_handler_def bounded_answer_def split: if_splits option.splits)
  with assms(2) obtain bs where bs: "readBounded env path budget = Inr bs" "ans = octets bs"
    using bounded_answer_fine by metis
  have "lit ''..'' \<notin> set (walked_names path)"
    using bounded_request_names[OF req] by (auto simp: names_file_def walked_names_def)
  with req readBounded_sound[OF bs(1)] bs(2) show ?thesis by (auto simp: octets_def)
qed

subsection \<open>Requests as the adapter writes them\<close>

lemma unat_bytes: "\<forall>u \<in> set s. u < 256 \<Longrightarrow> map unat (map of_nat s :: byte list) = s"
  by (induction s) (simp_all add: unat_of_nat)

lemma ParseInt_show_int:
  assumes "- (2 ^ 63) \<le> i" and "i < 2 ^ 63"
  shows "ParseInt (map of_nat (show_int i)) = Some i"
proof -
  have "\<forall>u \<in> set (show_int i). u < 256" using show_int_units[of _ i] by (fastforce simp: is_digit_def)
  note t = unat_bytes[OF this]
  have "hd (show_nat n) \<noteq> 45 \<and> hd (show_nat n) \<noteq> 43 \<and> list_all is_digit (show_nat n)" for n
  proof -
    have "is_digit (hd (show_nat n))" using show_nat_digits[of n] hd_in_set[OF show_nat_not_Nil[of n]] by blast
    then have "hd (show_nat n) \<noteq> 45 \<and> hd (show_nat n) \<noteq> 43" unfolding is_digit_def by linarith
    then show ?thesis using show_nat_digits[of n] by (simp add: list_all_iff)
  qed
  then show ?thesis using assms unfolding ParseInt_def Let_def t by (auto simp: show_int_def)
qed

lemma lit_names:
  "lit ''path'' = map of_nat (js ''path'')" "lit ''maxBytes'' = map of_nat (js ''maxBytes'')"
  "lit ''timeoutMs'' = map of_nat (js ''timeoutMs'')" "lit ''recursive'' = map of_nat (js ''recursive'')"
  "lit ''pid'' = map of_nat (js ''pid'')" "lit ''true'' = map of_nat (js ''true'')"
  by (simp_all add: lit_ascii ascii_def js_def)

lemma show_int_plain: "list_all query_plain (show_int i)"
  using show_int_units[of _ i] by (fastforce simp: list_all_iff query_plain_def is_digit_def)

lemma clean_values:
  assumes "list_all query_plain k"
  shows "clean_pair k (uri_text bs)" "clean_pair k (show_int i)"
  using assms uri_text_units[of 38 bs] uri_text_units[of 59 bs] show_int_plain[of i]
  by (auto simp: clean_pair_def list_all_iff query_plain_def)

lemma key_plain: "list_all query_plain (js ''path'')" "list_all query_plain (js ''maxBytes'')"
  "list_all query_plain (js ''timeoutMs'')" "list_all query_plain (js ''recursive'')" "list_all query_plain (js ''true'')"
  "list_all query_plain (js ''pid'')"
  by (simp_all add: js_def query_plain_def)

lemma bounded_request_of:
  assumes "rq_query r = query_of [(js ''path'', uri_text path), (js ''maxBytes'', show_int budget), (js ''timeoutMs'', show_int ms)]"
    and "names_file path" and "0 \<le> budget" "budget \<le> maxSafeInteger" and "0 < ms" "ms \<le> maxTimeoutMs"
  shows "bounded_request r = Inr (path, budget, ms)"
proof -
  have digits: "QueryUnescape (show_int i) = Some (map of_nat (show_int i))" for i
    by (rule QueryUnescape_plain[OF show_int_plain])
  have distinct: "map of_nat (js s) = (map of_nat (js t) :: byte list) \<longleftrightarrow> s = t"
    if "s \<in> {''path'', ''maxBytes'', ''timeoutMs''}" "t \<in> {''path'', ''maxBytes'', ''timeoutMs''}" for s t
    using that lit_inject lit_names(1,2,3) by (elim insertE emptyE) (metis lit_inject)+
  have get: "Query_Get r name = (case map_of (map (\<lambda>(k, v). (map of_nat k, the (QueryUnescape v)))
      [(js ''path'', uri_text path), (js ''maxBytes'', show_int budget), (js ''timeoutMs'', show_int ms)]) (lit name) of
      Some v \<Rightarrow> v | None \<Rightarrow> [])" for name
    by (rule Query_Get_of[OF assms(1)]) (simp_all add: clean_values key_plain QueryUnescape_uri digits)
  have "Query_Get r ''path'' = path" "Query_Get r ''maxBytes'' = map of_nat (show_int budget)"
    "Query_Get r ''timeoutMs'' = map of_nat (show_int ms)"
    unfolding get by (simp_all add: lit_names distinct QueryUnescape_uri digits)
  moreover have "path \<noteq> []" using assms(2) by (auto simp: names_file_def HasPrefix_def)
  ultimately show ?thesis
    using assms(2-6) by (simp add: bounded_request_def pathParam_def ParseInt_show_int maxSafeInteger_def maxTimeoutMs_def)
qed

definition demo_fs :: file_system where
  "demo_fs = \<lparr>fs_inode = [0 \<mapsto> Folder [(lit ''f'', 1)] 0, 1 \<mapsto> Regular [104, 105]], fs_next = 2,
     fs_denied = (\<lambda>_. False), fs_size = (\<lambda>_. 0), fs_cwd = 0\<rparr>"

definition demo_read_env :: read_env where
  "demo_read_env = \<lparr>re_fs = (\<lambda>_. demo_fs), re_ask = (\<lambda>_. 100), re_late = (\<lambda>_. False)\<rparr>"

definition demo_bounded :: http_request where
  "demo_bounded = \<lparr>rq_method = js ''GET'', rq_path = js ''/files/bounded'',
     rq_query = query_of [(js ''path'', uri_text (lit ''/f'')), (js ''maxBytes'', show_int 3), (js ''timeoutMs'', show_int 10)],
     rq_auth = [], rq_body = []\<rparr>"

lemma demo_path: "lit ''/f'' = [47, 102]" "lit ''f'' = [102]" "lit ''.'' = [46]" "lit ''..'' = [46, 46]" "lit ''g'' = [103]"
  "lit ''/g'' = [47, 103]"
  by (simp_all add: lit_ascii ascii_def js_def)

lemma demo_bounded_request: "bounded_request demo_bounded = Inr (lit ''/f'', 3, 10)"
  by (rule bounded_request_of)
    (simp_all add: demo_bounded_def names_file_def HasPrefix_def demo_path slash_def Split_def maxSafeInteger_def maxTimeoutMs_def)

lemma demo_bounded_read: "readFileBounded_handler demo_read_env None demo_bounded (newAgent []) = (octets [104, 105], newAgent [])"
proof -
  have "walked_names (lit ''/f'') = [lit ''f'']" by (simp add: walked_names_def Split_def demo_path)
  moreover have "read_some demo_read_env 1 4 (Suc (Suc (Suc 0))) [] = Inr [104, 105]"
    by (simp add: read_some.simps[of _ _ _ _ "[]"] read_some.simps[of _ _ _ _ "[104, 105]"] demo_read_env_def demo_fs_def)
  ultimately have "readBounded demo_read_env (lit ''/f'') 3 = Inr [104, 105]"
    by (simp add: readBounded_def openNoFollow_def Openat_def hop_of_def entry_of_def regular_size_def
        demo_read_env_def demo_fs_def)
  then show ?thesis
    by (simp add: readFileBounded_handler_def demo_bounded_request bounded_answer_def newAgent_def maxBoundedReads_def)
qed

lemma bounded_read_safe_witness:
  "\<exists>path budget ms i size. bounded_request demo_bounded = Inr (path, budget, ms)
     \<and> real_chain (re_fs demo_read_env) 1 0 (walked_names path) i
     \<and> regular_size (re_fs demo_read_env (1 + length (walked_names path))) i = Some size"
  using bounded_read_safe[OF demo_bounded_read] by (auto simp: octets_def)

end
