(* ===== verification/AgentProcess.thy ===== *)
theory AgentProcess
  imports AgentFiles
begin

section \<open>The agent's processes (\<open>agent/process.go\<close>)\<close>

text \<open>
  A detached process is started by one request and answered for by others.  \<open>ag_started\<close> keeps every
  process started, \<open>ag_children\<close> the ones whose exit the agent has still to collect; \<open>collected\<close> is the
  goroutine that does.  Signals go out as a list of targets and numbers.  Waiting for a port is a
  total function of the probes' answers: every round but the last rests for \<open>dialPause\<close>, so the time left
  shrinks.  Times are nanoseconds, as \<open>time.Duration\<close> counts them.
\<close>

subsection \<open>Starting\<close>

record startProcessRequest =
  st_cmd :: "byte list list"
  st_cwd :: "byte list"

definition startProcessRequest_of :: "json \<Rightarrow> startProcessRequest option" where
  "startProcessRequest_of v =
     (case (go_field go_strings [] v ''cmd'', go_field go_string [] v ''cwd'') of
        (Some c, Some d) \<Rightarrow> if go_is_struct v then Some \<lparr>st_cmd = c, st_cwd = d\<rparr> else None
      | _ \<Rightarrow> None)"

datatype start_result = NoLog jsstring | NotStarted jsstring | Started int "byte list"    \<comment> \<open>pid and log file\<close>

definition pid_json :: "int \<Rightarrow> json" where
  "pid_json pid = JObj [(js ''pid'', JNum (of_whole pid))]"

definition startProcess_handler ::
  "(byte list \<Rightarrow> jsstring) \<Rightarrow> (startProcessRequest \<Rightarrow> start_result) \<Rightarrow> http_request \<Rightarrow> agent \<Rightarrow> http_answer \<times> agent" where
  "startProcess_handler wording start r a =
     (case Option.bind (decode_body r) startProcessRequest_of of
        None \<Rightarrow> (writeError 400 (js ''bad request: '' @ wording (rq_body r)), a)
      | Some req \<Rightarrow>
          if st_cmd req = [] then (writeError 400 (js ''cmd must not be empty''), a)
          else
            (case start req of
               NoLog m \<Rightarrow> (writeError 500 m, a)
             | NotStarted m \<Rightarrow>
                 (writeError 500 (js ''cannot start '' @ go_text (hd (st_cmd req)) @ js '': '' @ m), a)
             | Started pid logPath \<Rightarrow>
                 (writeJSON (pid_json pid),
                  a\<lparr>ag_children := pid # ag_children a,
                    ag_started := (ag_started a)(pid \<mapsto> \<lparr>sp_pid = pid, sp_logPath = logPath, sp_exit = None\<rparr>)\<rparr>)))"

text \<open>\<open>Wait\<close> returned: the exit status is there, and the orphan reaper no longer keeps away from the pid.\<close>

definition collected :: "int \<Rightarrow> int \<Rightarrow> agent \<Rightarrow> agent" where
  "collected pid code a =
     a\<lparr>ag_children := removeAll pid (ag_children a),
       ag_started := (ag_started a)(pid := map_option (\<lambda>p. p\<lparr>sp_exit := Some code\<rparr>) (ag_started a pid))\<rparr>"

subsection \<open>Asking about one\<close>

definition unknown_pid :: "int \<Rightarrow> http_answer" where
  "unknown_pid pid = writeError 404 (js ''unknown pid: '' @ show_int pid)"

definition startedByQuery :: "agent \<Rightarrow> http_request \<Rightarrow> http_answer + startedProcess" where
  "startedByQuery a r =
     (case ParseInt (Query_Get r ''pid'') of
        None \<Rightarrow> Inl (writeError 400 (js ''pid must be a number''))
      | Some pid \<Rightarrow> (case ag_started a pid of None \<Rightarrow> Inl (unknown_pid pid) | Some p \<Rightarrow> Inr p))"

definition exit_member :: "int option \<Rightarrow> (jsstring \<times> json) list" where
  "exit_member code = omitempty (code = None) ''exitCode'' (JNum (of_whole (the code)))"

definition processStatusResponse :: "startedProcess \<Rightarrow> json" where
  "processStatusResponse p = JObj ([(js ''running'', JBool (sp_exit p = None))] @ exit_member (sp_exit p))"

definition processStatus_handler :: "http_request \<Rightarrow> agent \<Rightarrow> http_answer" where
  "processStatus_handler r a =
     (case startedByQuery a r of Inl refusal \<Rightarrow> refusal | Inr p \<Rightarrow> writeJSON (processStatusResponse p))"

definition processLogs_handler :: "http_request \<Rightarrow> file_system \<Rightarrow> agent \<Rightarrow> http_answer" where
  "processLogs_handler r fs a =
     (case startedByQuery a r of
        Inl refusal \<Rightarrow> refusal
      | Inr p \<Rightarrow>
          \<lparr>ans_status = 200, ans_type = js ''text/plain; charset=utf-8'',
           ans_body = (case ReadFile fs (sp_logPath p) of Inr bs \<Rightarrow> bs | Inl _ \<Rightarrow> [])\<rparr>)"

subsection \<open>Signals\<close>

definition signal_numbers :: "(string \<times> int) list" where
  "signal_numbers = [(''TERM'', 15), (''KILL'', 9), (''INT'', 2), (''HUP'', 1), (''QUIT'', 3), (''USR1'', 10), (''USR2'', 12)]"

text \<open>\<open>strings.ToUpper\<close>, for the letters whose upper case is ASCII\<close>

definition ToUpper :: "jsstring \<Rightarrow> jsstring" where
  "ToUpper s = map (\<lambda>c. if 97 \<le> c \<and> c \<le> 122 then c - 32 else if c = 305 then 73 else if c = 383 then 83 else c) s"

definition TrimPrefix :: "jsstring \<Rightarrow> jsstring \<Rightarrow> jsstring" where
  "TrimPrefix s p = (if startsWith p s then drop (length p) s else s)"

definition signal_named :: "byte list \<Rightarrow> int option" where
  "signal_named name =
     (let n = (if name = [] then js ''TERM'' else go_text name)
      in map_of (map (\<lambda>(k, v). (js k, v)) signal_numbers) (TrimPrefix (ToUpper n) (js ''SIG'')))"

record signalRequest =
  sg_pid :: int
  sg_signal :: "byte list"

definition signalRequest_of :: "json \<Rightarrow> signalRequest option" where
  "signalRequest_of v =
     (case (go_field go_int64 0 v ''pid'', go_field go_string [] v ''signal'') of
        (Some p, Some s) \<Rightarrow> if go_is_struct v then Some \<lparr>sg_pid = p, sg_signal = s\<rparr> else None
      | _ \<Rightarrow> None)"

text \<open>The answer and the signal sent: to the group of the process, its negated pid.\<close>

definition signalProcess_handler ::
  "(byte list \<Rightarrow> jsstring) \<Rightarrow> http_request \<Rightarrow> agent \<Rightarrow> http_answer \<times> (int \<times> int) list" where
  "signalProcess_handler wording r a =
     (case Option.bind (decode_body r) signalRequest_of of
        None \<Rightarrow> (writeError 400 (js ''bad request: '' @ wording (rq_body r)), [])
      | Some req \<Rightarrow>
          (case signal_named (sg_signal req) of
             None \<Rightarrow> (writeError 400 (js ''unknown signal: '' @ go_text (sg_signal req)), [])
           | Some number \<Rightarrow>
               (case ag_started a (sg_pid req) of
                  None \<Rightarrow> (unknown_pid (sg_pid req), [])
                | Some p \<Rightarrow> (writeJSON (JObj []), [(- sp_pid p, number)]))))"

subsection \<open>Waiting for a port\<close>

record waitPortRequest =
  wp_port :: int
  wp_timeoutMs :: int
  wp_pid :: int
  wp_mode :: "byte list"
  wp_path :: "byte list"

definition waitPortRequest_of :: "json \<Rightarrow> waitPortRequest option" where
  "waitPortRequest_of v =
     (case (go_field go_int64 0 v ''port'', go_field go_int64 0 v ''timeoutMs'', go_field go_int64 0 v ''pid'',
            go_field go_string [] v ''mode'', go_field go_string [] v ''path'') of
        (Some port, Some ms, Some pid, Some m, Some p) \<Rightarrow>
          if go_is_struct v then
            Some \<lparr>wp_port = port, wp_timeoutMs = ms, wp_pid = pid, wp_mode = m, wp_path = p\<rparr>
          else None
      | _ \<Rightarrow> None)"

definition dialPause :: int where "dialPause = 50000000"
definition dialTimeout :: int where "dialTimeout = 500000000"
definition httpProbeTimeout :: int where "httpProbeTimeout = 2000000000"

definition probeBound :: "int \<Rightarrow> int \<Rightarrow> int" where
  "probeBound remaining limit = (if 0 < remaining \<and> remaining < limit then remaining else limit)"

text \<open>\<open>url.Parse\<close> of a path on a fixed host: no control character before the fragment, escapes that are ones.\<close>

fun escapes_ok :: "nat list \<Rightarrow> bool" where
  "escapes_ok [] \<longleftrightarrow> True"
| "escapes_ok (c # s) \<longleftrightarrow>
     (if c = 37 then
        (case s of h # l # r \<Rightarrow> hex_value h \<noteq> None \<and> hex_value l \<noteq> None \<and> escapes_ok r | _ \<Rightarrow> False)
      else escapes_ok s)"

definition url_parses :: "byte list \<Rightarrow> bool" where
  "url_parses path =
     (let s = map unat path;
          before = takeWhile (\<lambda>c. c \<noteq> 35) s
      in list_all (\<lambda>c. 32 \<le> c \<and> c \<noteq> 127) before
         \<and> escapes_ok (takeWhile (\<lambda>c. c \<noteq> 63) before)
         \<and> escapes_ok (drop 1 (dropWhile (\<lambda>c. c \<noteq> 35) s)))"

definition check_mode :: "(byte list \<Rightarrow> jsstring) \<Rightarrow> waitPortRequest \<Rightarrow> jsstring + waitPortRequest" where
  "check_mode wording req =
     (if wp_mode req = [] \<or> wp_mode req = lit ''tcp'' then
        (if wp_path req \<noteq> [] then Inl (js ''path needs mode http; a tcp probe does not request anything'')
         else Inr (req\<lparr>wp_mode := lit ''tcp''\<rparr>))
      else if wp_mode req = lit ''http'' then
        (let path = (if wp_path req = [] then [slash] else wp_path req)
         in if \<not> HasPrefix path [slash] then Inl (js ''path must start with /'')
            else if \<not> url_parses path then Inl (js ''path is not a valid URL path: '' @ wording path)
            else Inr (req\<lparr>wp_path := path\<rparr>))
      else Inl (js ''mode must be tcp or http''))"

record waitPortResponse =
  wr_open :: bool
  wr_exited :: bool
  wr_exitCode :: "int option"

definition waitPortResponse_json :: "waitPortResponse \<Rightarrow> json" where
  "waitPortResponse_json w =
     JObj ([(js ''open'', JBool (wr_open w))] @ omitempty (\<not> wr_exited w) ''exited'' (JBool (wr_exited w))
       @ exit_member (wr_exitCode w))"

text \<open>
  The pod as the loop meets it: whether the \<open>k\<close>-th probe, of this mode and at most this long, succeeds and how long
  it takes; the exit code of a process after the \<open>k\<close>-th probe; how late the pause after it ends; whether the caller has gone by then.
\<close>

record probe_world =
  pw_probe :: "nat \<Rightarrow> waitPortRequest \<Rightarrow> int \<Rightarrow> bool \<times> nat"
  pw_exit :: "nat \<Rightarrow> int \<Rightarrow> int option"
  pw_lag :: "nat \<Rightarrow> nat"
  pw_gone :: "nat \<Rightarrow> bool"

definition probe_limit :: "waitPortRequest \<Rightarrow> int" where
  "probe_limit req = (if wp_mode req = lit ''http'' then httpProbeTimeout else dialTimeout)"

text \<open>The answer, None when nobody is left to hear it, the number of probes made, and the time it is given.\<close>

function wait_loop ::
  "probe_world \<Rightarrow> waitPortRequest \<Rightarrow> int \<Rightarrow> nat \<Rightarrow> int \<Rightarrow> waitPortResponse option \<times> nat \<times> int" where
  "wait_loop w req deadline k now =
     (case pw_probe w k req (probeBound (deadline - now) (probe_limit req)) of
        (True, took) \<Rightarrow> (Some \<lparr>wr_open = True, wr_exited = False, wr_exitCode = None\<rparr>, Suc k, now + int took)
      | (False, took) \<Rightarrow>
          (case (if wp_pid req = 0 then None else pw_exit w k (wp_pid req)) of
             Some code \<Rightarrow> (Some \<lparr>wr_open = False, wr_exited = True, wr_exitCode = Some code\<rparr>, Suc k, now + int took)
           | None \<Rightarrow>
               if deadline \<le> now + int took then
                 (Some \<lparr>wr_open = False, wr_exited = False, wr_exitCode = None\<rparr>, Suc k, now + int took)
               else if pw_gone w k then (None, Suc k, now + int took)
               else wait_loop w req deadline (Suc k) (now + int took + dialPause + int (pw_lag w k))))"
  by pat_completeness auto
termination
  by (relation "measure (\<lambda>(w, req, deadline, k, now). nat (deadline - now))") (auto simp: dialPause_def)

declare wait_loop.simps [simp del]

definition waitPort_handler ::
  "(byte list \<Rightarrow> jsstring) \<Rightarrow> probe_world \<Rightarrow> int \<Rightarrow> http_request \<Rightarrow> agent \<Rightarrow> http_answer option \<times> nat \<times> int" where
  "waitPort_handler wording w now r a =
     (case Option.bind (decode_body r) waitPortRequest_of of
        None \<Rightarrow> (Some (writeError 400 (js ''bad request: '' @ wording (rq_body r))), 0, now)
      | Some req \<Rightarrow>
          if wp_port req < 1 \<or> 65535 < wp_port req then
            (Some (writeError 400 (js ''port must be between 1 and 65535'')), 0, now)
          else
            (case check_mode wording req of
               Inl m \<Rightarrow> (Some (writeError 400 m), 0, now)
             | Inr req' \<Rightarrow>
                 if wp_pid req' \<noteq> 0 \<and> ag_started a (wp_pid req') = None then
                   (Some (unknown_pid (wp_pid req')), 0, now)
                 else
                   (case wait_loop w req' (now + Milliseconds (wp_timeoutMs req')) 0 now of
                      (answer, probes, later) \<Rightarrow> (map_option (writeJSON \<circ> waitPortResponse_json) answer, probes, later))))"

subsection \<open>A wait ends, with the right answer\<close>

text \<open>Probes keep to the time they are given, and timers fire no later than \<open>lag\<close> after their time.\<close>

definition prompt :: "probe_world \<Rightarrow> int \<Rightarrow> bool" where
  "prompt w lag \<longleftrightarrow> (\<forall>k req bound. 0 < bound \<longrightarrow> int (snd (pw_probe w k req bound)) \<le> bound) \<and> (\<forall>k. int (pw_lag w k) \<le> lag)"

definition probe_at :: "probe_world \<Rightarrow> waitPortRequest \<Rightarrow> nat \<Rightarrow> int \<Rightarrow> bool" where
  "probe_at w req k bound = fst (pw_probe w k req bound)"

lemma probe_limit_pos: "0 < probe_limit req \<and> probe_limit req \<le> httpProbeTimeout"
  by (simp add: probe_limit_def httpProbeTimeout_def dialTimeout_def)

lemma probe_ends:
  assumes "prompt w lag" and "pw_probe w k req (probeBound (deadline - now) (probe_limit req)) = (found, took)"
  shows "now + int took \<le> max deadline (now + probe_limit req)" "now < deadline \<Longrightarrow> now + int took \<le> deadline"
    "now + int took \<le> now + probe_limit req"
proof -
  have "0 < probeBound (deadline - now) (probe_limit req)" using probe_limit_pos[of req] by (simp add: probeBound_def)
  then have "int took \<le> probeBound (deadline - now) (probe_limit req)"
    using assms by (metis prompt_def snd_conv)
  then show "now + int took \<le> max deadline (now + probe_limit req)" "now < deadline \<Longrightarrow> now + int took \<le> deadline"
    "now + int took \<le> now + probe_limit req"
    using probe_limit_pos[of req] by (auto simp: probeBound_def split: if_splits)
qed

text \<open>One round: the last, or the next begins.\<close>

lemma wait_round:
  assumes "wait_loop w req deadline k now = (answer, n, later)"
    and "pw_probe w k req (probeBound (deadline - now) (probe_limit req)) = (found, took)"
  shows "(later = now + int took \<and> n = Suc k)
    \<or> (\<not> found \<and> (if wp_pid req = 0 then None else pw_exit w k (wp_pid req)) = None \<and> now + int took < deadline
       \<and> wait_loop w req deadline (Suc k) (now + int took + dialPause + int (pw_lag w k)) = (answer, n, later))"
  using assms by (cases found) (auto simp: wait_loop.simps[of w req deadline k now] split: if_splits option.splits)

lemma wait_loop_time:
  assumes "prompt w lag" and "wait_loop w req deadline k now = (answer, n, later)"
  shows "(now < deadline \<longrightarrow> later \<le> deadline + dialPause + lag + probe_limit req)
    \<and> (deadline \<le> now \<longrightarrow> later \<le> now + probe_limit req)"
  using assms(2)
proof (induction "nat (deadline - now)" arbitrary: k now rule: less_induct)
  case less
  obtain found took where p: "pw_probe w k req (probeBound (deadline - now) (probe_limit req)) = (found, took)" by fastforce
  note ends = probe_ends[OF assms(1) p]
  have lag: "0 \<le> int (pw_lag w k)" "int (pw_lag w k) \<le> lag" and pause: "0 < dialPause"
    using assms(1) by (simp_all add: prompt_def dialPause_def)
  from wait_round[OF less.prems p] show ?case
  proof (elim disjE conjE)
    assume "later = now + int took"
    then show ?thesis using ends lag pause probe_limit_pos[of req] by linarith
  next
    let ?next = "now + int took + dialPause + int (pw_lag w k)"
    assume early: "now + int took < deadline" and "wait_loop w req deadline (Suc k) ?next = (answer, n, later)"
    from less.hyps[OF _ this(2)] have "(?next < deadline \<longrightarrow> later \<le> deadline + dialPause + lag + probe_limit req)
        \<and> (deadline \<le> ?next \<longrightarrow> later \<le> ?next + probe_limit req)"
      using early lag pause by simp
    then show ?thesis using early lag by linarith
  qed
qed

text \<open>No more probes than pauses that fit, and one: the probes so far leave room for the pauses to come.\<close>

lemma wait_loop_probes:
  assumes "wait_loop w req deadline k now = (answer, n, later)"
  shows "k < n \<and> (if deadline \<le> now then n = Suc k else (int n - int k - 2) * dialPause < deadline - now)"
  using assms
proof (induction "nat (deadline - now)" arbitrary: k now rule: less_induct)
  case less
  obtain found took where p: "pw_probe w k req (probeBound (deadline - now) (probe_limit req)) = (found, took)" by fastforce
  have pause: "0 < dialPause" by (simp add: dialPause_def)
  from wait_round[OF less.prems p] show ?case
  proof (elim disjE conjE)
    assume "n = Suc k"
    then show ?thesis using pause by simp
  next
    let ?next = "now + int took + dialPause + int (pw_lag w k)"
    assume early: "now + int took < deadline" and rec: "wait_loop w req deadline (Suc k) ?next = (answer, n, later)"
    have IH: "Suc k < n \<and> (if deadline \<le> ?next then n = Suc (Suc k)
        else (int n - int (Suc k) - 2) * dialPause < deadline - ?next)"
      by (rule less.hyps[OF _ rec]) (use early pause in simp)
    have "(int n - int k - 2) * dialPause < deadline - now"
    proof (cases "deadline \<le> ?next")
      case True
      then show ?thesis using IH early by simp
    next
      case False
      then have "(int n - int (Suc k) - 2) * dialPause < deadline - ?next" using IH by (simp only: if_False)
      moreover have "(int n - int k - 2) * dialPause = (int n - int (Suc k) - 2) * dialPause + dialPause"
        by (simp add: algebra_simps)
      ultimately show ?thesis by linarith
    qed
    then show ?thesis using IH early by simp
  qed
qed

text \<open>What the answer says is what the last probe found, every probe before it having failed.\<close>

lemma wait_loop_says:
  assumes "wait_loop w req deadline k now = (answer, n, later)"
  shows "case answer of
      None \<Rightarrow> pw_gone w (n - 1)
    | Some a \<Rightarrow>
        if wr_open a then (\<exists>bound. probe_at w req (n - 1) bound)
        else (\<exists>bound. \<not> probe_at w req (n - 1) bound)
          \<and> (if wr_exited a then wp_pid req \<noteq> 0 \<and> wr_exitCode a = pw_exit w (n - 1) (wp_pid req) \<and> wr_exitCode a \<noteq> None
             else deadline \<le> later \<and> wr_exitCode a = None)"
  using assms
proof (induction "nat (deadline - now)" arbitrary: k now rule: less_induct)
  case less
  obtain found took where p: "pw_probe w k req (probeBound (deadline - now) (probe_limit req)) = (found, took)" by fastforce
  have pause: "0 < dialPause" by (simp add: dialPause_def)
  from wait_round[OF less.prems p] show ?case
  proof (elim disjE conjE)
    assume fin: "n = Suc k" "later = now + int took"
    have at: "probe_at w req k (probeBound (deadline - now) (probe_limit req)) = found" by (simp add: probe_at_def p)
    have "wait_loop w req deadline (Suc k) t \<noteq> (a, Suc k, l)" for t a l
      using wait_loop_probes[of w req deadline "Suc k" t a "Suc k" l] by blast
    then show ?thesis
      using less.prems fin p at
      by (cases found) (auto simp: wait_loop.simps[of w req deadline k now] split: if_splits option.splits)
  next
    let ?next = "now + int took + dialPause + int (pw_lag w k)"
    assume "now + int took < deadline" and rec: "wait_loop w req deadline (Suc k) ?next = (answer, n, later)"
    then show ?thesis using less.hyps[OF _ rec] pause by simp
  qed
qed

end
