(* ===== verification/AgentExec.thy ===== *)
theory AgentExec
  imports AgentServer
begin

section \<open>The agent runs a command (\<open>agent/server.go\<close>)\<close>

text \<open>
  \<open>exec\<close> decodes the request, starts the command and streams what it prints.  What the operating
  system does with a command is \<open>launch\<close>, an argument: it cannot be started, or it runs: then each
  pipe is the reads it delivers up to the one that reports its end, the two forwarders take turns
  in the order the scheduler gives them, and \<open>Wait\<close> reports a code and an error.  Whether the deadline had passed
  when the command ended is the run's too; without a deadline the handler's context has none.
\<close>

subsection \<open>Requests\<close>

record execRequest =
  er_cmd :: "byte list list"
  er_stdin :: "byte list option"
  er_timeoutMs :: int

definition execRequest_of :: "json \<Rightarrow> execRequest option" where
  "execRequest_of v =
     (case (go_field go_strings [] v ''cmd'', go_field go_string_pointer None v ''stdin'',
            go_field go_int64 0 v ''timeoutMs'') of
        (Some c, Some i, Some t) \<Rightarrow>
          if go_is_struct v then Some \<lparr>er_cmd = c, er_stdin = i, er_timeoutMs = t\<rparr> else None
      | _ \<Rightarrow> None)"

record command_spec =
  cs_argv :: "byte list list"
  cs_stdin :: "byte list option"
  cs_deadline :: "int option"    \<comment> \<open>nanoseconds from now\<close>

subsection \<open>A run\<close>

type_synonym reads = "(byte list \<times> bool) list"    \<comment> \<open>the bytes of a \<open>Read\<close>, and whether it returned an error\<close>

datatype wait_error = WaitFine | WaitExitError | WaitOther jsstring

record process_run =
  px_pid :: int
  px_stdout :: reads
  px_stderr :: reads
  px_turns :: "bool list"     \<comment> \<open>whose event is sent next: True for stdout\<close>
  px_code :: int
  px_error :: wait_error
  px_late :: bool
  px_stopped :: "bool option"    \<comment> \<open>whether the group outlived its grace, if the context ended while it ran\<close>

datatype launch =
    PipeFailed jsstring
  | CannotStart jsstring
  | Ran process_run

fun forward :: "reads \<Rightarrow> byte list list" where
  "forward [] = []"
| "forward ((b, e) # rest) = (if b \<noteq> [] then [b] else []) @ (if e then [] else forward rest)"

fun interleave :: "bool list \<Rightarrow> 'a list \<Rightarrow> 'a list \<Rightarrow> 'a list" where
  "interleave _ [] ys = ys"
| "interleave _ xs [] = xs"
| "interleave [] xs ys = xs @ ys"
| "interleave (t # ts) (x # xs) (y # ys) =
     (if t then x # interleave ts xs (y # ys) else y # interleave ts (x # xs) ys)"

subsection \<open>Events\<close>

record execEvent =
  ev_pid :: int
  ev_stdout :: "byte list"
  ev_stderr :: "byte list"
  ev_exit :: "int option"
  ev_timedOut :: bool
  ev_error :: jsstring

definition no_event :: execEvent where
  "no_event = \<lparr>ev_pid = 0, ev_stdout = [], ev_stderr = [], ev_exit = None, ev_timedOut = False, ev_error = []\<rparr>"

definition execEvent_json :: "execEvent \<Rightarrow> json" where
  "execEvent_json e =
     JObj (omitempty (ev_pid e = 0) ''pid'' (JNum (of_whole (ev_pid e)))
       @ omitempty (ev_stdout e = []) ''stdout'' (JStr (base64 (ev_stdout e)))
       @ omitempty (ev_stderr e = []) ''stderr'' (JStr (base64 (ev_stderr e)))
       @ omitempty (ev_exit e = None) ''exit'' (JNum (of_whole (the (ev_exit e))))
       @ omitempty (\<not> ev_timedOut e) ''timedOut'' (JBool (ev_timedOut e))
       @ omitempty (ev_error e = []) ''error'' (JStr (ev_error e)))"

definition final_event :: "execRequest \<Rightarrow> process_run \<Rightarrow> execEvent" where
  "final_event req run =
     (case px_error run of
        WaitOther m \<Rightarrow>
          if px_code run = 0 then no_event\<lparr>ev_error := m\<rparr>
          else no_event\<lparr>ev_exit := Some (px_code run), ev_timedOut := 0 < er_timeoutMs req \<and> px_late run\<rparr>
      | _ \<Rightarrow> no_event\<lparr>ev_exit := Some (px_code run), ev_timedOut := 0 < er_timeoutMs req \<and> px_late run\<rparr>)"

definition run_stream :: "execRequest \<Rightarrow> process_run \<Rightarrow> execEvent list" where
  "run_stream req run =
     [no_event\<lparr>ev_pid := px_pid run\<rparr>]
     @ interleave (px_turns run)
         (map (\<lambda>b. no_event\<lparr>ev_stdout := b\<rparr>) (forward (px_stdout run)))
         (map (\<lambda>b. no_event\<lparr>ev_stderr := b\<rparr>) (forward (px_stderr run)))
     @ [final_event req run]"

definition event_stream :: "execEvent list \<Rightarrow> http_answer" where
  "event_stream es =
     \<lparr>ans_status = 200, ans_type = js ''application/x-ndjson'',
      ans_body = concat (map (\<lambda>e. go_Encode (execEvent_json e)) es)\<rparr>"

subsection \<open>The handler\<close>

definition exec_stdin :: "(byte list \<Rightarrow> jsstring) \<Rightarrow> execRequest \<Rightarrow> jsstring + byte list option" where
  "exec_stdin wording req =
     (case er_stdin req of
        None \<Rightarrow> Inr None
      | Some text' \<Rightarrow>
          (case StdEncoding_Decode text' of
             None \<Rightarrow> Inl (js ''stdin is not base64: '' @ wording text')
           | Some bs \<Rightarrow> Inr (Some bs)))"

definition command_of :: "execRequest \<Rightarrow> byte list option \<Rightarrow> command_spec" where
  "command_of req stdin =
     \<lparr>cs_argv = er_cmd req, cs_stdin = stdin,
      cs_deadline = (if 0 < er_timeoutMs req then Some (Milliseconds (er_timeoutMs req)) else None)\<rparr>"

text \<open>\<open>killGroup\<close>: a SIGTERM for the group of the command, and a SIGKILL after \<open>killGrace\<close> if it is still there\<close>

definition killGroup :: "int \<Rightarrow> bool \<Rightarrow> (int \<times> int) list" where
  "killGroup pid survived = [(- pid, 15)] @ (if survived then [(- pid, 9)] else [])"

definition run_signals :: "process_run \<Rightarrow> (int \<times> int) list" where
  "run_signals run = (case px_stopped run of None \<Rightarrow> [] | Some survived \<Rightarrow> killGroup (px_pid run) survived)"

text \<open>The answer, and the run if the command was started.\<close>

definition exec_handler ::
  "(byte list \<Rightarrow> jsstring) \<Rightarrow> (command_spec \<Rightarrow> launch) \<Rightarrow> http_request \<Rightarrow> http_answer \<times> process_run option" where
  "exec_handler wording launch r =
     (case Option.bind (decode_body r) execRequest_of of
        None \<Rightarrow> (writeError 400 (js ''bad request: '' @ wording (rq_body r)), None)
      | Some req \<Rightarrow>
          if er_cmd req = [] then (writeError 400 (js ''cmd must not be empty''), None)
          else
            (case exec_stdin wording req of
               Inl m \<Rightarrow> (writeError 400 m, None)
             | Inr stdin \<Rightarrow>
                 (case launch (command_of req stdin) of
                    PipeFailed m \<Rightarrow> (writeError 500 m, None)
                  | CannotStart m \<Rightarrow>
                      (writeError 500 (js ''cannot start '' @ go_text (hd (er_cmd req)) @ js '': '' @ m), None)
                  | Ran run \<Rightarrow> (event_stream (run_stream req run), Some run))))"

subsection \<open>Base64 there and back\<close>

definition padded :: "jsstring \<Rightarrow> jsstring \<Rightarrow> jsstring \<Rightarrow> bool" where
  "padded s ds pad \<longleftrightarrow> s = ds @ pad \<and> list_all b64_std ds \<and> pad \<in> {[], [61], [61, 61]} \<and> length s mod 4 = 0
     \<and> list_all (\<lambda>c. c < 128 \<and> c \<noteq> 10 \<and> c \<noteq> 13) ds"

lemma b64_encode_shape: "\<forall>b \<in> set bs. b < 256 \<Longrightarrow> \<exists>ds pad. padded (b64_encode bs) ds pad"
proof (induction bs rule: b64_encode.induct)
  have unit: "n < 64 \<Longrightarrow> b64_std (b64_unit n) \<and> b64_unit n < 128 \<and> b64_unit n \<noteq> 10 \<and> b64_unit n \<noteq> 13" for n
    using b64_digit_unit[of n] unfolding b64_std_def by (auto simp: b64_unit_def)
  {
    case (2 a)
    then have "a div 4 < 64" "a mod 4 * 16 < 64" by (auto simp: div_less_iff_less_mult)
    then show ?case using unit
      by (intro exI[of _ "[b64_unit (a div 4), b64_unit (a mod 4 * 16)]"] exI[of _ "[61, 61]"]) (simp add: padded_def)
  next
    case (3 a b)
    then have "a < 256" "b < 256" by simp_all
    then have "a div 4 < 64" "a mod 4 * 16 + b div 16 < 64" "b mod 16 * 4 < 64"
      using pack_less[of "a mod 4" 4 "b div 16" 16] pack_less[of "b mod 16" 16 0 4] byte_parts by simp_all
    then show ?case using unit
      by (intro exI[of _ "[b64_unit (a div 4), b64_unit (a mod 4 * 16 + b div 16), b64_unit (b mod 16 * 4)]"]
          exI[of _ "[61]"]) (simp add: padded_def)
  next
    case (4 a b c bs)
    then obtain ds pad where "padded (b64_encode bs) ds pad" by auto
    note IH = this[unfolded padded_def]
    have "a < 256" "b < 256" "c < 256" using 4 by simp_all
    then have lt: "a div 4 < 64" "a mod 4 * 16 + b div 16 < 64" "b mod 16 * 4 + c div 64 < 64" "c mod 64 < 64"
      using pack_less[of "a mod 4" 4 "b div 16" 16] pack_less[of "b mod 16" 16 "c div 64" 4] byte_parts by simp_all
    have "(4 + length (b64_encode bs)) mod 4 = 0" using IH by (metis mod_add_self1)
    then show ?case using IH unit[OF lt(1)] unit[OF lt(2)] unit[OF lt(3)] unit[OF lt(4)]
      by (intro exI[of _ "b64_unit (a div 4) # b64_unit (a mod 4 * 16 + b div 16) # b64_unit (b mod 16 * 4 + c div 64)
            # b64_unit (c mod 64) # ds"] exI[of _ pad]) (simp add: padded_def)
  }
qed (intro exI[of _ "[]"], simp add: padded_def)

lemma byte_nats: "\<forall>b \<in> set (map unat (bs :: byte list)). b < 256"
  using unsigned_less[where ?'b = 8 and ?'a = nat] by auto

lemma base64_ascii: "\<forall>u \<in> set (base64 bs). u < 128 \<and> u \<noteq> 10 \<and> u \<noteq> 13"
  using b64_encode_shape[OF byte_nats[of bs]] by (auto simp: base64_def padded_def list_all_iff)

lemma well_formed_base64 [simp]: "well_formed (base64 bs)"
  using base64_ascii[of bs] by (intro well_formed_latin) auto

lemma StdEncoding_Decode_base64: "StdEncoding_Decode (utf8_bytes (base64 bs)) = Some bs"
proof -
  obtain ds pad where "padded (base64 bs) ds pad"
    using b64_encode_shape[OF byte_nats[of bs]] unfolding base64_def by blast
  then have s: "base64 bs = ds @ pad" "list_all b64_std ds" "pad \<in> {[], [61], [61, 61]}"
    "length (base64 bs) mod 4 = 0" unfolding padded_def by blast+
  have "map unat (utf8_bytes (base64 bs)) = map (\<lambda>n. unat (of_nat n :: byte)) (base64 bs)"
    using base64_ascii[of bs] by (simp add: utf8_bytes_ascii)
  also have "\<dots> = map id (base64 bs)"
    using base64_ascii[of bs] by (intro map_cong) (auto simp: unat_of_nat)
  finally have t: "filter (\<lambda>c. c \<noteq> 10 \<and> c \<noteq> 13) (map unat (utf8_bytes (base64 bs))) = base64 bs"
    using base64_ascii[of bs] by (simp add: filter_id_conv)
  have nopad: "\<not> b64_std 61" by (simp add: b64_std_def b64_digit_def)
  then have "takeWhile b64_std (ds @ pad) = ds" "dropWhile b64_std (ds @ pad) = pad"
    using s(2,3) by (auto simp: takeWhile_append dropWhile_append list_all_iff)
  moreover have "unbase64 ds = unbase64 (ds @ pad)"
    using s(3) map_filter_padding by (auto simp: unbase64_def List.map_filter_def)
  ultimately have "StdEncoding_Decode (utf8_bytes (base64 bs)) = Some (unbase64 (base64 bs))"
    using s unfolding StdEncoding_Decode_def t Let_def by auto
  then show ?thesis by simp
qed

end
