(* ===== verification/Agent.thy ===== *)
theory Agent
  imports AgentProcess AgentExec
begin

section \<open>The agent as a server (\<open>agent/server.go\<close>: \<open>routes\<close>)\<close>

text \<open>
  \<open>serve\<close> answers one request.  A \<open>pod\<close> is the agent's memory, the file system it works on and the signals it
  has sent; between two requests commands run, files change, processes exit and stalled reads end,
  which are the \<open>pod_event\<close>s.  A \<open>pod_world\<close> makes every choice that is not the agent's, request by request.  Two
  requests served at once are served in some order: they share only the table of processes, the
  count of bounded reads and the files.
\<close>

subsection \<open>A pod\<close>

record pod =
  pod_agent :: agent
  pod_fs :: file_system
  pod_runs :: "int list"              \<comment> \<open>the pids the commands of requests had\<close>
  pod_kills :: "(int \<times> int) list"
  pod_served :: nat

datatype pod_event =
    Exits int int                                   \<comment> \<open>\<open>Wait\<close> returned for this pid with this code\<close>
  | FilesChange "file_system \<Rightarrow> file_system"
  | ReadEnds

primrec happen :: "pod_event \<Rightarrow> pod \<Rightarrow> pod" where
  "happen (Exits pid code) p = p\<lparr>pod_agent := collected pid code (pod_agent p)\<rparr>"
| "happen (FilesChange f) p = p\<lparr>pod_fs := f (pod_fs p)\<rparr>"
| "happen ReadEnds p = p\<lparr>pod_agent := bounded_read_ends (pod_agent p)\<rparr>"

record pod_world =
  wd_wording :: "byte list \<Rightarrow> jsstring"
  wd_launch :: "nat \<Rightarrow> command_spec \<Rightarrow> launch"
  wd_start :: "nat \<Rightarrow> startProcessRequest \<Rightarrow> start_result"
  wd_probes :: "nat \<Rightarrow> probe_world"
  wd_now :: "nat \<Rightarrow> int"
  wd_reads :: "nat \<Rightarrow> file_system \<Rightarrow> read_env"
  wd_stalls :: "nat \<Rightarrow> stall option"
  wd_meanwhile :: "nat \<Rightarrow> pod_event list"

definition new_pod :: "agent \<Rightarrow> file_system \<Rightarrow> pod" where
  "new_pod a fs = \<lparr>pod_agent = a, pod_fs = fs, pod_runs = [], pod_kills = [], pod_served = 0\<rparr>"

subsection \<open>Endpoints\<close>

datatype endpoint =
    Healthz | Exec | ProcessStart | ProcessStatus | ProcessLogs | ProcessSignal | ProcessWaitport
  | PutFile | GetFile | GetFileBounded | GetFileList

definition patterns :: "(string \<times> string \<times> endpoint) list" where
  "patterns =
     [(''GET'', ''/healthz'', Healthz), (''POST'', ''/exec'', Exec), (''POST'', ''/process/start'', ProcessStart),
      (''GET'', ''/process/status'', ProcessStatus), (''GET'', ''/process/logs'', ProcessLogs),
      (''POST'', ''/process/signal'', ProcessSignal), (''POST'', ''/process/waitport'', ProcessWaitport),
      (''PUT'', ''/files'', PutFile), (''GET'', ''/files'', GetFile), (''GET'', ''/files/bounded'', GetFileBounded),
      (''GET'', ''/files/list'', GetFileList)]"

definition method_matches :: "string \<Rightarrow> jsstring \<Rightarrow> bool" where
  "method_matches m meth \<longleftrightarrow> meth = js m \<or> (m = ''GET'' \<and> meth = js ''HEAD'')"

definition plain_text :: "nat \<Rightarrow> string \<Rightarrow> http_answer" where
  "plain_text status t = \<lparr>ans_status = status, ans_type = js ''text/plain; charset=utf-8'', ans_body = lit t @ [10]\<rparr>"

text \<open>\<open>http.ServeMux\<close> on a clean path: the endpoint, or its own answer.\<close>

definition mux :: "http_request \<Rightarrow> http_answer + endpoint" where
  "mux r =
     (case List.find (\<lambda>(m, path, e). rq_path r = js path \<and> method_matches m (rq_method r)) patterns of
        Some (m, path, e) \<Rightarrow> Inr e
      | None \<Rightarrow>
          if list_ex (\<lambda>(m, path, e). rq_path r = js path) patterns then Inl (plain_text 405 ''Method Not Allowed'')
          else Inl (plain_text 404 ''404 page not found''))"

definition with_agent :: "pod \<Rightarrow> http_answer \<times> agent \<Rightarrow> http_answer \<times> pod" where
  "with_agent p r = (fst r, p\<lparr>pod_agent := snd r\<rparr>)"

definition handle :: "pod_world \<Rightarrow> nat \<Rightarrow> endpoint \<Rightarrow> http_request \<Rightarrow> pod \<Rightarrow> http_answer \<times> pod" where
  "handle w n e r p =
     (let a = pod_agent p; fs = pod_fs p in
      case e of
        Healthz \<Rightarrow> (plain_text 200 ''ok'', p)
      | Exec \<Rightarrow>
          (case exec_handler (wd_wording w) (wd_launch w n) r of
             (ans, None) \<Rightarrow> (ans, p)
           | (ans, Some run) \<Rightarrow>
               (ans, p\<lparr>pod_runs := px_pid run # pod_runs p, pod_kills := pod_kills p @ run_signals run\<rparr>))
      | ProcessStart \<Rightarrow> with_agent p (startProcess_handler (wd_wording w) (wd_start w n) r a)
      | ProcessStatus \<Rightarrow> (processStatus_handler r a, p)
      | ProcessLogs \<Rightarrow> (processLogs_handler r fs a, p)
      | ProcessSignal \<Rightarrow>
          (case signalProcess_handler (wd_wording w) r a of
             (ans, sent) \<Rightarrow> (ans, p\<lparr>pod_kills := pod_kills p @ sent\<rparr>))
      | ProcessWaitport \<Rightarrow>
          (case waitPort_handler (wd_wording w) (wd_probes w n) (wd_now w n) r a of
             (None, _) \<Rightarrow> (\<lparr>ans_status = 200, ans_type = [], ans_body = []\<rparr>, p)
           | (Some ans, _) \<Rightarrow> (ans, p))
      | PutFile \<Rightarrow> (case writeFile_handler r fs of (ans, fs') \<Rightarrow> (ans, p\<lparr>pod_fs := fs'\<rparr>))
      | GetFile \<Rightarrow> (readFile_handler r fs, p)
      | GetFileBounded \<Rightarrow> with_agent p (readFileBounded_handler (wd_reads w n fs) (wd_stalls w n) r a)
      | GetFileList \<Rightarrow> (listFiles_handler r fs, p))"

definition headless :: "http_request \<Rightarrow> http_answer \<Rightarrow> http_answer" where
  "headless r ans = (if rq_method r = js ''HEAD'' then ans\<lparr>ans_body := []\<rparr> else ans)"

definition routes :: "pod_world \<Rightarrow> nat \<Rightarrow> http_request \<Rightarrow> pod \<Rightarrow> http_answer \<times> pod" where
  "routes w n r p =
     (case mux r of
        Inl ans \<Rightarrow> (headless r ans, p)
      | Inr e \<Rightarrow>
          (case (if e = Healthz then handle w n e r p else guarded (pod_agent p) r p (handle w n e r p)) of
             (ans, p') \<Rightarrow> (headless r ans, p')))"

definition meanwhile :: "pod_world \<Rightarrow> pod \<Rightarrow> pod" where
  "meanwhile w p = fold happen (wd_meanwhile w (pod_served p)) p"

definition serve :: "pod_world \<Rightarrow> http_request \<Rightarrow> pod \<Rightarrow> http_answer \<times> pod" where
  "serve w r p =
     (case routes w (pod_served p) r (meanwhile w p) of (ans, p') \<Rightarrow> (ans, p'\<lparr>pod_served := Suc (pod_served p)\<rparr>))"

subsection \<open>Who gets through\<close>

lemma collected_hash [simp]: "ag_tokenHash (collected pid code a) = ag_tokenHash a"
  by (simp add: collected_def)

lemma happen_keeps [simp]:
  "ag_tokenHash (pod_agent (happen e p)) = ag_tokenHash (pod_agent p)" "pod_served (happen e p) = pod_served p"
  "pod_kills (happen e p) = pod_kills p"
  by (cases e; simp add: bounded_read_ends_def)+

lemma fold_happen_keeps [simp]:
  "ag_tokenHash (pod_agent (fold happen es p)) = ag_tokenHash (pod_agent p)" "pod_served (fold happen es p) = pod_served p"
  "pod_kills (fold happen es p) = pod_kills p"
  by (induction es arbitrary: p) simp_all

lemma meanwhile_keeps [simp]:
  "ag_tokenHash (pod_agent (meanwhile w p)) = ag_tokenHash (pod_agent p)" "pod_served (meanwhile w p) = pod_served p"
  "pod_kills (meanwhile w p) = pod_kills p"
  by (simp_all add: meanwhile_def)

text \<open>C9: The agent does nothing for a stranger: a request that does not carry a token with the agent's hash
  changes nothing the agent keeps, sends no signal and touches no file, and is answered with 401,
  404 or 405, a \<open>GET\<close> of \<open>/healthz\<close> apart, which says ok to anyone.\<close>

theorem strangers_refused:
  assumes "\<nexists>token. rq_auth r = lit ''Bearer '' @ token \<and> sha256 token = ag_tokenHash (pod_agent p)"
  shows "snd (serve w r p) = (meanwhile w p)\<lparr>pod_served := Suc (pod_served p)\<rparr>
    \<and> (mux r = Inr Healthz \<or> ans_status (fst (serve w r p)) \<in> {401, 404, 405})"
proof -
  have auth: "\<exists>ans. authenticated (pod_agent (meanwhile w p)) r = Some ans \<and> ans_status ans = 401"
    using assms authenticated_None[of "pod_agent (meanwhile w p)" r]
    by (auto simp: authenticated_def writeError_def split: option.splits)
  have strange: "e \<noteq> Healthz \<Longrightarrow> \<exists>ans. guarded (pod_agent (meanwhile w p)) r (meanwhile w p) x = (ans, meanwhile w p)
      \<and> ans_status ans = 401" for e x
    using auth by (auto simp: guarded_def)
  show ?thesis
  proof (cases "mux r")
    case (Inl ans)
    then have "ans_status ans \<in> {404, 405}"
      by (auto simp: mux_def plain_text_def split: option.splits if_splits)
    with Inl show ?thesis by (auto simp: serve_def routes_def headless_def)
  next
    case (Inr e)
    show ?thesis
    proof (cases "e = Healthz")
      case True
      with Inr show ?thesis by (simp add: serve_def routes_def headless_def handle_def Let_def)
    next
      case False
      from strange[OF False, of "handle w (pod_served p) e r (meanwhile w p)"]
      obtain ans where "guarded (pod_agent (meanwhile w p)) r (meanwhile w p) (handle w (pod_served p) e r (meanwhile w p))
          = (ans, meanwhile w p)" "ans_status ans = 401" by blast
      with Inr False show ?thesis by (simp add: serve_def routes_def headless_def)
    qed
  qed
qed

definition demo_run :: process_run where
  "demo_run = \<lparr>px_pid = 7, px_stdout = [([104, 105], False), ([], True)], px_stderr = [([], True)], px_turns = [],
     px_code = 3, px_error = WaitExitError, px_late = False, px_stopped = None\<rparr>"

definition demo_world :: pod_world where
  "demo_world = \<lparr>wd_wording = (\<lambda>_. []), wd_launch = (\<lambda>_ _. Ran demo_run), wd_start = (\<lambda>_ _. Started 7 [slash]),
     wd_probes = (\<lambda>_. \<lparr>pw_probe = (\<lambda>k _ _. (k = 2, 0)), pw_exit = (\<lambda>_ _. None), pw_lag = (\<lambda>_. 0), pw_gone = (\<lambda>_. False)\<rparr>),
     wd_now = (\<lambda>_. 0), wd_reads = (\<lambda>_ fs. \<lparr>re_fs = (\<lambda>_. fs), re_ask = (\<lambda>_. 100), re_late = (\<lambda>_. False)\<rparr>),
     wd_stalls = (\<lambda>_. None), wd_meanwhile = (\<lambda>_. [])\<rparr>"

definition demo_stranger :: http_request where
  "demo_stranger = \<lparr>rq_method = js ''POST'', rq_path = js ''/exec'', rq_query = [], rq_auth = [], rq_body = []\<rparr>"

lemma strangers_refused_witness:
  "ans_status (fst (serve demo_world demo_stranger (new_pod (newAgent []) demo_fs))) \<in> {401, 404, 405}"
proof -
  have "\<nexists>token. rq_auth demo_stranger = lit ''Bearer '' @ token
      \<and> sha256 token = ag_tokenHash (pod_agent (new_pod (newAgent []) demo_fs))"
    by (simp add: demo_stranger_def lit_ascii ascii_def js_def)
  moreover have "mux demo_stranger = Inr Exec"
    by (simp add: mux_def patterns_def method_matches_def demo_stranger_def)
  ultimately show ?thesis using strangers_refused[of demo_stranger "new_pod (newAgent []) demo_fs" demo_world] by simp
qed

end
