(* ===== verification/AgentLink.thy ===== *)
theory AgentLink
  imports Agent Sandbox
begin

section \<open>The adapter and the agent together\<close>

text \<open>
  A \<open>platform\<close> whose answers from one address are the agent's: \<open>hosted\<close> hands every request of the adapter
  to \<open>serve\<close>, in the order they were sent, and cuts what the agent writes into chunks as the network likes.
  The pod a request finds is the one the requests before it left (\<open>pod_after\<close>).  The theorems run
  the adapter's side (\<open>src/channel.ts\<close>) against the agent's (\<open>agent/*.go\<close>): what is written on one side is
  what arrives on the other, byte for byte.
\<close>

subsection \<open>The network between them\<close>

definition body_bytes :: "request_body option \<Rightarrow> byte list" where
  "body_bytes b =
     (case b of
        Some (JsonBody v) \<Rightarrow> utf8_bytes (JSON_stringify v)
      | Some (TextBody t) \<Rightarrow> utf8_bytes t
      | Some (BytesBody bs) \<Rightarrow> bs
      | _ \<Rightarrow> [])"

definition arrive :: "AgentEndpoint \<Rightarrow> request \<Rightarrow> http_request" where
  "arrive ep req =
     (let target = drop (length (ep_url ep)) (req_url req) in
      \<lparr>rq_method = req_method req, rq_path = takeWhile (\<lambda>c. c \<noteq> 63) target,
       rq_query = drop 1 (dropWhile (\<lambda>c. c \<noteq> 63) target),
       rq_auth = (case obj_get (req_headers req) (js ''authorization'') of Some v \<Rightarrow> map of_nat v | None \<Rightarrow> []),
       rq_body = body_bytes (req_body req)\<rparr>)"

fun cut_at :: "nat list \<Rightarrow> 'a list \<Rightarrow> 'a list list" where
  "cut_at [] bs = [bs]"
| "cut_at (n # ns) bs = take n bs # cut_at ns (drop n bs)"

lemma concat_cut_at [simp]: "concat (cut_at ns bs) = bs"
  by (induction ns bs rule: cut_at.induct) simp_all

definition deliver :: "nat list \<Rightarrow> http_answer \<Rightarrow> response" where
  "deliver cuts ans =
     \<lparr>rsp_status = ans_status ans, rsp_statusText = [],
      rsp_body = Some \<lparr>chunks = cut_at cuts (ans_body ans), ending = None\<rparr>\<rparr>"

definition at_agent :: "AgentEndpoint \<Rightarrow> request \<Rightarrow> bool" where
  "at_agent ep req \<longleftrightarrow> startsWith (ep_url ep) (req_url req)"

definition pod_after :: "pod_world \<Rightarrow> AgentEndpoint \<Rightarrow> pod \<Rightarrow> request list \<Rightarrow> pod" where
  "pod_after w ep p l = foldl (\<lambda>p req. if at_agent ep req then snd (serve w (arrive ep req) p) else p) p l"

definition hosted ::
  "pod_world \<Rightarrow> (request list \<Rightarrow> nat list \<times> nat) \<Rightarrow> AgentEndpoint \<Rightarrow> pod \<Rightarrow> platform \<Rightarrow> platform" where
  "hosted w net ep p pf =
     pf\<lparr>pf_fetch := \<lambda>l req.
          if at_agent ep req then
            (Inr (deliver (fst (net l)) (fst (serve w (arrive ep req) (pod_after w ep p l)))), snd (net l))
          else pf_fetch pf l req\<rparr>"

definition pod_at :: "pod_world \<Rightarrow> AgentEndpoint \<Rightarrow> pod \<Rightarrow> 'a net_state_scheme \<Rightarrow> pod" where
  "pod_at w ep p s = pod_after w ep p (log s)"

definition sent :: "(request list \<Rightarrow> nat list \<times> nat) \<Rightarrow> request \<Rightarrow> 'a net_state_scheme \<Rightarrow> 'a net_state_scheme" where
  "sent net req s = s\<lparr>log := log s @ [req], clock := clock s + snd (net (log s))\<rparr>"

lemma fetch_hosted:
  "at_agent ep req \<Longrightarrow> fetch (hosted w net ep p pf) req s =
     (Inr (deliver (fst (net (log s))) (fst (serve w (arrive ep req) (pod_at w ep p s)))), sent net req s)"
  by (simp add: fetch_def hosted_def pod_at_def sent_def)

lemma pod_at_sent: "at_agent ep req \<Longrightarrow> pod_at w ep p (sent net req s) = snd (serve w (arrive ep req) (pod_at w ep p s))"
  by (simp add: pod_at_def pod_after_def sent_def)

lemma at_agent_requests [simp]: "at_agent ep (exec_request ep body signal)" "at_agent ep (plain_request ep meth path payload signal)"
  by (simp_all add: at_agent_def exec_request_def plain_request_def)

lemma deliver_simps [simp]:
  "rsp_status (deliver cuts ans) = ans_status ans" "rsp_ok (deliver cuts ans) \<longleftrightarrow> 200 \<le> ans_status ans \<and> ans_status ans \<le> 299"
  "response_bytes (deliver cuts ans) = Inr (ans_body ans)"
  "rsp_body (deliver cuts ans) = Some \<lparr>chunks = cut_at cuts (ans_body ans), ending = None\<rparr>"
  by (simp_all add: deliver_def rsp_ok_def response_bytes_def stream_bytes_def)

subsection \<open>What the agent reads of a request\<close>

text \<open>The token of an endpoint the agent admits: its characters are those of a header, and its hash is the agent's.\<close>

definition admitted :: "AgentEndpoint \<Rightarrow> pod \<Rightarrow> bool" where
  "admitted ep p \<longleftrightarrow> ascii (ep_token ep) \<and> sha256 (utf8_bytes (ep_token ep)) = ag_tokenHash (pod_agent p)"

lemma bearer_bytes: "ascii (ep_token ep) \<Longrightarrow> map of_nat (snd (bearer ep)) = lit ''Bearer '' @ utf8_bytes (ep_token ep)"
  by (simp add: bearer_def ascii_def utf8_bytes_ascii lit_ascii js_def)

lemma arrive_exec:
  assumes "ascii (ep_token ep)"
  shows "arrive ep (exec_request ep body signal) =
    \<lparr>rq_method = js ''POST'', rq_path = js ''/exec'', rq_query = [], rq_auth = lit ''Bearer '' @ utf8_bytes (ep_token ep),
     rq_body = utf8_bytes (JSON_stringify body)\<rparr>"
  using bearer_bytes[OF assms]
  by (simp add: arrive_def exec_request_def body_bytes_def json_header_def bearer_def) (simp add: js_def)

definition url_path :: "jsstring \<Rightarrow> jsstring" where "url_path u = takeWhile (\<lambda>c. c \<noteq> 63) u"
definition url_query :: "jsstring \<Rightarrow> jsstring" where "url_query u = drop 1 (dropWhile (\<lambda>c. c \<noteq> 63) u)"

lemma arrive_plain:
  assumes "ascii (ep_token ep)"
  shows "arrive ep (plain_request ep meth path payload signal) =
    \<lparr>rq_method = meth, rq_path = url_path path, rq_query = url_query path,
     rq_auth = lit ''Bearer '' @ utf8_bytes (ep_token ep), rq_body = body_bytes (payload_body payload)\<rparr>"
  using bearer_bytes[OF assms]
  by (simp add: arrive_def plain_request_def url_path_def url_query_def bearer_def)

lemma serve_admitted:
  assumes "admitted ep p" and "rq_auth r = lit ''Bearer '' @ utf8_bytes (ep_token ep)" and "mux r = Inr e"
    and "rq_method r \<noteq> js ''HEAD''"
  shows "serve w r p =
    (case handle w (pod_served p) e r (meanwhile w p) of (ans, p') \<Rightarrow> (ans, p'\<lparr>pod_served := Suc (pod_served p)\<rparr>))"
proof -
  have "authenticated (pod_agent (meanwhile w p)) r = None"
    using assms(1,2) unfolding authenticated_None admitted_def by auto
  then show ?thesis using assms(3,4) by (simp add: serve_def routes_def guarded_def headless_def split: prod.split)
qed

subsection \<open>The token\<close>

lemma ascii_agentToken: "ascii (agentToken secret sid)"
  by (auto simp: ascii_def agentToken_def dest: hex_of_ascii)

lemma admitted_pod:
  assumes "agent_of_env (utf8_bytes (token_hash token)) = Some a" and "ascii token" and "ep_token ep = token"
  shows "admitted ep (new_pod a fs)"
  using assms agent_of_env_hash[of "sha256 (utf8_bytes token)"]
  by (auto simp: token_hash_def admitted_def new_pod_def newAgent_def)

lemma handle_keeps_hash [simp]: "ag_tokenHash (pod_agent (snd (handle w n e r p))) = ag_tokenHash (pod_agent p)"
  by (cases e)
    (auto simp: handle_def Let_def with_agent_def startProcess_handler_def readFileBounded_handler_def
      split: prod.splits option.splits sum.splits start_result.splits)

lemma serve_keeps_hash: "ag_tokenHash (pod_agent (snd (serve w r p))) = ag_tokenHash (pod_agent p)"
proof -
  have "ag_tokenHash (pod_agent (snd (routes w n r q))) = ag_tokenHash (pod_agent q)" for n q
    using handle_keeps_hash[of w n _ r q]
    by (auto simp: routes_def guarded_def split: sum.split prod.split option.split if_split) (metis snd_conv handle_keeps_hash)+
  then show ?thesis by (auto simp: serve_def split: prod.split) (metis snd_conv meanwhile_keeps(1))
qed

lemma pod_after_keeps_hash: "ag_tokenHash (pod_agent (pod_after w ep p l)) = ag_tokenHash (pod_agent p)"
  by (induction l rule: rev_induct) (simp_all add: pod_after_def serve_keeps_hash)

lemma admitted_later: "admitted ep p \<Longrightarrow> admitted ep (pod_at w ep p s)"
  by (simp add: admitted_def pod_at_def pod_after_keeps_hash)

subsection \<open>What the adapter reads of an answer\<close>

lemma response_text_json: "texts_ok v \<Longrightarrow> ans_body ans = go_Encode v \<Longrightarrow> response_text (deliver cuts ans) = Inr (go_json v @ [10])"
  by (simp add: response_text_def body_text_Encode)

lemma response_json_deliver: "texts_ok v \<Longrightarrow> ans_body ans = go_Encode v \<Longrightarrow> response_json pf (deliver cuts ans) = Inr v"
  using go_json_parse[of v "[10]"] by (simp add: response_json_def response_text_json skip_ws_def json_space_def)

lemma refusalOf_deliver:
  assumes "well_formed m"
  shows "refusalOf (deliver cuts (writeCodedError status code m)) = Inr
    \<lparr>refusal_code = (if code = [] then None else Some (js code)),
     refusal_message = concat [js ''HTTP '', show_nat status, js '': '', m]\<rparr>"
proof -
  have ok: "texts_ok (apiError (js code) m)" using assms by (simp add: apiError_def)
  have "ans_body (writeCodedError status code m) = go_Encode (apiError (js code) m)" by (simp add: writeCodedError_def)
  note body = response_text_json[OF ok this, of cuts]
  have "JSON_parse (go_json (apiError (js code) m) @ [10]) = Some (apiError (js code) m)"
    using go_json_parse[OF ok, of "[10]"] by (simp add: skip_ws_def json_space_def)
  then show ?thesis
    by (simp add: refusalOf_def body) (simp add: writeCodedError_def apiError_def str_at_def json_at_def)
qed

subsection \<open>Endpoints\<close>

lemma mux_endpoints:
  "rq_method r = js ''PUT'' \<Longrightarrow> rq_path r = js ''/files'' \<Longrightarrow> mux r = Inr PutFile"
  "rq_method r = js ''GET'' \<Longrightarrow> rq_path r = js ''/files'' \<Longrightarrow> mux r = Inr GetFile"
  "rq_method r = js ''GET'' \<Longrightarrow> rq_path r = js ''/files/bounded'' \<Longrightarrow> mux r = Inr GetFileBounded"
  "rq_method r = js ''GET'' \<Longrightarrow> rq_path r = js ''/files/list'' \<Longrightarrow> mux r = Inr GetFileList"
  "rq_method r = js ''POST'' \<Longrightarrow> rq_path r = js ''/exec'' \<Longrightarrow> mux r = Inr Exec"
  "rq_method r = js ''POST'' \<Longrightarrow> rq_path r = js ''/process/start'' \<Longrightarrow> mux r = Inr ProcessStart"
  "rq_method r = js ''GET'' \<Longrightarrow> rq_path r = js ''/process/status'' \<Longrightarrow> mux r = Inr ProcessStatus"
  "rq_method r = js ''GET'' \<Longrightarrow> rq_path r = js ''/process/logs'' \<Longrightarrow> mux r = Inr ProcessLogs"
  "rq_method r = js ''POST'' \<Longrightarrow> rq_path r = js ''/process/signal'' \<Longrightarrow> mux r = Inr ProcessSignal"
  "rq_method r = js ''POST'' \<Longrightarrow> rq_path r = js ''/process/waitport'' \<Longrightarrow> mux r = Inr ProcessWaitport"
  by (simp_all add: mux_def patterns_def method_matches_def)

text \<open>One request of the adapter's plain kind, and the handler that answers it.\<close>

lemma agent_request_hosted:
  assumes "admitted ep p" and "mux (arrive ep (plain_request ep meth path payload signal)) = Inr e"
    and "meth \<noteq> js ''HEAD''"
  shows "agent_request (hosted w net ep p pf) ep what meth path payload signal s =
     (let q = pod_at w ep p s; req = plain_request ep meth path payload signal
      in (Inr (deliver (fst (net (log s))) (fst (handle w (pod_served q) e (arrive ep req) (meanwhile w q)))),
          sent net req s))"
    and "pod_at w ep p (sent net (plain_request ep meth path payload signal) s) =
      (let q = pod_at w ep p s
       in (snd (handle w (pod_served q) e (arrive ep (plain_request ep meth path payload signal)) (meanwhile w q)))
            \<lparr>pod_served := Suc (pod_served q)\<rparr>)"
proof -
  have token: "ascii (ep_token ep)" using assms(1) by (simp add: admitted_def)
  let ?req = "plain_request ep meth path payload signal"
  note q = admitted_later[OF assms(1), where w = w and s = s]
  have "rq_auth (arrive ep ?req) = lit ''Bearer '' @ utf8_bytes (ep_token ep)" "rq_method (arrive ep ?req) \<noteq> js ''HEAD''"
    using assms(3) by (simp_all add: arrive_plain[OF token])
  note srv = serve_admitted[OF q this(1) assms(2) this(2), of w]
  show "agent_request (hosted w net ep p pf) ep what meth path payload signal s =
     (let q = pod_at w ep p s; req = plain_request ep meth path payload signal
      in (Inr (deliver (fst (net (log s))) (fst (handle w (pod_served q) e (arrive ep req) (meanwhile w q)))),
          sent net req s))"
    by (simp add: agent_request_def io_eval fetch_hosted srv Let_def split: prod.split)
  show "pod_at w ep p (sent net ?req s) =
      (let q = pod_at w ep p s
       in (snd (handle w (pod_served q) e (arrive ep ?req) (meanwhile w q)))\<lparr>pod_served := Suc (pod_served q)\<rparr>)"
    by (simp add: pod_at_sent srv Let_def split: prod.split)
qed

definition demo_agent :: agent where
  "demo_agent = newAgent (sha256 (utf8_bytes (ep_token demo_endpoint)))"

lemma demo_admitted: "admitted demo_endpoint (new_pod demo_agent fs)"
  by (simp add: admitted_def demo_endpoint_def new_pod_def demo_agent_def newAgent_def ascii_def js_def)

end
