(* ===== verification/AgentCommands.thy ===== *)
theory AgentCommands
  imports AgentLink
begin

section \<open>A command, from the adapter to the process and back\<close>

text \<open>
  The request \<open>agent_run\<close> sends is decoded by the agent into the words, the standard input and the deadline the
  adapter meant, and the lines the agent streams are read back by \<open>agent_run\<close> as the two outputs and
  the exit status.
\<close>

subsection \<open>The request\<close>

definition texts16 :: "jsstring list \<Rightarrow> bool" where
  "texts16 ts \<longleftrightarrow> list_all unit16 ts"

definition whole_ms :: "RunOptions \<Rightarrow> int option \<Rightarrow> bool" where
  "whole_ms options ms \<longleftrightarrow> run_timeoutMs options = map_option of_whole ms
     \<and> (case ms of None \<Rightarrow> True | Some i \<Rightarrow> - (2 ^ 63) \<le> i \<and> i < 2 ^ 63)"

lemma unit16_ascii: "\<forall>u \<in> set s. u < 128 \<and> Q u \<Longrightarrow> unit16 s"
  by (auto simp: unit16_def list_all_iff)

lemma plain_run_body:
  assumes "texts16 command" and "whole_ms options ms"
  shows "plain_json (run_body command options)"
proof -
  have "unit16 (base64 bs)" for bs using base64_ascii[of bs] by (auto simp: unit16_def list_all_iff)
  moreover have "unit16 (js s)" for s using js_unit[of _ s] by (fastforce simp: unit16_def list_all_iff)
  ultimately show ?thesis
    using assms
    by (auto simp: run_body_def texts16_def whole_ms_def list_all_iff isInteger_def
        split: option.splits)
qed

lemma go_elements_strings: "go_elements (map JStr ts) = Some (map utf8_bytes ts)"
  by (induction ts) (simp_all add: go_string_def)

lemma fold_keys: "go_fold (js ''cmd'') = js ''CMD''" "go_fold (js ''stdin'') = js ''STDIN''"
  "go_fold (js ''timeoutMs'') = js ''TIMEOUTMS''"
  by (simp_all add: go_fold_def js_def)

lemma execRequest_of_body:
  assumes "whole_ms options ms"
  shows "execRequest_of (run_body command options) = Some
    \<lparr>er_cmd = map utf8_bytes command,
     er_stdin = map_option (\<lambda>c. utf8_bytes (base64 (content_bytes c))) (run_stdin options),
     er_timeoutMs = (case ms of None \<Rightarrow> 0 | Some i \<Rightarrow> i)\<rparr>"
  using assms
  by (auto simp: execRequest_of_def run_body_def go_field_def go_member_def go_is_struct_def fold_keys go_strings_def
      go_elements_strings go_string_pointer_def go_int64_def whole_ms_def split: option.splits)

definition spec_of :: "jsstring list \<Rightarrow> RunOptions \<Rightarrow> int option \<Rightarrow> command_spec" where
  "spec_of command options ms =
     \<lparr>cs_argv = map utf8_bytes command, cs_stdin = map_option content_bytes (run_stdin options),
      cs_deadline = (case ms of Some i \<Rightarrow> if 0 < i then Some (Milliseconds i) else None | None \<Rightarrow> None)\<rparr>"

definition asked :: "jsstring list \<Rightarrow> RunOptions \<Rightarrow> int option \<Rightarrow> execRequest" where
  "asked command options ms =
     \<lparr>er_cmd = map utf8_bytes command,
      er_stdin = map_option (\<lambda>c. utf8_bytes (base64 (content_bytes c))) (run_stdin options),
      er_timeoutMs = (case ms of None \<Rightarrow> 0 | Some i \<Rightarrow> i)\<rparr>"

lemma exec_handler_run:
  assumes "rq_body r = utf8_bytes (JSON_stringify (run_body command options))" and "length (rq_body r) \<le> maxRequestBytes"
    and "command \<noteq> []" and "texts16 command" and "whole_ms options ms"
  shows "exec_handler wording launch r =
    (case launch (spec_of command options ms) of
       PipeFailed m \<Rightarrow> (writeError 500 m, None)
     | CannotStart m \<Rightarrow> (writeError 500 (js ''cannot start '' @ go_text (utf8_bytes (hd command)) @ js '': '' @ m), None)
     | Ran run \<Rightarrow> (event_stream (run_stream (asked command options ms) run), Some run))"
proof -
  have "decode_body r = Some (run_body command options)"
    using assms(1,2) go_Decode_stringify[OF plain_run_body[OF assms(4,5)]] by (simp add: decode_body_def)
  then have req: "Option.bind (decode_body r) execRequest_of = Some (asked command options ms)"
    using execRequest_of_body[OF assms(5), of command] by (simp add: asked_def)
  have "exec_stdin wording (asked command options ms) = Inr (map_option content_bytes (run_stdin options))"
    by (cases "run_stdin options") (simp_all add: exec_stdin_def asked_def StdEncoding_Decode_base64)
  moreover have "command_of (asked command options ms) (map_option content_bytes (run_stdin options)) = spec_of command options ms"
    by (auto simp: command_of_def asked_def spec_of_def split: option.split)
  moreover have "hd (er_cmd (asked command options ms)) = utf8_bytes (hd command)" "er_cmd (asked command options ms) \<noteq> []"
    using assms(3) by (simp_all add: asked_def hd_map)
  ultimately show ?thesis by (simp add: exec_handler_def req split: launch.split)
qed

subsection \<open>The events\<close>

definition out_event :: "byte list \<Rightarrow> execEvent" where "out_event b = no_event\<lparr>ev_stdout := b\<rparr>"
definition err_event :: "byte list \<Rightarrow> execEvent" where "err_event b = no_event\<lparr>ev_stderr := b\<rparr>"

lemma is_record_event: "well_formed (ev_error e) \<Longrightarrow> is_record (execEvent_json e)"
  by (auto simp: is_record_def execEvent_json_def omitempty_def isInteger_def)

lemma read_events [simp]:
  "asEvent (execEvent_json (no_event\<lparr>ev_pid := pid\<rparr>)) = Inr \<lparr>ae_stdout = None, ae_stderr = None, ae_exit = None,
     ae_timedOut = False, ae_error = None\<rparr>"
  "asEvent (execEvent_json (out_event b)) = Inr \<lparr>ae_stdout = (if b = [] then None else Some (base64 b)), ae_stderr = None,
     ae_exit = None, ae_timedOut = False, ae_error = None\<rparr>"
  "asEvent (execEvent_json (err_event b)) = Inr \<lparr>ae_stdout = None, ae_stderr = (if b = [] then None else Some (base64 b)),
     ae_exit = None, ae_timedOut = False, ae_error = None\<rparr>"
  "asEvent (execEvent_json (no_event\<lparr>ev_exit := Some code, ev_timedOut := late\<rparr>)) = Inr \<lparr>ae_stdout = None,
     ae_stderr = None, ae_exit = Some (of_whole code), ae_timedOut = late, ae_error = None\<rparr>"
  "m \<noteq> [] \<Longrightarrow> asEvent (execEvent_json (no_event\<lparr>ev_error := m\<rparr>)) = Inr \<lparr>ae_stdout = None, ae_stderr = None,
     ae_exit = None, ae_timedOut = False, ae_error = Some m\<rparr>"
  by (simp_all add: execEvent_json_def omitempty_def no_event_def out_event_def err_event_def asEvent_def is_object_def
      str_at_def num_at_def is_true_def json_at_def)

lemma run_events_interleaved:
  "run_events (map execEvent_json (interleave ts (map out_event xs) (map err_event ys)) @ vs) broken o1 e1 ex =
     run_events vs broken (o1 @ concat xs) (e1 @ concat ys) ex"
proof -
  have outs: "run_events (map execEvent_json (map out_event xs) @ vs) broken o1 e1 ex =
      run_events vs broken (o1 @ concat xs) e1 ex" for xs vs o1 e1
    by (induction xs arbitrary: o1) (simp_all add: Let_def)
  have errs: "run_events (map execEvent_json (map err_event ys) @ vs) broken o1 e1 ex =
      run_events vs broken o1 (e1 @ concat ys) ex" for ys vs o1 e1
    by (induction ys arbitrary: e1) (simp_all add: Let_def)
  have none: "interleave ts [] ys = ys" "interleave ts xs [] = xs" "interleave [] xs ys = xs @ ys"
    for ts and xs ys :: "execEvent list" by (cases xs; cases ys; simp)+
  show ?thesis
  proof (induction ts arbitrary: xs ys o1 e1)
    case Nil
    show ?case using outs[of xs "map execEvent_json (map err_event ys) @ vs" o1 e1] errs[of ys vs "o1 @ concat xs" e1]
      by (simp add: none del: map_map)
  next
    case (Cons t ts)
    show ?case
    proof (cases "xs = [] \<or> ys = []")
      case True
      then show ?thesis using outs[of xs vs o1 e1] errs[of ys vs o1 e1] by (auto simp: none simp del: map_map)
    next
      case False
      then obtain x xt y yt where xs: "xs = x # xt" and ys: "ys = y # yt" by (meson neq_Nil_conv)
      show ?thesis
        using Cons[of xt ys "o1 @ x" e1] Cons[of xs yt o1 "e1 @ y"] unfolding xs ys
        by (cases t; cases "x = []"; cases "y = []") (simp_all add: Let_def)
    qed
  qed
qed

subsection \<open>The command\<close>

lemma mux_of [simp]:
  "mux \<lparr>rq_method = js ''POST'', rq_path = js ''/exec'', rq_query = q, rq_auth = a, rq_body = b\<rparr> = Inr Exec"
  by (simp add: mux_def patterns_def method_matches_def)

definition exited :: "process_run \<Rightarrow> bool" where
  "exited run \<longleftrightarrow> (case px_error run of WaitOther _ \<Rightarrow> False | _ \<Rightarrow> True)"

lemma run_stream_exited:
  assumes "exited run"
  shows "run_stream req run = [no_event\<lparr>ev_pid := px_pid run\<rparr>]
     @ interleave (px_turns run) (map out_event (forward (px_stdout run))) (map err_event (forward (px_stderr run)))
     @ [no_event\<lparr>ev_exit := Some (px_code run), ev_timedOut := 0 < er_timeoutMs req \<and> px_late run\<rparr>]"
proof -
  have "out_event = (\<lambda>b. no_event\<lparr>ev_stdout := b\<rparr>)" "err_event = (\<lambda>b. no_event\<lparr>ev_stderr := b\<rparr>)"
    by (simp_all add: fun_eq_iff out_event_def err_event_def)
  then show ?thesis
    using assms by (auto simp: run_stream_def final_event_def exited_def split: wait_error.splits)
qed

lemma event_stream_status [simp]: "ans_status (event_stream es) = 200"
  by (simp add: event_stream_def)

lemma set_interleave: "set (interleave ts xs ys) = set xs \<union> set ys"
  by (induction ts xs ys rule: interleave.induct) auto

lemma events_read:
  assumes "exited run"
  shows "readNdjson syn \<lparr>chunks = cut_at cuts (ans_body (event_stream (run_stream req run))), ending = None\<rparr> =
      (map execEvent_json (run_stream req run), None)"
proof (rule readNdjson_records)
  show "list_all is_record (map execEvent_json (run_stream req run))"
    unfolding run_stream_exited[OF assms] list_all_iff
    by (auto simp: set_interleave out_event_def err_event_def no_event_def intro!: is_record_event)
qed (simp add: event_stream_def comp_def)

lemma events_run:
  assumes "exited run"
  shows "run_events (map execEvent_json (run_stream req run)) None [] [] None =
    Inr (concat (forward (px_stdout run)), concat (forward (px_stderr run)),
      Some \<lparr>ae_stdout = None, ae_stderr = None, ae_exit = Some (of_whole (px_code run)),
        ae_timedOut = 0 < er_timeoutMs req \<and> px_late run, ae_error = None\<rparr>)"
  using run_events_interleaved[of "px_turns run" "forward (px_stdout run)" "forward (px_stderr run)"
      "[execEvent_json (no_event\<lparr>ev_exit := Some (px_code run), ev_timedOut := 0 < er_timeoutMs req \<and> px_late run\<rparr>)]"
      None "[]" "[]" None]
  unfolding run_stream_exited[OF assms] by (simp add: Let_def del: map_map)

text \<open>What a pipe delivers: the bytes of its reads up to and with the one that reports the end.\<close>

definition piped :: "reads \<Rightarrow> byte list" where
  "piped rs = concat (map fst (take (Suc (length (takeWhile (\<lambda>r. \<not> snd r) rs))) rs))"

lemma concat_forward: "concat (forward rs) = piped rs"
  by (induction rs rule: forward.induct) (auto simp: piped_def)

definition run_signal :: "RunOptions \<Rightarrow> jsnum option" where
  "run_signal options = map_option (\<lambda>n. num_add n (of_whole TIMEOUT_SLACK_MS)) (run_timeoutMs options)"

text \<open>C4: A command crosses two programs and comes back whole: the words, the standard input and the deadline the
  adapter was given are the ones the agent starts the process with, and however the process's reads, the
  two forwarders and the network cut and interleave its output, the caller gets each stream
  byte for byte as the process wrote it and the code it ended with, or, when its deadline had
  passed, the timeout.\<close>

theorem command_end_to_end:
  assumes "admitted ep p" and "command \<noteq> []" and "texts16 command" and "whole_ms options ms"
    and "length (utf8_bytes (JSON_stringify (run_body command options))) \<le> maxRequestBytes"
    and "wd_launch w (pod_served (pod_at w ep p s)) (spec_of command options ms) = Ran run" and "exited run"
  shows "agent_run (hosted w net ep p pf) ep command options s =
    (if (case ms of Some i \<Rightarrow> 0 < i | None \<Rightarrow> False) \<and> px_late run then
       Inl (CommandTimeoutError (concat [js ''Command timed out after '',
         (case run_timeoutMs options of None \<Rightarrow> js ''undefined'' | Some n \<Rightarrow> num_String n),
         js ''ms in '', ep_where ep, js '': '', programOf command]))
     else Inr \<lparr>cr_stdout = buffer_text (piped (px_stdout run)),
       cr_stderr = buffer_text (piped (px_stderr run)), cr_exitCode = of_whole (px_code run)\<rparr>,
     sent net (exec_request ep (run_body command options) (run_signal options)) s)"
proof -
  let ?req = "exec_request ep (run_body command options) (run_signal options)"
  let ?q = "pod_at w ep p s"
  have token: "ascii (ep_token ep)" using assms(1) by (simp add: admitted_def)
  have "fst (serve w (arrive ep ?req) ?q) = fst (exec_handler (wd_wording w) (wd_launch w (pod_served ?q)) (arrive ep ?req))"
    using serve_admitted[OF admitted_later[OF assms(1), where w = w and s = s], of "arrive ep ?req" Exec w]
    by (simp add: arrive_exec[OF token] handle_def split: prod.split option.split)
  also have "\<dots> = event_stream (run_stream (asked command options ms) run)"
    using assms(6) by (subst exec_handler_run[OF _ _ assms(2-4)]) (simp_all add: arrive_exec[OF token] assms(5))
  finally have ans: "fst (serve w (arrive ep ?req) ?q) = event_stream (run_stream (asked command options ms) run)" .
  have "executed (hosted w net ep p pf) ep command options s (map execEvent_json (run_stream (asked command options ms) run))
      None (sent net ?req s)"
    unfolding executed_def run_signal_def[symmetric]
    by (rule exI[of _ "deliver (fst (net (log s))) (event_stream (run_stream (asked command options ms) run))"],
        rule exI[of _ "\<lparr>chunks = cut_at (fst (net (log s))) (ans_body (event_stream
          (run_stream (asked command options ms) run))), ending = None\<rparr>"])
      (simp add: agent_exec_def io_eval fetch_hosted ans events_read[OF assms(7)])
  from agent_run_executed[OF this] show ?thesis
    using assms(4) unfolding events_run[OF assms(7)]
    by (auto simp: finish_run_def asked_def concat_forward split: option.split)
qed

definition demo_options :: RunOptions where "demo_options = \<lparr>run_stdin = None, run_timeoutMs = None\<rparr>"

lemma command_end_to_end_witness:
  "agent_run (hosted demo_world (\<lambda>_. ([1, 2], 5)) demo_endpoint (new_pod demo_agent demo_fs) (answering [])) demo_endpoint
      [js ''sh''] demo_options demo_state =
    (Inr \<lparr>cr_stdout = buffer_text [104, 105], cr_stderr = buffer_text [], cr_exitCode = of_whole 3\<rparr>,
     sent (\<lambda>_. ([1, 2], 5)) (exec_request demo_endpoint (run_body [js ''sh''] demo_options) None) demo_state)"
proof -
  have "length (utf8_bytes (JSON_stringify (run_body [js ''sh''] demo_options))) \<le> maxRequestBytes"
    by (simp add: run_body_def demo_options_def quote_string_def quote_unit_def is_high_def is_low_def js_def utf8_bytes_ascii maxRequestBytes_def)
  moreover have "texts16 [js ''sh'']" "whole_ms demo_options None"
    by (simp_all add: texts16_def unit16_def js_def whole_ms_def demo_options_def)
  ultimately show ?thesis
    using command_end_to_end[OF demo_admitted, of "[js ''sh'']" demo_options None demo_world demo_fs demo_state demo_run
        "\<lambda>_. ([1, 2], 5)" "answering []"]
    by (simp add: demo_world_def demo_run_def exited_def run_signal_def demo_options_def piped_def)
qed

text \<open>
  A timeout that is not whole does not fit the agent's \<open>int64\<close>: the command is refused before it starts.
\<close>

lemma fractional_timeout_refused:
  assumes "run_timeoutMs options = Some n" and "\<not> isInteger n" and "isFinite n"
    and "decode_body r = Some (run_body command options)"
  shows "ans_status (fst (exec_handler wording launch r)) = 400"
proof -
  have "integer_of n = None" using assms(2) by (auto simp: isInteger_def)
  then have "execRequest_of (run_body command options) = None"
    using assms(1) by (auto simp: execRequest_of_def run_body_def go_field_def go_member_def go_is_struct_def fold_keys go_strings_def
      go_elements_strings go_string_pointer_def go_int64_def split: option.splits)
  then show ?thesis using assms(4) by (simp add: exec_handler_def writeError_def writeCodedError_def)
qed

end
