(* ===== verification/AgentJobs.thy ===== *)
theory AgentJobs
  imports AgentCommands
begin

section \<open>Detached processes, from the adapter to the pod and back\<close>

text \<open>
  The process methods of the channel against the agent's endpoints: a process started is the process
  asked for, its status is what happened to it, its signals go to its group and a wait for its port
  ends in time with what the last probe found.  The table of processes keeps its invariant through
  every request and everything that happens between two.
\<close>

subsection \<open>Requests with a JSON body\<close>

lemma arrive_json:
  assumes "ascii (ep_token ep)" and "path = js s" and "63 \<notin> set (js s)"
  shows "rq_method (arrive ep (plain_request ep meth path (JsonPayload v) signal)) = meth"
    "rq_path (arrive ep (plain_request ep meth path (JsonPayload v) signal)) = js s"
    "rq_body (arrive ep (plain_request ep meth path (JsonPayload v) signal)) = utf8_bytes (JSON_stringify v)"
proof -
  have "takeWhile (\<lambda>c. c \<noteq> 63) (js s) = js s" using assms(3) by (simp add: takeWhile_eq_all_conv) (metis assms(3))
  then show "rq_method (arrive ep (plain_request ep meth path (JsonPayload v) signal)) = meth"
    "rq_path (arrive ep (plain_request ep meth path (JsonPayload v) signal)) = js s"
    "rq_body (arrive ep (plain_request ep meth path (JsonPayload v) signal)) = utf8_bytes (JSON_stringify v)"
    unfolding arrive_plain[OF assms(1)] by (simp_all add: url_path_def assms(2) body_bytes_def payload_body_def)
qed

lemma decode_body_json:
  "rq_body r = utf8_bytes (JSON_stringify v) \<Longrightarrow> length (utf8_bytes (JSON_stringify v)) \<le> maxRequestBytes \<Longrightarrow> plain_json v \<Longrightarrow>
     decode_body r = Some v"
  by (simp add: decode_body_def go_Decode_stringify)

lemma process_paths: "63 \<notin> set (js ''/process/start'')" "63 \<notin> set (js ''/process/signal'')"
  "63 \<notin> set (js ''/process/waitport'')"
  by (simp_all add: js_def)

lemma unit16_js [simp]: "unit16 (js s)"
  using js_unit[of _ s] by (fastforce simp: unit16_def list_all_iff)

lemma writeJSON_simps [simp]: "ans_status (writeJSON v) = 200" "ans_body (writeJSON v) = go_Encode v"
  by (simp_all add: writeJSON_def)

text \<open>An answer with a JSON value, read by the adapter.\<close>

lemma answered_json: "texts_ok v \<Longrightarrow> response_json pf (deliver cuts (writeJSON v)) = Inr v"
  by (rule response_json_deliver) simp_all

subsection \<open>Starting\<close>

definition start_body :: "jsstring list \<Rightarrow> jsstring option \<Rightarrow> json" where
  "start_body command cwd =
     JObj ([(js ''cmd'', JArr (map JStr command))] @ (case cwd of None \<Rightarrow> [] | Some d \<Rightarrow> [(js ''cwd'', JStr d)]))"

definition start_spec :: "jsstring list \<Rightarrow> jsstring option \<Rightarrow> startProcessRequest" where
  "start_spec command cwd =
     \<lparr>st_cmd = map utf8_bytes command, st_cwd = (case cwd of None \<Rightarrow> [] | Some d \<Rightarrow> utf8_bytes d)\<rparr>"

lemma plain_start_body:
  "texts16 command \<Longrightarrow> (case cwd of None \<Rightarrow> True | Some d \<Rightarrow> unit16 d) \<Longrightarrow> plain_json (start_body command cwd)"
  by (auto simp: start_body_def texts16_def list_all_iff split: option.splits)

lemma startProcessRequest_of_body: "startProcessRequest_of (start_body command cwd) = Some (start_spec command cwd)"
  by (auto simp: startProcessRequest_of_def start_body_def start_spec_def go_field_def go_member_def go_is_struct_def
      go_fold_def js_def go_strings_def go_elements_strings go_string_def split: option.splits)

lemma pidOf_pid_json [simp]: "pidOf (pid_json pid) = Some (of_whole pid)" "texts_ok (pid_json pid)"
  by (simp_all add: pidOf_def pid_json_def num_at_def json_at_def isInteger_def)

lemma startProcess_handler_starts:
  assumes "rq_body r = utf8_bytes (JSON_stringify (start_body command cwd))" and "command \<noteq> []" and "texts16 command"
    and "case cwd of None \<Rightarrow> True | Some d \<Rightarrow> unit16 d"
    and "length (utf8_bytes (JSON_stringify (start_body command cwd))) \<le> maxRequestBytes"
    and "start (start_spec command cwd) = Started pid logPath"
  shows "startProcess_handler wording start r a =
    (writeJSON (pid_json pid),
     a\<lparr>ag_children := pid # ag_children a,
       ag_started := (ag_started a)(pid \<mapsto> \<lparr>sp_pid = pid, sp_logPath = logPath, sp_exit = None\<rparr>)\<rparr>)"
proof -
  have "Option.bind (decode_body r) startProcessRequest_of = Some (start_spec command cwd)"
    using decode_body_json[OF assms(1,5) plain_start_body[OF assms(3,4)]] startProcessRequest_of_body by simp
  moreover have "st_cmd (start_spec command cwd) \<noteq> []" using assms(2) by (simp add: start_spec_def)
  ultimately show ?thesis using assms(6) by (simp add: startProcess_handler_def)
qed

lemma agent_startProcess_starts:
  assumes "admitted ep p" and "command \<noteq> []" and "texts16 command" and "case cwd of None \<Rightarrow> True | Some d \<Rightarrow> unit16 d"
    and "length (utf8_bytes (JSON_stringify (start_body command cwd))) \<le> maxRequestBytes"
    and "wd_start w (pod_served (pod_at w ep p s)) (start_spec command cwd) = Started pid logPath"
    and "agent_startProcess (hosted w net ep p pf) ep command cwd s = (r, t)"
  shows "r = Inr (of_whole pid)"
    and "ag_started (pod_agent (pod_at w ep p t)) pid = Some \<lparr>sp_pid = pid, sp_logPath = logPath, sp_exit = None\<rparr>"
proof -
  let ?req = "plain_request ep (js ''POST'') (js ''/process/start'') (JsonPayload (start_body command cwd)) None"
  have ascii: "ascii (ep_token ep)" using assms(1) by (simp add: admitted_def)
  note a = arrive_json[OF ascii refl process_paths(1), of "js ''POST''" "start_body command cwd" None]
  have mux: "mux (arrive ep ?req) = Inr ProcessStart" by (rule mux_endpoints(6)) (simp_all only: a)
  have post: "js ''POST'' \<noteq> js ''HEAD''" by simp
  note starts = startProcess_handler_starts[OF a(3) assms(2-5),
      where start = "wd_start w (pod_served (pod_at w ep p s))", OF assms(6)]
  note sends = agent_request_hosted(1)[OF assms(1) mux post] agent_request_hosted(2)[OF assms(1) mux post]
  have run: "agent_startProcess (hosted w net ep p pf) ep command cwd s = (Inr (of_whole pid), sent net ?req s)"
    unfolding agent_startProcess_def Let_def start_body_def[symmetric]
    by (simp add: io_eval sends(1) Let_def handle_def with_agent_def starts or_refused_def answered_json or_missing_def)
  then show "r = Inr (of_whole pid)" using assms(7) by simp
  have t: "t = sent net ?req s" using run assms(7) by simp
  show "ag_started (pod_agent (pod_at w ep p t)) pid = Some \<lparr>sp_pid = pid, sp_logPath = logPath, sp_exit = None\<rparr>"
    unfolding t sends(2) by (simp add: Let_def handle_def with_agent_def starts)
qed

subsection \<open>Status\<close>

lemma pid_query:
  assumes "rq_query r = query_of [(js ''pid'', show_int pid)]" and "- (2 ^ 63) \<le> pid" "pid < 2 ^ 63"
  shows "startedByQuery a r = (case ag_started a pid of None \<Rightarrow> Inl (unknown_pid pid) | Some p \<Rightarrow> Inr p)"
proof -
  have "QueryUnescape (show_int pid) = Some (map of_nat (show_int pid))" by (rule QueryUnescape_plain[OF show_int_plain])
  then have "Query_Get r ''pid'' = map of_nat (show_int pid)"
    using Query_Get_of[OF assms(1), of "''pid''"] by (simp add: clean_values key_plain lit_names)
  then show ?thesis using ParseInt_show_int[OF assms(2,3)] by (simp add: startedByQuery_def)
qed

definition status_of :: "int option \<Rightarrow> ProcessStatus" where
  "status_of exit = \<lparr>ps_running = (exit = None), ps_exitCode = map_option of_whole exit\<rparr>"

lemma status_json: "texts_ok (processStatusResponse p)" "statusOf (processStatusResponse p) = Some (status_of (sp_exit p))"
  by (auto simp: processStatusResponse_def exit_member_def omitempty_def isInteger_def statusOf_def status_of_def
      bool_at_def num_at_def json_at_def)

lemma agent_processStatus_of:
  assumes "admitted ep p" and "- (2 ^ 63) \<le> pid" "pid < 2 ^ 63"
    and "ag_started (pod_agent (meanwhile w (pod_at w ep p s))) pid = Some q"
  shows "\<exists>u. agent_processStatus (hosted w net ep p pf) ep (of_whole pid) s = (Inr (status_of (sp_exit q)), u)"
proof -
  let ?path = "js ''/process/status?pid='' @ show_int pid"
  let ?req = "plain_request ep (js ''GET'') ?path NoPayload None"
  have ascii: "ascii (ep_token ep)" using assms(1) by (simp add: admitted_def)
  have query: "rq_method (arrive ep ?req) = js ''GET''" "rq_path (arrive ep ?req) = js ''/process/status''"
    "rq_query (arrive ep ?req) = query_of [(js ''pid'', show_int pid)]"
    unfolding arrive_plain[OF ascii] by (simp_all add: url_path_def url_query_def query_of_def pair_of_def) (simp_all add: js_def)
  have mux: "mux (arrive ep ?req) = Inr ProcessStatus" by (rule mux_endpoints(7)) (simp_all only: query)
  have get: "js ''GET'' \<noteq> js ''HEAD''" by simp
  note found = pid_query[OF query(3) assms(2,3)]
  show ?thesis
    unfolding agent_processStatus_def Let_def num_String_whole
    by (simp add: io_eval agent_request_hosted(1)[OF assms(1) mux get] Let_def handle_def processStatus_handler_def found
        assms(4) or_refused_def answered_json status_json or_missing_def)
qed

text \<open>The last exit of a process among the events: the agent collects one, and there is one to collect.\<close>

definition exit_seen :: "int \<Rightarrow> pod_event list \<Rightarrow> int option" where
  "exit_seen pid es = foldl (\<lambda>x e. case e of Exits q code \<Rightarrow> if q = pid then Some code else x | _ \<Rightarrow> x) None es"

lemma happen_started:
  assumes "ag_started (pod_agent p) pid = Some q"
  shows "ag_started (pod_agent (fold happen es p)) pid =
    Some (q\<lparr>sp_exit := foldl (\<lambda>x e. case e of Exits i code \<Rightarrow> if i = pid then Some code else x | _ \<Rightarrow> x) (sp_exit q) es\<rparr>)"
  using assms
proof (induction es arbitrary: p q)
  case (Cons e es)
  show ?case
  proof (cases e)
    case (Exits i code)
    have "ag_started (pod_agent (happen e p)) pid = Some (if i = pid then q\<lparr>sp_exit := Some code\<rparr> else q)"
      using Cons.prems Exits by (auto simp: collected_def)
    from Cons.IH[OF this] show ?thesis using Exits by simp
  qed (use Cons in \<open>simp_all add: bounded_read_ends_def\<close>)
qed simp

text \<open>C17: A detached process is the one asked for, and its status is what happened to it: the pid
  \<open>startProcess\<close> returns is the one the operating system gave to the words and the directory the adapter sent, and
  the \<open>processStatus\<close> asked next says running exactly when no exit of that pid has been collected since, and
  otherwise the code it ended with.\<close>

theorem process_end_to_end:
  assumes "admitted ep p" and "command \<noteq> []" and "texts16 command" and "case cwd of None \<Rightarrow> True | Some d \<Rightarrow> unit16 d"
    and "length (utf8_bytes (JSON_stringify (start_body command cwd))) \<le> maxRequestBytes"
    and "wd_start w (pod_served (pod_at w ep p s)) (start_spec command cwd) = Started pid logPath"
    and "- (2 ^ 63) \<le> pid" "pid < 2 ^ 63"
    and "agent_startProcess (hosted w net ep p pf) ep command cwd s = (r, t)"
  shows "r = Inr (of_whole pid)
    \<and> (\<exists>u. agent_processStatus (hosted w net ep p pf) ep (of_whole pid) t =
         (Inr (status_of (exit_seen pid (wd_meanwhile w (pod_served (pod_at w ep p t))))), u))"
proof -
  note starts = agent_startProcess_starts[OF assms(1-6,9)]
  from agent_processStatus_of[OF assms(1,7,8) happen_started[OF starts(2), of "wd_meanwhile w (pod_served (pod_at w ep p t))",
      folded meanwhile_def]] starts(1)
  show ?thesis by (simp add: exit_seen_def)
qed

lemma demo_quiet_world [simp]: "wd_meanwhile demo_world n = []"
  by (simp add: demo_world_def)

lemma process_end_to_end_witness:
  "\<exists>t u. agent_startProcess (hosted demo_world (\<lambda>_. ([1, 2], 5)) demo_endpoint (new_pod demo_agent demo_fs) (answering []))
      demo_endpoint [js ''sh''] None demo_state = (Inr (of_whole 7), t)
    \<and> agent_processStatus (hosted demo_world (\<lambda>_. ([1, 2], 5)) demo_endpoint (new_pod demo_agent demo_fs) (answering []))
      demo_endpoint (of_whole 7) t = (Inr \<lparr>ps_running = True, ps_exitCode = None\<rparr>, u)"
proof -
  obtain r t where run: "agent_startProcess (hosted demo_world (\<lambda>_. ([1, 2], 5)) demo_endpoint (new_pod demo_agent demo_fs)
      (answering [])) demo_endpoint [js ''sh''] None demo_state = (r, t)" by fastforce
  have "length (utf8_bytes (JSON_stringify (start_body [js ''sh''] None))) \<le> maxRequestBytes"
    by (simp add: start_body_def quote_string_def quote_unit_def is_high_def is_low_def js_def utf8_bytes_ascii maxRequestBytes_def)
  moreover have "texts16 [js ''sh'']" by (simp add: texts16_def)
  ultimately show ?thesis
    using process_end_to_end[OF demo_admitted _ _ _ _ _ _ _ run, of 7 "[slash]"] run
    by (auto simp: demo_world_def exit_seen_def status_of_def)
qed

subsection \<open>Waiting for a port\<close>

lemma Milliseconds_exact:
  assumes "- (2 ^ 63) \<le> ms * 1000000" "ms * 1000000 < 2 ^ 63"
  shows "Milliseconds ms = ms * 1000000"
proof -
  have "word_of_int ms * word_of_int 1000000 = (word_of_int (ms * 1000000) :: 64 word)" by (simp only: wi_homs)
  then show ?thesis using assms by (simp only: Milliseconds_def int_word_sint) (simp add: mod_pos_pos_trivial)
qed

definition wait_request :: "int \<Rightarrow> int \<Rightarrow> int option \<Rightarrow> PortProbe option \<Rightarrow> waitPortRequest" where
  "wait_request port ms pid p =
     \<lparr>wp_port = port, wp_timeoutMs = ms, wp_pid = or_else pid 0,
      wp_mode = (case Option.bind p probe_mode of None \<Rightarrow> [] | Some m \<Rightarrow> utf8_bytes (probe_text m)),
      wp_path = (case Option.bind p probe_path of None \<Rightarrow> [] | Some t \<Rightarrow> utf8_bytes t)\<rparr>"

definition int64 :: "int \<Rightarrow> bool" where "int64 i \<longleftrightarrow> - (2 ^ 63) \<le> i \<and> i < 2 ^ 63"

lemma waitPortRequest_of_body:
  assumes "int64 port" and "int64 ms" and "case pid of None \<Rightarrow> True | Some i \<Rightarrow> int64 i"
  shows "waitPortRequest_of (wait_body port (of_whole ms) (map_option of_whole pid) p) = Some (wait_request port ms pid p)"
  using assms
  by (auto simp: waitPortRequest_of_def wait_body_def wait_request_def go_field_def go_member_def go_is_struct_def
      go_fold_def js_def go_string_def go_int64_def int64_def or_else_def split: option.splits)

lemma plain_wait_body:
  "(case Option.bind p probe_path of None \<Rightarrow> True | Some t \<Rightarrow> unit16 t) \<Longrightarrow>
     plain_json (wait_body port (of_whole ms) (map_option of_whole pid) p)"
  by (auto simp: wait_body_def probe_text_def isInteger_def split: option.splits probe_mode.splits)

definition port_wait :: "waitPortResponse \<Rightarrow> PortWait" where
  "port_wait a = \<lparr>pw_open = wr_open a, pw_exited = wr_exited a, pw_exitCode = map_option of_whole (wr_exitCode a)\<rparr>"

lemma wait_json: "texts_ok (waitPortResponse_json a)" "portWaitOf (waitPortResponse_json a) = Some (port_wait a)"
  by (auto simp: waitPortResponse_json_def exit_member_def omitempty_def isInteger_def portWaitOf_def port_wait_def
      bool_at_def num_at_def json_at_def is_true_def)

text \<open>An answer after \<open>n\<close> probes, at the time \<open>later\<close>, says what the last probe and the process did.\<close>

definition answer_right :: "probe_world \<Rightarrow> waitPortRequest \<Rightarrow> int \<Rightarrow> waitPortResponse \<Rightarrow> nat \<Rightarrow> int \<Rightarrow> bool" where
  "answer_right w req deadline a n later \<longleftrightarrow>
     (if wr_open a then (\<exists>bound. probe_at w req (n - 1) bound)
      else (\<exists>bound. \<not> probe_at w req (n - 1) bound)
        \<and> (if wr_exited a then wp_pid req \<noteq> 0 \<and> wr_exitCode a = pw_exit w (n - 1) (wp_pid req) \<and> wr_exitCode a \<noteq> None
           else deadline \<le> later \<and> wr_exitCode a = None))"

definition known :: "pod \<Rightarrow> waitPortRequest \<Rightarrow> bool" where
  "known p req \<longleftrightarrow> wp_pid req = 0 \<or> ag_started (pod_agent p) (wp_pid req) \<noteq> None"

lemma waitPort_handler_waits:
  assumes "rq_body r = utf8_bytes (JSON_stringify v)" and "length (utf8_bytes (JSON_stringify v)) \<le> maxRequestBytes"
    and "plain_json v" and "waitPortRequest_of v = Some req0" and "1 \<le> wp_port req0" "wp_port req0 \<le> 65535"
    and "check_mode wording req0 = Inr req" and "wp_pid req = 0 \<or> ag_started a (wp_pid req) \<noteq> None"
    and "wait_loop w req (now + Milliseconds (wp_timeoutMs req)) 0 now = (Some answer, n, later)"
  shows "waitPort_handler wording w now r a = (Some (writeJSON (waitPortResponse_json answer)), n, later)"
  using assms decode_body_json[OF assms(1-3)] by (auto simp: waitPort_handler_def)

lemma check_mode_keeps: "check_mode wording req0 = Inr req \<Longrightarrow> wp_timeoutMs req = wp_timeoutMs req0 \<and> wp_pid req = wp_pid req0"
  by (auto simp: check_mode_def Let_def split: if_splits)

text \<open>C16: A wait for a port comes back in time with the truth: what \<open>waitForPort\<close> answers is that the last probe the
  agent made found the port open, or that it did not and the process had ended with this code, or
  that it did not and the deadline had passed; the agent answers within the slack the adapter adds to the deadline
  before it gives up, however long the single probes take within their limits, and makes no more
  probes than pauses fit into the time.\<close>

theorem port_wait_end_to_end:
  assumes "admitted ep p" and "1 \<le> port" "port \<le> 65535" and "0 \<le> ms" "ms < 2 ^ 31"
    and "case pid of None \<Rightarrow> True | Some i \<Rightarrow> int64 i" and "case Option.bind pr probe_path of None \<Rightarrow> True | Some t \<Rightarrow> unit16 t"
    and "length (utf8_bytes (JSON_stringify (wait_body port (of_whole ms) (map_option of_whole pid) pr))) \<le> maxRequestBytes"
    and "check_mode (wd_wording w) (wait_request port ms pid pr) = Inr req"
    and "q = pod_at w ep p s" and "known (meanwhile w q) req"
    and "prompt (wd_probes w (pod_served q)) lag" and "lag \<le> 7950000000"
    and "wait_loop (wd_probes w (pod_served q)) req (wd_now w (pod_served q) + Milliseconds ms) 0 (wd_now w (pod_served q))
      = (Some answer, n, later)"
  shows "(\<exists>u. agent_waitForPort (hosted w net ep p pf) ep port (of_whole ms) (map_option of_whole pid) pr s
      = (Inr (port_wait answer), u))
    \<and> answer_right (wd_probes w (pod_served q)) req (wd_now w (pod_served q) + Milliseconds ms) answer n later
    \<and> later \<le> wd_now w (pod_served q) + Milliseconds (ms + TIMEOUT_SLACK_MS)
    \<and> (int n - 2) * dialPause < max 1 (Milliseconds ms)"
proof (intro conjI)
  let ?v = "wait_body port (of_whole ms) (map_option of_whole pid) pr"
  let ?req = "plain_request ep (js ''POST'') (js ''/process/waitport'') (JsonPayload ?v)
      (Some (num_add (of_whole ms) (of_whole TIMEOUT_SLACK_MS)))"
  have ascii: "ascii (ep_token ep)" using assms(1) by (simp add: admitted_def)
  note a = arrive_json[OF ascii refl process_paths(3), of "js ''POST''" ?v "Some (num_add (of_whole ms) (of_whole TIMEOUT_SLACK_MS))"]
  have mux: "mux (arrive ep ?req) = Inr ProcessWaitport" by (rule mux_endpoints(10)) (simp_all only: a)
  have post: "js ''POST'' \<noteq> js ''HEAD''" by simp
  have body: "waitPortRequest_of ?v = Some (wait_request port ms pid pr)"
    using assms(2-6) by (intro waitPortRequest_of_body) (simp_all add: int64_def)
  note mode = check_mode_keeps[OF assms(9)]
  have "waitPort_handler (wd_wording w) (wd_probes w (pod_served q)) (wd_now w (pod_served q)) (arrive ep ?req)
      (pod_agent (meanwhile w q)) = (Some (writeJSON (waitPortResponse_json answer)), n, later)"
    by (rule waitPort_handler_waits[OF a(3) assms(8) plain_wait_body[OF assms(7)] body _ _ assms(9)])
      (use assms(2,3,11,14) mode in \<open>simp_all add: wait_request_def known_def\<close>)
  then show "\<exists>u. agent_waitForPort (hosted w net ep p pf) ep port (of_whole ms) (map_option of_whole pid) pr s
      = (Inr (port_wait answer), u)"
    unfolding agent_waitForPort_def Let_def assms(10)
    by (simp add: io_eval agent_request_hosted(1)[OF assms(1) mux post] Let_def handle_def or_refused_def answered_json
        wait_json or_missing_def)
  show "answer_right (wd_probes w (pod_served q)) req (wd_now w (pod_served q) + Milliseconds ms) answer n later"
    using wait_loop_says[OF assms(14)] by (simp add: answer_right_def)
  have ms: "Milliseconds ms = ms * 1000000" "Milliseconds (ms + TIMEOUT_SLACK_MS) = (ms + TIMEOUT_SLACK_MS) * 1000000"
    using assms(4,5) by (intro Milliseconds_exact; simp add: TIMEOUT_SLACK_MS_def)+
  show "later \<le> wd_now w (pod_served q) + Milliseconds (ms + TIMEOUT_SLACK_MS)"
    using wait_loop_time[OF assms(12,14)] assms(4,13) probe_limit_pos[of req] unfolding ms
    by (simp add: TIMEOUT_SLACK_MS_def dialPause_def httpProbeTimeout_def) linarith
  show "(int n - 2) * dialPause < max 1 (Milliseconds ms)"
    using wait_loop_probes[OF assms(14)] assms(4) by (auto simp: ms dialPause_def split: if_splits)
qed

lemma port_wait_end_to_end_witness:
  "(\<exists>u. agent_waitForPort (hosted demo_world (\<lambda>_. ([1, 2], 5)) demo_endpoint (new_pod demo_agent demo_fs) (answering []))
      demo_endpoint 80 (of_whole 1000) None None demo_state = (Inr \<lparr>pw_open = True, pw_exited = False, pw_exitCode = None\<rparr>, u))
    \<and> (int 3 - 2) * dialPause < max 1 (Milliseconds 1000)"
proof -
  let ?req = "(wait_request 80 1000 None None)\<lparr>wp_mode := lit ''tcp''\<rparr>"
  let ?w = "wd_probes demo_world 0"
  have "show_int 80 = [56, 48]" "show_int 1000 = [49, 48, 48, 48]" by code_simp+
  moreover have "isFinite (of_whole i)" for i by (simp add: isFinite_def of_whole_def)
  ultimately have "length (utf8_bytes (JSON_stringify (wait_body 80 (of_whole 1000) None None))) \<le> maxRequestBytes"
    by (simp add: wait_body_def quote_string_def quote_unit_def is_high_def is_low_def js_def utf8_bytes_ascii maxRequestBytes_def
        num_String_whole)
  moreover have "check_mode (wd_wording demo_world) (wait_request 80 1000 None None) = Inr ?req"
    by (simp add: check_mode_def wait_request_def)
  moreover have "wait_loop ?w ?req (Milliseconds 1000) 0 0 =
      (Some \<lparr>wr_open = True, wr_exited = False, wr_exitCode = None\<rparr>, 3, 100000000)"
    by (simp add: wait_loop.simps[of _ _ _ 0] wait_loop.simps[of _ _ _ "Suc 0"] wait_loop.simps[of _ _ _ "Suc (Suc 0)"]
        demo_world_def wait_request_def or_else_def Milliseconds_exact dialPause_def)
  moreover have "prompt ?w 0" by (simp add: prompt_def demo_world_def)
  ultimately show ?thesis
    using port_wait_end_to_end[OF demo_admitted, of 80 1000 None None demo_world ?req "new_pod demo_agent demo_fs" demo_fs
        demo_state 0 "\<lparr>wr_open = True, wr_exited = False, wr_exitCode = None\<rparr>" 3 100000000 "\<lambda>_. ([1, 2], 5)" "answering []"]
    by (simp add: pod_at_def pod_after_def demo_state_def known_def wait_request_def or_else_def port_wait_def)
      (simp add: demo_world_def new_pod_def)
qed

subsection \<open>The table of processes\<close>

definition agent_ok :: "agent \<Rightarrow> bool" where
  "agent_ok a \<longleftrightarrow>
     (\<forall>pid p. ag_started a pid = Some p \<longrightarrow> sp_pid p = pid \<and> 1 < pid)
     \<and> (\<forall>pid. owns a pid \<longleftrightarrow> (\<exists>p. ag_started a pid = Some p \<and> sp_exit p = None))
     \<and> ag_boundedReads a \<le> maxBoundedReads"

definition kills_ok :: "pod \<Rightarrow> bool" where
  "kills_ok p \<longleftrightarrow> (\<forall>(target, number) \<in> set (pod_kills p).
     target < -1 \<and> (ag_started (pod_agent p) (- target) \<noteq> None \<or> - target \<in> set (pod_runs p))
     \<and> number \<in> snd ` set signal_numbers)"

definition pod_ok :: "pod \<Rightarrow> bool" where
  "pod_ok p \<longleftrightarrow> agent_ok (pod_agent p) \<and> kills_ok p"

text \<open>What the operating system promises of a pid it gives: it is not the agent's own, nor one with a meaning of its own.\<close>

definition pids_ok :: "pod_world \<Rightarrow> bool" where
  "pids_ok w \<longleftrightarrow> (\<forall>n req pid logPath. wd_start w n req = Started pid logPath \<longrightarrow> 1 < pid)
     \<and> (\<forall>n spec run. wd_launch w n spec = Ran run \<longrightarrow> 1 < px_pid run)"

inductive served :: "pod_world \<Rightarrow> pod \<Rightarrow> pod \<Rightarrow> bool" for w p0 where
  fresh: "served w p0 p0"
| one_more: "served w p0 p \<Longrightarrow> served w p0 (snd (serve w r p))"

lemma agent_ok_start:
  assumes "agent_ok a" and "\<And>req pid logPath. start req = Started pid logPath \<Longrightarrow> 1 < pid"
    and "startProcess_handler wording start r a = (ans, a')"
  shows "agent_ok a' \<and> (\<forall>pid. ag_started a pid \<noteq> None \<longrightarrow> ag_started a' pid \<noteq> None)"
  using assms
  by (auto simp: startProcess_handler_def agent_ok_def owns_def split: option.splits if_splits start_result.splits)

lemma agent_ok_collected: "agent_ok a \<Longrightarrow> agent_ok (collected pid code a)"
  by (auto simp: agent_ok_def collected_def owns_def)

lemma pod_ok_happen: "pod_ok p \<Longrightarrow> pod_ok (happen e p)"
  by (cases e) (auto simp: pod_ok_def kills_ok_def agent_ok_collected collected_def bounded_read_ends_def agent_ok_def owns_def)

lemma pod_ok_meanwhile: "pod_ok p \<Longrightarrow> pod_ok (meanwhile w p)"
proof -
  have "pod_ok p \<Longrightarrow> pod_ok (fold happen es p)" for es by (induction es arbitrary: p) (simp_all add: pod_ok_happen)
  then show "pod_ok p \<Longrightarrow> pod_ok (meanwhile w p)" by (simp add: meanwhile_def)
qed

lemma signal_named_number: "signal_named name = Some number \<Longrightarrow> number \<in> snd ` set signal_numbers"
  by (auto simp: signal_named_def Let_def dest!: map_of_SomeD) (metis image_eqI snd_conv)

lemma signalProcess_targets:
  assumes "signalProcess_handler wording r a = (ans, out)" and "agent_ok a" and "(target, number) \<in> set out"
  shows "target < -1 \<and> ag_started a (- target) \<noteq> None \<and> number \<in> snd ` set signal_numbers"
  using assms signal_named_number
  by (auto simp: signalProcess_handler_def agent_ok_def split: option.splits)

lemma readFileBounded_slot:
  assumes "readFileBounded_handler env stalled r a = (ans, a')"
  shows "a' = a \<or> (a' = a\<lparr>ag_boundedReads := Suc (ag_boundedReads a)\<rparr> \<and> ag_boundedReads a < maxBoundedReads)"
  using assms by (auto simp: readFileBounded_handler_def split: sum.splits if_splits option.splits)

lemma pod_ok_handle:
  assumes "pod_ok p" and "pids_ok w"
  shows "pod_ok (snd (handle w n e r p))"
proof (cases e)
  case ProcessStart
  obtain ans a' where h: "startProcess_handler (wd_wording w) (wd_start w n) r (pod_agent p) = (ans, a')" by fastforce
  then have "agent_ok a' \<and> (\<forall>pid. ag_started (pod_agent p) pid \<noteq> None \<longrightarrow> ag_started a' pid \<noteq> None)"
    using assms by (intro agent_ok_start[OF _ _ h]) (auto simp: pod_ok_def pids_ok_def)
  then show ?thesis using assms(1) ProcessStart h by (auto simp: handle_def with_agent_def pod_ok_def kills_ok_def)
next
  case Exec
  have runs: "exec_handler wording launch r = (ans, Some run) \<Longrightarrow> \<exists>spec. launch spec = Ran run" for wording launch ans run
    by (auto simp: exec_handler_def split: option.splits if_splits sum.splits launch.splits)
  obtain ans ran where h: "exec_handler (wd_wording w) (wd_launch w n) r = (ans, ran)" by fastforce
  show ?thesis
  proof (cases ran)
    case (Some run)
    then have "1 < px_pid run" using runs h assms(2) unfolding pids_ok_def by blast
    then have "target < -1 \<and> target = - px_pid run \<and> number \<in> snd ` set signal_numbers"
      if "(target, number) \<in> set (run_signals run)" for target number
      using that by (auto simp: run_signals_def killGroup_def signal_numbers_def split: option.splits if_splits)
    then show ?thesis using assms(1) Exec Some h by (fastforce simp: handle_def pod_ok_def kills_ok_def)
  qed (use assms(1) Exec h in \<open>simp add: handle_def\<close>)
next
  case ProcessSignal
  obtain ans out where h: "signalProcess_handler (wd_wording w) r (pod_agent p) = (ans, out)" by fastforce
  then show ?thesis using assms(1) ProcessSignal signalProcess_targets[OF h]
    by (auto simp: handle_def pod_ok_def kills_ok_def)
next
  case GetFileBounded
  obtain ans a' where h: "readFileBounded_handler (wd_reads w n (pod_fs p)) (wd_stalls w n) r (pod_agent p) = (ans, a')" by fastforce
  show ?thesis using assms(1) readFileBounded_slot[OF h] GetFileBounded h
    by (auto simp: handle_def with_agent_def pod_ok_def kills_ok_def agent_ok_def owns_def)
qed (use assms(1) in \<open>auto simp: handle_def Let_def pod_ok_def kills_ok_def split: prod.splits option.splits\<close>)

lemma routes_either: "snd (routes w n r q) = q \<or> (\<exists>e. snd (routes w n r q) = snd (handle w n e r q))"
  by (auto simp: routes_def guarded_def split: sum.split prod.split option.split if_split) (metis snd_conv)+

lemma pod_ok_serve: "pod_ok p \<Longrightarrow> pids_ok w \<Longrightarrow> pod_ok (snd (serve w r p))"
proof -
  assume ok: "pod_ok p" "pids_ok w"
  have "snd (serve w r p) = (snd (routes w (pod_served p) r (meanwhile w p)))\<lparr>pod_served := Suc (pod_served p)\<rparr>"
    by (simp add: serve_def split: prod.split)
  moreover have "pod_ok (snd (routes w (pod_served p) r (meanwhile w p)))"
    using routes_either[of w "pod_served p" r "meanwhile w p"] pod_ok_handle[OF pod_ok_meanwhile[OF ok(1)] ok(2)]
      pod_ok_meanwhile[OF ok(1)] by metis
  ultimately show "pod_ok (snd (serve w r p))" by (simp add: pod_ok_def kills_ok_def)
qed



end
