(* ===== verification/Reaper.thy ===== *)
theory Reaper
  imports AgentProcess
begin

section \<open>The duty of PID 1 (\<open>agent/reaper_linux.go\<close>)\<close>

text \<open>
  \<open>zombiesOf\<close> reads \<open>/proc\<close>: here a list of names with the contents of their \<open>stat\<close>.  \<open>reapOrphans\<close>, the
  goroutines of \<open>startProcess\<close> and the kernel are a step relation, one system call or one operation on
  \<open>children\<close> a step, in any order.  A pid is not given out again while the agent's mark on it stands, as the kernel
  gives them out in turn.
\<close>

subsection \<open>Reading \<open>/proc\<close>\<close>

definition after_last_paren :: "byte list \<Rightarrow> byte list option" where
  "after_last_paren line = (if 41 \<in> set line then Some (rev (takeWhile (\<lambda>c. c \<noteq> 41) (rev line))) else None)"

text \<open>\<open>bytes.Fields\<close>, for the ASCII the kernel writes after the command's name\<close>

definition go_space :: "byte \<Rightarrow> bool" where
  "go_space c \<longleftrightarrow> c = 32 \<or> (9 \<le> c \<and> c \<le> 13)"

fun Fields_loop :: "byte list \<Rightarrow> byte list \<Rightarrow> byte list list" where
  "Fields_loop word [] = (if word = [] then [] else [word])"
| "Fields_loop word (c # s) =
     (if go_space c then (if word = [] then [] else [word]) @ Fields_loop [] s else Fields_loop (word @ [c]) s)"

definition Fields :: "byte list \<Rightarrow> byte list list" where
  "Fields s = Fields_loop [] s"

definition zombie_of :: "int \<Rightarrow> byte list \<times> byte list option \<Rightarrow> int option" where
  "zombie_of parent e =
     (case ParseInt (fst e) of
        None \<Rightarrow> None
      | Some pid \<Rightarrow>
          (case Option.bind (snd e) after_last_paren of
             None \<Rightarrow> None
           | Some rest \<Rightarrow>
               (case Fields rest of
                  status # ppid # _ \<Rightarrow>
                    if hd status \<noteq> 90 then None
                    else if ParseInt ppid = Some parent then Some pid else None
                | _ \<Rightarrow> None)))"

definition zombiesOf :: "int \<Rightarrow> (byte list \<times> byte list option) list option \<Rightarrow> int list" where
  "zombiesOf parent proc = (case proc of None \<Rightarrow> [] | Some entries \<Rightarrow> List.map_filter (zombie_of parent) entries)"

text \<open>A line of \<open>/proc/<pid>/stat\<close>: the name of the command may hold anything, parentheses, spaces and all.\<close>

definition stat_line :: "int \<Rightarrow> byte list \<Rightarrow> byte \<Rightarrow> int \<Rightarrow> byte list \<Rightarrow> byte list" where
  "stat_line pid comm status ppid rest =
     map of_nat (show_int pid) @ [32, 40] @ comm @ [41, 32, status, 32] @ map of_nat (show_int ppid) @ 32 # rest"

lemma Fields_word: "\<forall>c \<in> set t. \<not> go_space c \<Longrightarrow> Fields_loop word (t @ s) = Fields_loop (word @ t) s"
  by (induction t arbitrary: word) simp_all

lemma digits_no_space: "c \<in> set (map of_nat (show_int i) :: byte list) \<Longrightarrow> \<not> go_space c \<and> c \<noteq> 41"
proof -
  assume "c \<in> set (map of_nat (show_int i) :: byte list)"
  then obtain u where u: "u \<in> set (show_int i)" "c = of_nat u" by auto
  have "u = 45 \<or> (48 \<le> u \<and> u \<le> 57)" using show_int_units[OF u(1)] by (auto simp: is_digit_def)
  then have "unat c = u" "45 \<le> u" unfolding u(2) by (auto simp: unat_of_nat)
  then have "45 \<le> unat c" by simp
  then show ?thesis by (auto simp: go_space_def word_le_nat_alt)
qed

text \<open>Note: A zombie is told by its state and its parent, whatever its command is called: from a line of
  \<open>/proc/<pid>/stat\<close> whose command name holds any bytes, closing parentheses and spaces included, the agent reads
  the state and the parent the kernel wrote, and takes the pid exactly when it is a zombie of its own.\<close>

theorem zombies_by_any_name:
  assumes "- (2 ^ 63) \<le> pid" "pid < 2 ^ 63" and "- (2 ^ 63) \<le> ppid" "ppid < 2 ^ 63"
    and "status \<noteq> 41" "\<not> go_space status" and "41 \<notin> set rest"
  shows "zombie_of parent (map of_nat (show_int pid), Some (stat_line pid comm status ppid rest)) =
    (if status = 90 \<and> ppid = parent then Some pid else None)"
proof -
  let ?digits = "map of_nat (show_int ppid) :: byte list"
  let ?tail = "32 # status # 32 # ?digits @ 32 # rest"
  have "\<forall>c \<in> set ?tail. c \<noteq> 41" using assms(5,7) digits_no_space by auto
  then have "takeWhile (\<lambda>c. c \<noteq> 41) (rev (stat_line pid comm status ppid rest)) = rev ?tail"
    unfolding stat_line_def by (simp add: takeWhile_append)
  then have after: "after_last_paren (stat_line pid comm status ppid rest) = Some ?tail"
    by (simp add: after_last_paren_def stat_line_def)
  have "Fields_loop [] (?digits @ 32 # rest) = Fields_loop ?digits (32 # rest)"
    by (subst Fields_word) (use digits_no_space in \<open>blast, simp\<close>)
  moreover have "go_space 32" by (simp add: go_space_def)
  ultimately have "Fields ?tail = [status] # Fields_loop ?digits (32 # rest)"
    using assms(6) by (simp add: Fields_def)
  moreover have "?digits \<noteq> []" using show_nat_not_Nil by (simp add: show_int_def)
  ultimately have "Fields ?tail = [status] # ?digits # Fields_loop [] rest" by (simp add: go_space_def)
  then show ?thesis using assms(1-4) after by (auto simp: zombie_of_def ParseInt_show_int)
qed

lemma zombies_by_any_name_witness:
  "zombie_of 1 (map of_nat (show_int 7), Some (stat_line 7 [41, 32, 83, 32, 50, 32] 90 1 [48])) = Some 7"
  using zombies_by_any_name[of 7 1 90 "[48]" 1 "[41, 32, 83, 32, 50, 32]"] by (simp add: go_space_def)

subsection \<open>Who waits for whom\<close>

datatype child = Alive | Zombie int

record reap_state =
  rs_child :: "int \<Rightarrow> child option"     \<comment> \<open>the kernel's children of the agent\<close>
  rs_starting :: "int set"             \<comment> \<open>started, and not yet marked in \<open>children\<close>\<close>
  rs_children :: "int list"            \<comment> \<open>the marks\<close>
  rs_exit :: "int \<Rightarrow> int option"        \<comment> \<open>the exit codes the agent has recorded\<close>
  rs_pass :: "int list"                \<comment> \<open>the zombies of this pass, still to be looked at\<close>
  rs_code :: "int \<Rightarrow> int option"        \<comment> \<open>the code each of the agent's own processes really ended with\<close>

definition no_processes :: reap_state where
  "no_processes = \<lparr>rs_child = (\<lambda>_. None), rs_starting = {}, rs_children = [], rs_exit = (\<lambda>_. None), rs_pass = [],
     rs_code = (\<lambda>_. None)\<rparr>"

text \<open>A process of the agent's own whose exit it has not recorded.\<close>

definition waited_for :: "reap_state \<Rightarrow> int \<Rightarrow> bool" where
  "waited_for s pid \<longleftrightarrow> pid \<in> rs_starting s \<or> (pid \<in> set (rs_children s) \<and> rs_exit s pid = None)"

definition free :: "reap_state \<Rightarrow> int \<Rightarrow> bool" where
  "free s pid \<longleftrightarrow> rs_child s pid = None \<and> pid \<notin> rs_starting s \<and> pid \<notin> set (rs_children s)"

text \<open>\<open>Wait4(pid, WNOHANG)\<close> takes a zombie and leaves a live child alone.\<close>

definition wait4 :: "int \<Rightarrow> (int \<Rightarrow> child option) \<Rightarrow> int \<Rightarrow> child option" where
  "wait4 pid c = (case c pid of Some (Zombie _) \<Rightarrow> c(pid := None) | _ \<Rightarrow> c)"

inductive reap_step :: "reap_state \<Rightarrow> reap_state \<Rightarrow> bool" where
  starts: "free s pid \<Longrightarrow> reap_step s (s\<lparr>rs_child := (rs_child s)(pid \<mapsto> Alive), rs_starting := insert pid (rs_starting s),
     rs_exit := (rs_exit s)(pid := None), rs_code := (rs_code s)(pid := None)\<rparr>)"
| marks: "pid \<in> rs_starting s \<Longrightarrow>
     reap_step s (s\<lparr>rs_starting := rs_starting s - {pid}, rs_children := pid # rs_children s\<rparr>)"
| adopts: "free s pid \<Longrightarrow> reap_step s (s\<lparr>rs_child := (rs_child s)(pid \<mapsto> Alive)\<rparr>)"
| ends: "rs_child s pid = Some Alive \<Longrightarrow> reap_step s (s\<lparr>rs_child := (rs_child s)(pid \<mapsto> Zombie code),
     rs_code := (if waited_for s pid then (rs_code s)(pid \<mapsto> code) else rs_code s)\<rparr>)"
| looks: "rs_pass s = [] \<Longrightarrow> \<forall>pid \<in> set zs. \<exists>code. rs_child s pid = Some (Zombie code) \<Longrightarrow> reap_step s (s\<lparr>rs_pass := zs\<rparr>)"
| skips: "rs_pass s = pid # rest \<Longrightarrow> pid \<in> set (rs_children s) \<Longrightarrow> reap_step s (s\<lparr>rs_pass := rest\<rparr>)"
| reaps: "rs_pass s = pid # rest \<Longrightarrow> pid \<notin> set (rs_children s) \<Longrightarrow>
     reap_step s (s\<lparr>rs_pass := rest, rs_child := wait4 pid (rs_child s)\<rparr>)"
| collects: "pid \<in> set (rs_children s) \<Longrightarrow> rs_exit s pid = None \<Longrightarrow> rs_child s pid = Some (Zombie code) \<Longrightarrow>
     reap_step s (s\<lparr>rs_child := (rs_child s)(pid := None), rs_exit := (rs_exit s)(pid \<mapsto> code)\<rparr>)"
| finds_none: "pid \<in> set (rs_children s) \<Longrightarrow> rs_exit s pid = None \<Longrightarrow> rs_child s pid = None \<Longrightarrow>
     reap_step s (s\<lparr>rs_exit := (rs_exit s)(pid \<mapsto> -1)\<rparr>)"
| unmarks: "pid \<in> set (rs_children s) \<Longrightarrow> rs_exit s pid \<noteq> None \<Longrightarrow>
     reap_step s (s\<lparr>rs_children := removeAll pid (rs_children s)\<rparr>)"

text \<open>The states reached while every process is marked before it ends.\<close>

definition marked_in_time :: "reap_state \<Rightarrow> bool" where
  "marked_in_time s \<longleftrightarrow> (\<forall>pid \<in> rs_starting s. rs_child s pid = Some Alive)"

inductive reached :: "(reap_state \<Rightarrow> bool) \<Rightarrow> reap_state \<Rightarrow> bool" for ok where
  at_first: "reached ok no_processes"
| then_step: "reached ok s \<Longrightarrow> reap_step s t \<Longrightarrow> ok t \<Longrightarrow> reached ok t"

definition reap_inv :: "reap_state \<Rightarrow> bool" where
  "reap_inv s \<longleftrightarrow>
     (\<forall>pid. waited_for s pid \<longrightarrow> rs_exit s pid = None
        \<and> (rs_child s pid = Some Alive \<or> (\<exists>code. rs_child s pid = Some (Zombie code) \<and> rs_code s pid = Some code)))
     \<and> (\<forall>pid code. rs_exit s pid = Some code \<longrightarrow> rs_code s pid = Some code)"

lemma reap_inv_step:
  assumes "reap_step s t" and "reap_inv s" and "marked_in_time s"
  shows "reap_inv t"
  using assms
proof (cases rule: reap_step.cases)
  case (reaps pid rest)
  then have "waited_for s i \<Longrightarrow> wait4 pid (rs_child s) i = rs_child s i" for i
    using assms(3) by (auto simp: waited_for_def wait4_def marked_in_time_def split: option.split child.split)
  then show ?thesis using assms(2) reaps by (auto simp: reap_inv_def waited_for_def)
qed (auto simp: reap_inv_def waited_for_def free_def marked_in_time_def split: if_splits)


text \<open>A run: a process starts, is marked, ends with 3 and is collected, the reaper looking on.\<close>

definition started_7 :: reap_state where
  "started_7 = no_processes\<lparr>rs_child := [7 \<mapsto> Alive], rs_starting := {7}\<rparr>"

lemma starts_7: "reap_step no_processes started_7"
  using reap_step.starts[of no_processes 7] by (simp add: free_def started_7_def) (simp add: no_processes_def)


text \<open>
  The mark comes after the start, so a process may end, and a pass of the reaper run, in between: then the
  exit code is lost, and the agent records minus one for a process that ended with zero.
\<close>

lemma stolen_exit: "\<exists>s. reap_step\<^sup>*\<^sup>* no_processes s \<and> rs_code s 7 = Some 0 \<and> rs_exit s 7 = Some (-1)"
proof -
  let ?ended = "started_7\<lparr>rs_child := [7 \<mapsto> Zombie 0], rs_code := [7 \<mapsto> 0]\<rparr>"
  let ?seen = "?ended\<lparr>rs_pass := [7]\<rparr>"
  let ?taken = "?ended\<lparr>rs_child := Map.empty, rs_pass := []\<rparr>"
  let ?marked = "?taken\<lparr>rs_starting := {}, rs_children := [7]\<rparr>"
  let ?lost = "?marked\<lparr>rs_exit := [7 \<mapsto> -1]\<rparr>"
  note d = started_7_def no_processes_def
  have "reap_step started_7 ?ended" using reap_step.ends[of started_7 7 0] by (simp add: d waited_for_def)
  moreover have "reap_step ?ended ?seen" using reap_step.looks[of ?ended "[7]"] by (simp add: d)
  moreover have "reap_step ?seen ?taken" using reap_step.reaps[of ?seen 7 "[]"] by (simp add: d wait4_def)
  moreover have "reap_step ?taken ?marked" using reap_step.marks[of 7 ?taken] by (simp add: d)
  moreover have "reap_step ?marked ?lost" using reap_step.finds_none[of 7 ?marked] by (simp add: d)
  ultimately have "reap_step\<^sup>*\<^sup>* no_processes ?lost"
    using starts_7 by (meson converse_rtranclp_into_rtranclp rtranclp.rtrancl_refl)
  then show ?thesis by (intro exI[of _ ?lost]) (simp add: d)
qed

end
