(* ===== verification/AgentBoot.thy ===== *)
theory AgentBoot
  imports AgentJobs Reaper PodSpec
begin

section \<open>The agent comes and goes (\<open>agent/main.go\<close>, \<open>shutdown\<close>)\<close>

text \<open>
  The container the pod spec describes starts the agent: the hash in its environment is what \<open>main\<close> reads.
  Kubernetes stops it with a SIGTERM and a grace period, which the agent passes on.  The one theorem
  ties the pod spec of \<open>src/podspec.ts\<close> to who the agent admits, the other to how long it stays.
\<close>

subsection \<open>Installing\<close>

text \<open>
  \<open>install\<close>: the init container copies the agent's own executable, whose path the system may refuse to tell, to the
  volume the kernel container mounts.  Permission bits are not modelled: \<open>os.Chmod\<close> is the look at the path it begins with.
\<close>

definition install :: "jsstring + byte list \<Rightarrow> byte list \<Rightarrow> file_system \<Rightarrow> (jsstring + unit) \<times> file_system" where
  "install executable path fs =
     (case executable of
        Inl m \<Rightarrow> (Inl m, fs)
      | Inr self \<Rightarrow>
          (case ReadFile fs self of
             Inl e \<Rightarrow> (Inl (path_error (if e = EISDIR then ''read'' else ''open'') self e), fs)
           | Inr source \<Rightarrow>
               (case MkdirAll (Dir path) fs of
                  (Inl m, fs') \<Rightarrow> (Inl m, fs')
                | (Inr _, fs') \<Rightarrow>
                    (case WriteFile path source fs' of
                       (Inl m, fs'') \<Rightarrow> (Inl m, fs'')
                     | (Inr _, fs'') \<Rightarrow>
                         (case Stat fs'' path of
                            Inl e \<Rightarrow> (Inl (path_error ''chmod'' path e), fs'')
                          | Inr _ \<Rightarrow> (Inr (), fs''))))))"

text \<open>An installation that succeeded left the agent at the path, unless a device was there to swallow it.\<close>

lemma install_copies:
  assumes "fs_wf fs" and "install (Inr self) path fs = (Inr (), fs')"
  shows "ReadFile fs' path = ReadFile fs self \<or> (\<exists>i x. Stat fs' path = Inr i \<and> fs_inode fs' i = Some (Special x))"
proof -
  from assms(2) obtain source fs1 where "ReadFile fs self = Inr source" and "MkdirAll (Dir path) fs = (Inr (), fs1)"
    and "WriteFile path source fs1 = (Inr (), fs')"
    by (auto simp: install_def split: sum.splits prod.splits)
  with WriteFile_ReadFile[OF fs_wf_MkdirAll[OF assms(1)]] show ?thesis by metis
qed

subsection \<open>Starting\<close>

text \<open>\<open>os.Getenv\<close>: the empty string for what is not there\<close>

definition Getenv :: "(jsstring \<times> jsstring) list \<Rightarrow> jsstring \<Rightarrow> byte list" where
  "Getenv environ name = (case map_of environ name of None \<Rightarrow> [] | Some v \<Rightarrow> utf8_bytes v)"

definition boot :: "(jsstring \<times> jsstring) list \<Rightarrow> agent option" where
  "boot environ = agent_of_env (Getenv environ TokenHashEnv)"

definition container_environ :: "V1Container \<Rightarrow> (jsstring \<times> jsstring) list" where
  "container_environ ctr = map (\<lambda>v. (ev_name v, ev_value v)) (or_else (ctr_env ctr) [])"

text \<open>C7: A pod admits its own sandbox: the container of the pod spec built for a sandbox, and no other setting than
  what that spec sets, starts an agent that lets a request through exactly when its bearer token has the hash
  of the token the adapter derives for that sandbox, so the adapter's own channel is always admitted.\<close>

theorem pod_admits_its_sandbox:
  assumes "buildPodSpec config \<lparr>tokenSha256 = token_hash (agentToken secret sid)\<rparr> options = Inr spec"
  shows "\<exists>ctr a. containers spec = [ctr] \<and> boot (container_environ ctr) = Some a
    \<and> (\<forall>r. authenticated a r = None \<longleftrightarrow> (\<exists>token. rq_auth r = lit ''Bearer '' @ token
          \<and> sha256 token = sha256 (utf8_bytes (agentToken secret sid))))
    \<and> (\<forall>ep fs. admitted (ep\<lparr>ep_token := agentToken secret sid\<rparr>) (new_pod a fs))"
proof -
  let ?token = "agentToken secret sid"
  obtain selector where "containers spec =
      [kernel_container config \<lparr>tokenSha256 = token_hash ?token\<rparr> options selector]"
    using assms by (auto elim!: buildPodSpec_Inr)
  moreover have "agent_of_env (utf8_bytes (token_hash ?token)) = Some (newAgent (sha256 (utf8_bytes ?token)))"
    using agent_of_env_hash[of "sha256 (utf8_bytes ?token)"] by (simp add: token_hash_def)
  ultimately show ?thesis
    using admitted_pod ascii_agentToken
    by (auto simp: boot_def container_environ_def kernel_container_def or_else_def Getenv_def TokenHashEnv_def
        AGENT_TOKEN_HASH_ENV_def authenticated_None newAgent_def)
qed

lemma pod_admits_its_sandbox_witness:
  "\<exists>spec ctr. buildPodSpec demo_config \<lparr>tokenSha256 = token_hash (agentToken (js ''secret'') (js ''sb''))\<rparr> None = Inr spec
     \<and> containers spec = [ctr] \<and> boot (container_environ ctr) \<noteq> None"
proof -
  obtain spec where spec: "buildPodSpec demo_config \<lparr>tokenSha256 = token_hash (agentToken (js ''secret'') (js ''sb''))\<rparr> None = Inr spec"
    by (simp add: buildPodSpec_def gpuNodeSelector_def requested_gpu_def Let_def)
  from pod_admits_its_sandbox[OF spec] show ?thesis using spec by auto
qed

subsection \<open>Stopping\<close>

definition default_grace :: int where "default_grace = 25000000000"
definition shutdown_pause :: int where "shutdown_pause = 100000000"

definition shutdown_signals :: "int \<Rightarrow> int list \<Rightarrow> (int \<times> int) list" where
  "shutdown_signals self children = (if self = 1 then [(-1, 15)] else map (\<lambda>pid. (- pid, 15)) children)"

text \<open>
  The children left at the \<open>k\<close>-th look and how late the rest after it ends come from outside; the result says whether
  they were gone, and when.
\<close>

function shutdown_loop :: "(nat \<Rightarrow> int list) \<Rightarrow> (nat \<Rightarrow> nat) \<Rightarrow> int \<Rightarrow> nat \<Rightarrow> int \<Rightarrow> bool \<times> int" where
  "shutdown_loop children late deadline k now =
     (if \<not> now < deadline then (False, now)
      else if children k = [] then (True, now)
      else shutdown_loop children late deadline (Suc k) (now + shutdown_pause + int (late k)))"
  by pat_completeness auto
termination
  by (relation "measure (\<lambda>(children, late, deadline, k, now). nat (deadline - now))") (auto simp: shutdown_pause_def)

declare shutdown_loop.simps [simp del]

definition shutdown :: "int \<Rightarrow> int list \<Rightarrow> (nat \<Rightarrow> int list) \<Rightarrow> (nat \<Rightarrow> nat) \<Rightarrow> int \<Rightarrow> int \<Rightarrow> (int \<times> int) list \<times> bool \<times> int" where
  "shutdown self marks children late grace now =
     (shutdown_signals self marks, shutdown_loop children late (now + grace) 0 now)"

lemma shutdown_round:
  assumes "shutdown_loop children late deadline k now = (gone, later)"
  shows "if now < deadline then
      if children k = [] then gone \<and> later = now
      else shutdown_loop children late deadline (Suc k) (now + shutdown_pause + int (late k)) = (gone, later)
    else \<not> gone \<and> later = now"
  using assms by (subst (asm) shutdown_loop.simps) (simp split: if_splits)

lemma shutdown_loop_ends:
  assumes "shutdown_loop children late deadline k now = (gone, later)" and "\<And>i. int (late i) \<le> lag"
  shows "later < max (now + 1) (deadline + shutdown_pause + lag)
    \<and> (if gone then (\<exists>i. children i = []) else deadline \<le> later)"
  using assms(1)
proof (induction "nat (deadline - now)" arbitrary: k now rule: less_induct)
  case less
  let ?next = "now + shutdown_pause + int (late k)"
  have pause: "0 < shutdown_pause" by (simp add: shutdown_pause_def)
  note round = shutdown_round[OF less.prems]
  show ?case
  proof (cases "now < deadline \<and> children k \<noteq> []")
    case True
    then have "shutdown_loop children late deadline (Suc k) ?next = (gone, later)" using round by simp
    then have "later < max (?next + 1) (deadline + shutdown_pause + lag)
        \<and> (if gone then (\<exists>i. children i = []) else deadline \<le> later)"
      by (rule less.hyps[rotated]) (use True pause in simp)
    moreover have "?next + 1 \<le> deadline + shutdown_pause + lag" using True assms(2)[of k] by simp
    ultimately show ?thesis by (simp add: less_max_iff_disj)
  next
    case False
    then show ?thesis using round by (auto split: if_splits)
  qed
qed



end
