(* ===== verification/AgentStorage.thy ===== *)
theory AgentStorage
  imports AgentLink SandboxSpec
begin

section \<open>Files, from the adapter to the pod and back\<close>

text \<open>
  The file methods of the channel against the agent's endpoints: what is written is what is read, a bounded
  read on a quiet file system answers the file or why not, and a listing comes back entry by
  entry.
\<close>

subsection \<open>Requests about a path\<close>

lemma filePath_url:
  assumes "filePath endpoint path = Inr url" and "63 \<notin> set endpoint"
  shows "url = endpoint @ 63 # query_of [(js ''path'', uri_text (utf8_bytes path))]"
    "url_path (url @ rest) = endpoint"
    "url_query (url @ rest) = query_of [(js ''path'', uri_text (utf8_bytes path))] @ rest"
proof -
  show url: "url = endpoint @ 63 # query_of [(js ''path'', uri_text (utf8_bytes path))]"
    using assms(1) by (auto simp: filePath_def encodeURIComponent_def uri_text_def query_of_def pair_of_def bindR_eq_Inr
        split: if_splits) (simp_all add: js_def)
  have "\<forall>c \<in> set endpoint. c \<noteq> 63" using assms(2) by auto
  then show "url_path (url @ rest) = endpoint"
    "url_query (url @ rest) = query_of [(js ''path'', uri_text (utf8_bytes path))] @ rest"
    by (simp_all add: url url_path_def url_query_def takeWhile_append dropWhile_append)
qed

lemma Query_Get_path:
  assumes "rq_query r = query_of [(js ''path'', uri_text path)]"
  shows "Query_Get r ''path'' = path"
  using Query_Get_of[OF assms, of "''path''"]
  by (simp add: clean_values key_plain QueryUnescape_uri lit_names)

lemma pathParam_path:
  "rq_query r = query_of [(js ''path'', uri_text path)] \<Longrightarrow> pathParam r = (if path = [] then None else Some path)"
  by (simp add: pathParam_def Query_Get_path)

subsection \<open>Written, then read\<close>

lemma walk_nofollow:
  "walk fs True links d ns = Inr (Found i) \<Longrightarrow> \<exists>j. walk fs False links d ns = Inr (Found j)"
proof (induction fs "True" links d ns rule: walk.induct)
  case (2 fs links d n ns)
  then show ?case by (auto simp: walk.simps(2) split: hop.splits if_splits)
qed simp

lemma Lstat_found: "Stat fs path = Inr i \<Longrightarrow> \<exists>j. Lstat fs path = Inr j"
  using walk_nofollow by (fastforce simp: Stat_def Lstat_def stat_def locate_def split: sum.splits destination.splits if_splits)

lemma ReadFile_found: "ReadFile fs path = Inr bs \<Longrightarrow> \<exists>i. Stat fs path = Inr i"
  by (auto simp: ReadFile_def split: sum.splits)

lemma readFile_handler_reads:
  assumes "pathParam r = Some path" and "ReadFile fs path = Inr bs"
  shows "readFile_handler r fs = octets bs"
  using assms ReadFile_found[OF assms(2)] Lstat_found[of fs path] by (auto simp: readFile_handler_def)

lemma writeFile_handler_wrote:
  assumes "writeFile_handler r fs = (ans, fs')" and "ans_status ans < 400" and "fs_wf fs"
  shows "\<exists>path fs1. pathParam r = Some path \<and> fs_wf fs1 \<and> WriteFile path (rq_body r) fs1 = (Inr (), fs')"
  using assms fs_wf_MkdirAll
  by (fastforce simp: writeFile_handler_def no_path_def writeError_def split: option.splits if_splits prod.splits sum.splits)

lemma arrive_file:
  assumes "ascii (ep_token ep)" and "filePath endpoint path = Inr url" and "63 \<notin> set endpoint"
  shows "rq_method (arrive ep (plain_request ep meth (url @ rest) payload signal)) = meth"
    "rq_path (arrive ep (plain_request ep meth (url @ rest) payload signal)) = endpoint"
    "rq_query (arrive ep (plain_request ep meth (url @ rest) payload signal)) =
       query_of [(js ''path'', uri_text (utf8_bytes path))] @ rest"
    "rq_body (arrive ep (plain_request ep meth (url @ rest) payload signal)) = body_bytes (payload_body payload)"
  unfolding arrive_plain[OF assms(1)] by (simp_all add: filePath_url(2,3)[OF assms(2,3)])

lemma body_bytes_raw [simp]: "body_bytes (payload_body (RawPayload c)) = content_bytes c"
  by (cases c) (simp_all add: body_bytes_def payload_body_def content_bytes_def)

lemma files_path: "63 \<notin> set (js ''/files'')" "63 \<notin> set (js ''/files/list'')" "63 \<notin> set (js ''/files/bounded'')"
  by (simp_all add: js_def)

text \<open>What a write does, and what one that succeeded did.\<close>

lemma agent_writeFile_puts:
  assumes "admitted ep p" and "filePath (js ''/files'') path = Inr url"
    and "writeFile_handler (arrive ep (plain_request ep (js ''PUT'') url (RawPayload c) None))
      (pod_fs (meanwhile w (pod_at w ep p s))) = (ans, fs')"
    and "t = sent net (plain_request ep (js ''PUT'') url (RawPayload c) None) s"
  shows "agent_writeFile (hosted w net ep p pf) ep path c s =
      or_refused ep (js ''write '' @ path) (deliver (fst (net (log s))) ans) (returnIO ()) t"
    and "pod_fs (pod_at w ep p t) = fs'"
    and "pathParam (arrive ep (plain_request ep (js ''PUT'') url (RawPayload c) None)) =
      (if utf8_bytes path = [] then None else Some (utf8_bytes path))"
    and "rq_body (arrive ep (plain_request ep (js ''PUT'') url (RawPayload c) None)) = content_bytes c"
proof -
  let ?req = "plain_request ep (js ''PUT'') url (RawPayload c) None"
  have ascii: "ascii (ep_token ep)" using assms(1) by (simp add: admitted_def)
  note a = arrive_file[OF ascii assms(2) files_path(1), of "js ''PUT''" "[]" "RawPayload c" None, simplified]
  have mux: "mux (arrive ep ?req) = Inr PutFile" by (rule mux_endpoints(1)) (simp_all add: a)
  have put: "js ''PUT'' \<noteq> js ''HEAD''" by simp
  note sends = agent_request_hosted(1)[OF assms(1) mux put] agent_request_hosted(2)[OF assms(1) mux put]
  show "agent_writeFile (hosted w net ep p pf) ep path c s =
      or_refused ep (js ''write '' @ path) (deliver (fst (net (log s))) ans) (returnIO ()) t"
    using assms(2) unfolding agent_writeFile_def Let_def assms(4)
    by (simp add: io_eval sends(1) Let_def handle_def assms(3))
  show "pod_fs (pod_at w ep p t) = fs'" unfolding assms(4) sends(2) by (simp add: Let_def handle_def assms(3))
  show "pathParam (arrive ep ?req) = (if utf8_bytes path = [] then None else Some (utf8_bytes path))"
    using pathParam_path[OF a(3)] by simp
  show "rq_body (arrive ep ?req) = content_bytes c" using a(4) by simp
qed

lemma agent_writeFile_wrote:
  assumes "admitted ep p" and "fs_wf (pod_fs (meanwhile w (pod_at w ep p s)))"
    and "agent_writeFile (hosted w net ep p pf) ep path c s = (Inr (), t)"
  shows "\<exists>fs1. utf8_bytes path \<noteq> [] \<and> fs_wf fs1
    \<and> WriteFile (utf8_bytes path) (content_bytes c) fs1 = (Inr (), pod_fs (pod_at w ep p t))"
proof -
  from assms(3) obtain url where url: "filePath (js ''/files'') path = Inr url"
    by (auto simp: agent_writeFile_def Let_def elim!: bindIO_eqE simp: io_run)
  let ?req = "plain_request ep (js ''PUT'') url (RawPayload c) None"
  obtain ans fs' where h: "writeFile_handler (arrive ep ?req) (pod_fs (meanwhile w (pod_at w ep p s))) = (ans, fs')"
    by fastforce
  note puts = agent_writeFile_puts[OF assms(1) url h refl]
  from assms(3) have t: "t = sent net ?req s" and ok: "ans_status ans < 400"
    unfolding puts(1) by (auto simp: io_eval or_refused_def split: if_splits sum.splits)
  from writeFile_handler_wrote[OF h ok assms(2)] puts(2)[of net] puts(3,4) show ?thesis
    unfolding t by (auto split: if_splits)
qed

lemma agent_readFile_reads:
  assumes "admitted ep p" and "filePath (js ''/files'') path = Inr url" and "utf8_bytes path \<noteq> []"
    and "ReadFile (pod_fs (meanwhile w (pod_at w ep p s))) (utf8_bytes path) = Inr bs"
  shows "agent_readFile (hosted w net ep p pf) ep path s =
    (Inr (ReadOk bs), sent net (plain_request ep (js ''GET'') url NoPayload None) s)"
proof -
  let ?req = "plain_request ep (js ''GET'') url NoPayload None"
  have ascii: "ascii (ep_token ep)" using assms(1) by (simp add: admitted_def)
  note a = arrive_file[OF ascii assms(2) files_path(1), of "js ''GET''" "[]" NoPayload None, simplified]
  have mux: "mux (arrive ep ?req) = Inr GetFile" by (rule mux_endpoints(2)) (simp_all add: a)
  have get: "js ''GET'' \<noteq> js ''HEAD''" by simp
  have "pathParam (arrive ep ?req) = Some (utf8_bytes path)"
    using assms(3) pathParam_path[OF a(3)] by simp
  note reads = readFile_handler_reads[OF this assms(4)]
  show ?thesis
    using assms(2) unfolding agent_readFile_def Let_def
    by (simp add: io_eval agent_request_hosted(1)[OF assms(1) mux get] Let_def handle_def reads octets_def)
qed

text \<open>C6: A file crosses the channel and comes back whole: when \<open>writeFile\<close> succeeded through the agent, a
  \<open>readFile\<close> of the same path answers exactly the bytes of the content, the UTF-8 ones of a text, whatever
  links the path leads through, whether the file was there or was made with its directories, and
  however the network cuts the answer; only a device may have swallowed them.\<close>

theorem write_read_end_to_end:
  assumes "admitted ep p" and "fs_wf (pod_fs (meanwhile w (pod_at w ep p s)))"
    and "agent_writeFile (hosted w net ep p pf) ep path c s = (Inr (), t)"
    and "pod_fs (meanwhile w (pod_at w ep p t)) = pod_fs (pod_at w ep p t)"
    and "\<nexists>i x. Stat (pod_fs (pod_at w ep p t)) (utf8_bytes path) = Inr i
      \<and> fs_inode (pod_fs (pod_at w ep p t)) i = Some (Special x)"
  shows "\<exists>u. agent_readFile (hosted w net ep p pf) ep path t = (Inr (ReadOk (content_bytes c)), u)"
proof -
  from assms(3) obtain url where url: "filePath (js ''/files'') path = Inr url"
    by (auto simp: agent_writeFile_def Let_def elim!: bindIO_eqE simp: io_run)
  from agent_writeFile_wrote[OF assms(1-3)] obtain fs1 where path: "utf8_bytes path \<noteq> []"
    and "fs_wf fs1" "WriteFile (utf8_bytes path) (content_bytes c) fs1 = (Inr (), pod_fs (pod_at w ep p t))" by blast
  from WriteFile_ReadFile[OF this(2,3)] assms(4,5)
  have "ReadFile (pod_fs (meanwhile w (pod_at w ep p t))) (utf8_bytes path) = Inr (content_bytes c)" by auto
  from agent_readFile_reads[OF assms(1) url path this] show ?thesis by blast
qed

definition demo_host_pod :: pod where "demo_host_pod = new_pod demo_agent demo_fs"

definition demo_net :: "request list \<Rightarrow> nat list \<times> nat" where "demo_net l = ([1], 5)"

lemma demo_fs_wf: "fs_wf demo_fs"
  by (auto simp: fs_wf_def demo_fs_def is_dir_def split: if_splits)

lemma demo_quiet [simp]: "meanwhile demo_world q = q"
  by (simp add: meanwhile_def demo_world_def)

lemma demo_written: "writeFile_handler
    \<lparr>rq_method = m, rq_path = u, rq_query = query_of [(js ''path'', uri_text (lit ''/g''))], rq_auth = a, rq_body = [1]\<rparr> demo_fs
    = (writeJSON (JObj []), create 0 (lit ''g'') (Regular [1]) demo_fs)"
proof -
  have "Dir (lit ''/g'') = [slash]"
    by (simp add: Dir_def demo_path slash_def Clean_def Split_def rooted_def clean_step_def)
  moreover have "MkdirAll [slash] demo_fs = (Inr (), demo_fs)"
    by (simp add: MkdirAll.simps Stat_def stat_def locate_def components_def slash_def Split_def demo_path rooted_def
        walk.simps hop_of_def entry_of_def is_dir_def demo_fs_def)
  moreover have "WriteFile (lit ''/g'') [1] demo_fs = (Inr (), create 0 (lit ''g'') (Regular [1]) demo_fs)"
    by (simp add: WriteFile_def locate_def components_def slash_def Split_def demo_path rooted_def
        walk.simps hop_of_def entry_of_def demo_fs_def)
  ultimately show ?thesis
    by (simp add: writeFile_handler_def pathParam_path slash_def maxRequestBytes_def demo_path)
qed

lemma demo_lit: "js ''/g'' = [47, 103]" "lit ''/g'' = utf8_bytes (js ''/g'')"
  by (simp_all add: js_def lit_def)

lemma write_read_end_to_end_witness:
  "\<exists>t u. agent_writeFile (hosted demo_world demo_net demo_endpoint demo_host_pod (answering [])) demo_endpoint (js ''/g'')
       (BytesContent [1]) demo_state = (Inr (), t)
     \<and> agent_readFile (hosted demo_world demo_net demo_endpoint demo_host_pod (answering [])) demo_endpoint (js ''/g'') t
       = (Inr (ReadOk (content_bytes (BytesContent [1]))), u)"
proof -
  have admitted: "admitted demo_endpoint demo_host_pod" by (simp add: demo_host_pod_def demo_admitted)
  have start: "pod_fs (meanwhile demo_world (pod_at demo_world demo_endpoint demo_host_pod demo_state)) = demo_fs"
    by (simp add: pod_at_def pod_after_def demo_state_def demo_host_pod_def new_pod_def)
  have url: "\<exists>url. filePath (js ''/files'') (js ''/g'') = Inr url"
    by (simp add: filePath_def encodeURIComponent_def demo_lit is_high_def is_low_def bindR_eq_Inr)
  then obtain url where url: "filePath (js ''/files'') (js ''/g'') = Inr url" by blast
  have ascii: "ascii (ep_token demo_endpoint)" using admitted by (simp add: admitted_def)
  have h: "writeFile_handler (arrive demo_endpoint (plain_request demo_endpoint (js ''PUT'') url (RawPayload (BytesContent [1])) None))
      (pod_fs (meanwhile demo_world (pod_at demo_world demo_endpoint demo_host_pod demo_state)))
      = (writeJSON (JObj []), create 0 (lit ''g'') (Regular [1]) demo_fs)"
    unfolding start arrive_plain[OF ascii] filePath_url(2,3)[OF url files_path(1), of "[]", simplified]
    by (simp add: demo_written[unfolded demo_lit(2)] content_bytes_def)
  note puts = agent_writeFile_puts(1,2)[OF admitted url h refl]
  define t where "t = sent demo_net (plain_request demo_endpoint (js ''PUT'') url (RawPayload (BytesContent [1])) None) demo_state"
  note puts = puts[where net = demo_net, folded t_def]
  have "agent_writeFile (hosted demo_world demo_net demo_endpoint demo_host_pod (answering [])) demo_endpoint (js ''/g'')
      (BytesContent [1]) demo_state = (Inr (), t)"
    unfolding puts(1) by (simp add: or_refused_def writeJSON_def io_eval)
  moreover have "\<nexists>i x. Stat (create 0 (lit ''g'') (Regular [1]) demo_fs) (utf8_bytes (js ''/g'')) = Inr i
      \<and> fs_inode (create 0 (lit ''g'') (Regular [1]) demo_fs) i = Some (Special x)"
    by (auto simp: create_def demo_fs_def split: if_splits)
  ultimately show ?thesis
    using write_read_end_to_end[OF admitted, of demo_world demo_state demo_net "answering []" "js ''/g''" "BytesContent [1]" t]
    unfolding start by (auto simp: demo_fs_wf puts(2))
qed

subsection \<open>Bounded reads of a quiet file system\<close>

text \<open>Nobody else touches the files while the read runs, and its deadline does not pass.\<close>

definition quiet_read :: "file_system \<Rightarrow> read_env \<Rightarrow> bool" where
  "quiet_read fs env \<longleftrightarrow> re_fs env = (\<lambda>_. fs) \<and> re_late env = (\<lambda>_. False)"

lemma read_some_quiet:
  assumes "quiet_read fs env" and "fs_inode fs i = Some (Regular bs)"
  shows "k \<le> limit \<Longrightarrow> k \<le> length bs \<Longrightarrow> read_some env i limit t (take k bs) = Inr (take limit bs)"
proof (induction "limit - k" arbitrary: k t rule: less_induct)
  case less
  have fs: "fs_inode (re_fs env t) i = Some (Regular bs)" "\<not> re_late env t"
    using assms by (auto simp: quiet_read_def)
  have len: "length (take k bs) = k" using less.prems by simp
  note step = read_some.simps[of env i limit t "take k bs", unfolded len]
  define n where "n = min (Suc (re_ask env t)) (limit - k)"
  show ?case
  proof (cases "limit \<le> k \<or> k = length bs")
    case True
    then show ?thesis using less.prems fs by (auto simp: step)
  next
    case False
    let ?k = "min (k + n) (length bs)"
    have chunk: "take n (drop k bs) \<noteq> []" using False less.prems by (simp add: n_def)
    have "take k bs @ take n (drop k bs) = take ?k bs" by (simp add: take_add flip: take_take)
    then have "read_some env i limit t (take k bs) = read_some env i limit (Suc t) (take ?k bs)"
      using False fs chunk unfolding step n_def[symmetric] by (simp add: Let_def)
    also have "\<dots> = Inr (take limit bs)"
      using False less.prems by (intro less.hyps) (auto simp: n_def)
    finally show ?thesis .
  qed
qed

definition over_budget :: "byte list \<Rightarrow> nat \<Rightarrow> int \<Rightarrow> jsstring" where
  "over_budget path n budget = go_text path @ js '' is '' @ show_int (int n) @ js '' bytes, over the budget of ''
     @ show_int budget"

lemma readBounded_quiet:
  assumes "quiet_read fs env" and "openNoFollow (\<lambda>_. fs) path = Inr (i, t)" and "fs_inode fs i = Some (Regular bs)"
    and "0 \<le> budget"
  shows "readBounded env path budget =
    (if budget < int (length bs) then Inl (Failed (over_budget path (length bs) budget)) else Inr bs)"
proof -
  have "re_fs env = (\<lambda>_. fs)" using assms(1) by (simp add: quiet_read_def)
  moreover have "read_some env i (nat (budget + 1)) (Suc t) [] = Inr (take (nat (budget + 1)) bs)"
    using read_some_quiet[OF assms(1,3), of 0] by simp
  ultimately show ?thesis using assms(2-4) by (auto simp: readBounded_def regular_size_def over_budget_def)
qed

lemma bounded_url:
  assumes "filePath (js ''/files/bounded'') path = Inr url" and "ascii (ep_token ep)"
    and "r = arrive ep (plain_request ep (js ''GET'') (url @ js ''&maxBytes='' @ show_int m @ js ''&timeoutMs='' @ show_int ms)
      NoPayload signal)"
  shows "rq_query r = query_of [(js ''path'', uri_text (utf8_bytes path)), (js ''maxBytes'', show_int m),
      (js ''timeoutMs'', show_int ms)]" and "mux r = Inr GetFileBounded"
proof -
  note a = arrive_file[OF assms(2,1) files_path(3), of "js ''GET''" _ NoPayload signal]
  show "rq_query r = query_of [(js ''path'', uri_text (utf8_bytes path)), (js ''maxBytes'', show_int m),
      (js ''timeoutMs'', show_int ms)]"
    unfolding assms(3) a by (simp add: query_of_def pair_of_def js_def)
  show "mux r = Inr GetFileBounded" unfolding assms(3) by (rule mux_endpoints(3)) (simp_all add: a)
qed

lemma refusal_text:
  "well_formed m \<Longrightarrow> readRefused ep what (deliver cuts (writeCodedError 500 ''read_failed'' m)) =
     Inr (ReadRefused (concat [js ''HTTP '', show_nat 500, js '': '', m]))"
  by (simp add: readRefused_def refusalOf_deliver)

text \<open>C19: On a file system nobody else is changing, a bounded read is the file or its size: a regular file reached
  without following a link comes back whole when it fits the budget, however the agent's reads and the
  network cut it, and is refused with its path, its size and the budget when it does not.\<close>

theorem bounded_read_end_to_end:
  assumes "admitted ep p" and "well_formed path" and "names_file (utf8_bytes path)"
    and "0 \<le> m" "m \<le> maxSafeInteger" and "0 < ms" "ms \<le> maxTimeoutMs"
    and "q = pod_at w ep p s" and "fs = pod_fs (meanwhile w q)" and "quiet_read fs (wd_reads w (pod_served q) fs)"
    and "wd_stalls w (pod_served q) = None" and "ag_boundedReads (pod_agent (meanwhile w q)) < maxBoundedReads"
    and "openNoFollow (\<lambda>_. fs) (utf8_bytes path) = Inr (i, t)" and "fs_inode fs i = Some (Regular bs)"
  shows "\<exists>u. agent_readFileBounded (hosted w net ep p pf) ep path
      \<lparr>budget_maxBytes = of_whole m, budget_timeoutMs = of_whole ms\<rparr> s =
    (Inr (if int (length bs) \<le> m then ReadOk bs
       else ReadRefused (concat [js ''HTTP '', show_nat 500, js '': '', path, js '' is '', show_int (int (length bs)),
         js '' bytes, over the budget of '', show_int m])), u)"
proof -
  have encoded: "encodeURIComponent path = Inr (uri_text (utf8_bytes path))"
    using assms(2) by (simp add: encodeURIComponent_def uri_text_def well_formed_def)
  then obtain url where url: "filePath (js ''/files/bounded'') path = Inr url"
    by (simp add: filePath_def bindR_def)
  have ascii: "ascii (ep_token ep)" using assms(1) by (simp add: admitted_def)
  let ?signal = "Some (boundedReadGiveUpMs (of_whole ms))"
  let ?req = "plain_request ep (js ''GET'') (url @ js ''&maxBytes='' @ show_int m @ js ''&timeoutMs='' @ show_int ms)
      NoPayload ?signal"
  note b = bounded_url[OF url ascii refl, of m ms ?signal]
  have get: "js ''GET'' \<noteq> js ''HEAD''" by simp
  let ?ans = "bounded_answer (utf8_bytes path) (readBounded (wd_reads w (pod_served q) fs) (utf8_bytes path) m)"
  have "readFileBounded_handler (wd_reads w (pod_served q) fs) None (arrive ep ?req) (pod_agent (meanwhile w q)) =
      (?ans, pod_agent (meanwhile w q))"
    using bounded_request_of[OF b(1) assms(3-7)] assms(12) by (simp add: readFileBounded_handler_def)
  then have "fst (handle w (pod_served q) GetFileBounded (arrive ep ?req) (meanwhile w q)) = ?ans"
    using assms(9,11) by (simp add: handle_def with_agent_def)
  then have sends: "agent_request (hosted w net ep p pf) ep (js ''read '' @ path) (js ''GET'')
      (url @ js ''&maxBytes='' @ show_int m @ js ''&timeoutMs='' @ show_int ms) NoPayload ?signal s =
      (Inr (deliver (fst (net (log s))) ?ans), sent net ?req s)"
    by (simp add: agent_request_hosted(1)[OF assms(1) b(2) get] Let_def assms(8))
  note result = readBounded_quiet[OF assms(10,13,14,4)]
  show ?thesis
  proof (cases "int (length bs) \<le> m")
    case True
    then show ?thesis
      using readAtMost_loop_whole[of 0 "nat m" "[]"] assms(4) result
      by (simp add: agent_readFileBounded_def Let_def url io_eval num_String_whole sends bounded_answer_def octets_def
          bodyOf_def readAtMost_def)
  next
    case False
    have "well_formed (over_budget (utf8_bytes path) (length bs) m)"
      using assms(2) by (simp add: over_budget_def well_formed_int)
    then show ?thesis
      using False result assms(2) refusal_text
      by (simp add: agent_readFileBounded_def Let_def url io_eval num_String_whole sends bounded_answer_def over_budget_def)
  qed
qed

lemma bounded_read_end_to_end_witness:
  "\<exists>u. agent_readFileBounded (hosted demo_world demo_net demo_endpoint demo_host_pod (answering [])) demo_endpoint
      (js ''/f'') \<lparr>budget_maxBytes = of_whole 3, budget_timeoutMs = of_whole 10\<rparr> demo_state = (Inr (ReadOk [104, 105]), u)"
proof -
  have admitted: "admitted demo_endpoint demo_host_pod" by (simp add: demo_host_pod_def demo_admitted)
  have start: "pod_at demo_world demo_endpoint demo_host_pod demo_state = demo_host_pod"
    by (simp add: pod_at_def pod_after_def demo_state_def)
  have bytes: "utf8_bytes (js ''/f'') = lit ''/f''" by (simp add: lit_def)
  have "names_file (lit ''/f'')" by (simp add: names_file_def HasPrefix_def demo_path slash_def Split_def)
  moreover have "openNoFollow (\<lambda>_. demo_fs) (lit ''/f'') = Inr (1, 2)"
    by (simp add: openNoFollow_def walked_names_def Split_def demo_path Openat_def hop_of_def entry_of_def demo_fs_def)
  moreover have "quiet_read demo_fs (wd_reads demo_world (pod_served demo_host_pod) demo_fs)"
    by (simp add: quiet_read_def demo_world_def)
  moreover have "pod_fs demo_host_pod = demo_fs" "wd_stalls demo_world (pod_served demo_host_pod) = None"
    "ag_boundedReads (pod_agent demo_host_pod) = 0" "fs_inode demo_fs 1 = Some (Regular [104, 105])"
    by (simp_all add: demo_host_pod_def new_pod_def demo_world_def demo_agent_def newAgent_def demo_fs_def)
  ultimately show ?thesis
    using bounded_read_end_to_end[OF admitted, of "js ''/f''" 3 10 demo_host_pod demo_world demo_state demo_fs 1 2 "[104, 105]"
        demo_net "answering []", unfolded start bytes]
    by (simp add: maxSafeInteger_def maxTimeoutMs_def maxBoundedReads_def)
qed

subsection \<open>Listings\<close>

lemma rune_at_scalar: "rune_at n bs = Some cp \<Longrightarrow> scalar cp"
proof -
  assume "rune_at n bs = Some cp"
  then have "utf8_run Start (take n bs) = (Start, [Some cp])"
    by (auto simp: rune_at_def split: if_splits prod.splits utf8_state.splits list.splits option.splits)
  from utf8_run_encode[OF _ this] show "scalar cp" by auto
qed

lemma well_formed_go_text [simp]: "well_formed (go_text bs)"
proof (induction bs rule: go_text.induct)
  case (2 b bs)
  show ?case
  proof (cases "List.find (\<lambda>n. rune_at n (b # bs) \<noteq> None) [1, 2, 3, 4]")
    case None
    have "well_formed (utf16 65533)" by (rule utf16_well_formed) (simp add: scalar_def)
    then have "well_formed (utf16 65533 @ go_text bs)" using 2(1)[OF None] by (rule well_formed_append)
    then show ?thesis using None by (simp add: go_text.simps(2) utf16_def)
  next
    case (Some n)
    then obtain cp where "rune_at n (b # bs) = Some cp" by (auto simp: find_Some_iff simp del: find.simps)
    then show ?thesis using 2(2)[OF Some] Some rune_at_scalar utf16_well_formed by (simp add: go_text.simps(2))
  qed
qed simp

lemma well_formed_path_error [simp]: "well_formed (path_error op path e)"
  by (simp add: path_error_def errno_text_def)

text \<open>What the caller of the adapter is told of an entry, and of a directory.\<close>

definition type_of :: "inode option \<Rightarrow> file_type" where
  "type_of x =
     (case x of Some (Regular _) \<Rightarrow> RegularFile | Some (Folder _ _) \<Rightarrow> Directory | Some (Link _) \<Rightarrow> Symlink
      | _ \<Rightarrow> OtherFile)"

definition shown :: "fileEntry \<Rightarrow> AgentFileEntry" where
  "shown e = \<lparr>afe_path = go_text (fe_path e), afe_type = or_else (fileTypeOf (js (fe_type e))) OtherFile,
     afe_size = of_whole (int (fe_size e))\<rparr>"

lemma shown_entry: "shown (entry_at fs dir e) =
  \<lparr>afe_path = go_text (Join dir (fst e)), afe_type = type_of (fs_inode fs (snd e)),
   afe_size = of_whole (int (inode_size fs (snd e)))\<rparr>"
  by (auto simp: shown_def entry_at_def type_of_def typeName_def fileTypeOf_def or_else_def split: option.split inode.split)

definition http_refusal :: "nat \<Rightarrow> jsstring \<Rightarrow> jsstring" where
  "http_refusal status m = concat [js ''HTTP '', show_nat status, js '': '', m]"

definition listing :: "file_system \<Rightarrow> byte list \<Rightarrow> bool \<Rightarrow> ListFilesOutcome" where
  "listing fs path deep =
     (case Stat fs path of
        Inl e \<Rightarrow>
          if e = ENOENT then
            (case Lstat fs path of
               Inr _ \<Rightarrow> ListNotADirectory
             | Inl _ \<Rightarrow> ListRefused (http_refusal 404 (js ''no such directory: '' @ go_text path)))
          else ListRefused (http_refusal 500 (path_error ''stat'' path e))
      | Inr i \<Rightarrow>
          if \<not> is_dir fs i then ListNotADirectory
          else
            (case listEntries fs path deep of
               Inl m \<Rightarrow> ListRefused (http_refusal 500 m)
             | Inr entries \<Rightarrow> ListOk (map shown entries)))"

lemma well_formed_walk: "walk_entries depth fs dir es = Inl m \<Longrightarrow> well_formed m"
  by (induction depth fs dir es arbitrary: m rule: walk_entries.induct)
    (auto split: sum.splits option.splits if_splits)

lemma well_formed_listEntries: "listEntries fs path deep = Inl m \<Longrightarrow> well_formed m"
  by (auto simp: listEntries_def WalkDir_def ReadDir_def dest: well_formed_walk split: if_splits sum.splits option.splits)

lemma listed_entries: "entries_loop (map fileEntry_json es) = Some (map shown es)"
  by (induction es) (simp_all add: fileEntry_json_def entryOf_def str_at_def num_at_def json_at_def shown_def or_else_def)

lemma listFilesResponse_ok: "texts_ok (listFilesResponse es)" "entriesOf (listFilesResponse es) = Some (map shown es)"
  by (simp_all add: listFilesResponse_def fileEntry_json_def list_all_iff isInteger_def entriesOf_def arr_at_def json_at_def
      listed_entries)

lemma list_query:
  assumes "rq_query r = query_of [(js ''path'', uri_text path)] @ (if deep then js ''&recursive=true'' else [])"
  shows "Query_Get r ''path'' = path" and "Query_Get r ''recursive'' = lit ''true'' \<longleftrightarrow> deep"
proof -
  have "lit ''path'' \<noteq> lit ''recursive''" by simp
  then have ne: "map of_nat (js ''path'') \<noteq> (map of_nat (js ''recursive'') :: byte list)" unfolding lit_names .
  have "Query_Get r ''path'' = path \<and> (Query_Get r ''recursive'' = lit ''true'' \<longleftrightarrow> deep)"
  proof (cases deep)
    case False
    then have q: "rq_query r = query_of [(js ''path'', uri_text path)]" using assms by simp
    have "[] \<noteq> lit ''true''" by (simp add: lit_ascii ascii_def js_def)
    then show ?thesis
      using False Query_Get_of[OF q, of "''recursive''"] Query_Get_path[OF q] ne
      by (simp add: clean_values key_plain QueryUnescape_uri lit_names)
  next
    case True
    have plain: "QueryUnescape (js ''true'') = Some (map of_nat (js ''true''))"
      by (rule QueryUnescape_plain) (simp add: key_plain)
    have "clean_pair (js ''recursive'') (js ''true'')" by (simp add: clean_pair_def key_plain) (simp add: js_def)
    moreover have q: "rq_query r = query_of [(js ''path'', uri_text path), (js ''recursive'', js ''true'')]"
      using assms True by (simp add: query_of_def pair_of_def) (simp add: js_def)
    ultimately show ?thesis
      using True ne Query_Get_of[OF q]
      by (simp add: clean_values key_plain QueryUnescape_uri plain lit_names)
  qed
  then show "Query_Get r ''path'' = path" "Query_Get r ''recursive'' = lit ''true'' \<longleftrightarrow> deep" by auto
qed

lemma listFiles_handler_lists:
  assumes "rq_query r = query_of [(js ''path'', uri_text path)] @ (if deep then js ''&recursive=true'' else [])"
    and "path \<noteq> []"
  shows "listFiles_handler r fs =
    (case Stat fs path of
       Inl e \<Rightarrow>
         if not_exist e then
           (case Lstat fs path of
              Inr _ \<Rightarrow> not_a_directory path
            | Inl _ \<Rightarrow> writeCodedError 404 ''not_found'' (js ''no such directory: '' @ go_text path))
         else writeCodedError 500 ''list_failed'' (path_error ''stat'' path e)
     | Inr i \<Rightarrow>
         if \<not> is_dir fs i then not_a_directory path
         else
           (case listEntries fs path deep of
              Inl m \<Rightarrow> writeCodedError 500 ''list_failed'' m
            | Inr entries \<Rightarrow> writeJSON (listFilesResponse entries)))"
  by (simp only: listFiles_handler_def pathParam_def list_query[OF assms(1)] assms(2) Let_def if_False option.case)

text \<open>C18: \<open>listFiles\<close> tells the caller what is there: the answer that reaches the adapter is, entry by entry with its
  path, type and size, the directory as the agent read it, and every other outcome, a missing
  directory, something that is not one, a directory that may not be read, is told apart.\<close>

theorem listing_end_to_end:
  assumes "admitted ep p" and "well_formed path" and "path \<noteq> []" and "fs = pod_fs (meanwhile w (pod_at w ep p s))"
  shows "\<exists>u. agent_listFiles (hosted w net ep p pf) ep path deep s = (Inr (listing fs (utf8_bytes path) deep), u)"
proof -
  have encoded: "encodeURIComponent path = Inr (uri_text (utf8_bytes path))"
    using assms(2) by (simp add: encodeURIComponent_def uri_text_def well_formed_def)
  then obtain url where url: "filePath (js ''/files/list'') path = Inr url"
    by (simp add: filePath_def bindR_def)
  let ?rest = "if deep then js ''&recursive=true'' else []"
  let ?req = "plain_request ep (js ''GET'') (url @ ?rest) NoPayload None"
  let ?what = "js ''list '' @ path"
  have ascii: "ascii (ep_token ep)" using assms(1) by (simp add: admitted_def)
  note a = arrive_file[OF ascii url files_path(2), of "js ''GET''" ?rest NoPayload None]
  have mux: "mux (arrive ep ?req) = Inr GetFileList" by (rule mux_endpoints(4)) (simp_all only: a)
  have get: "js ''GET'' \<noteq> js ''HEAD''" by simp
  have "utf8_bytes path \<noteq> []" using go_text_utf8_bytes[OF assms(2)] assms(3) by (metis go_text.simps(1))
  note lists = listFiles_handler_lists[OF a(3) this, of fs]
  have "agent_request (hosted w net ep p pf) ep ?what (js ''GET'') (url @ ?rest) NoPayload None s =
      (Inr (deliver (fst (net (log s))) (listFiles_handler (arrive ep ?req) fs)), sent net ?req s)"
    by (simp add: agent_request_hosted(1)[OF assms(1) mux get] Let_def handle_def assms(4))
  note sends = this[unfolded lists]
  have missing: "well_formed (js ''no such directory: '' @ path)" "well_formed (path @ js '' is not a directory'')"
    using assms(2) by simp_all
  have answers: "response_json pf' (deliver cuts (writeJSON (listFilesResponse es))) = Inr (listFilesResponse es)" for pf' cuts es
    by (rule response_json_deliver) (simp_all add: listFilesResponse_ok writeJSON_def)
  have status: "ans_status (writeJSON v) = 200" for v by (simp add: writeJSON_def)
  note eval = agent_listFiles_def Let_def url listing_def io_eval sends not_exist_def not_a_directory_def refusalOf_deliver
    answers status listFilesResponse_ok or_missing_def http_refusal_def
  show ?thesis
  proof (cases "Stat fs (utf8_bytes path)")
    case (Inl e)
    then show ?thesis
      using assms(2) missing by (cases "Lstat fs (utf8_bytes path)"; cases "e = ENOENT") (simp_all add: eval split del: if_split)
  next
    case (Inr i)
    show ?thesis
    proof (cases "is_dir fs i")
      case False
      then show ?thesis using Inr assms(2) missing by (simp add: eval split del: if_split)
    next
      case True
      then show ?thesis
        using Inr well_formed_listEntries[of fs "utf8_bytes path" deep]
        by (cases "listEntries fs (utf8_bytes path) deep") (simp_all add: eval split del: if_split)
    qed
  qed
qed

lemma demo_pod_start: "pod_at demo_world demo_endpoint demo_host_pod demo_state = demo_host_pod" "pod_fs demo_host_pod = demo_fs"
  by (simp_all add: pod_at_def pod_after_def demo_state_def demo_host_pod_def new_pod_def)

lemma demo_root: "Stat demo_fs (lit ''/'') = Inr 0"
  by (simp add: Stat_def stat_def locate_def components_def slash_def Split_def lit_ascii ascii_def js_def rooted_def
      walk.simps hop_of_def entry_of_def demo_fs_def)

lemma demo_listing: "listing demo_fs (lit ''/'') False =
  ListOk [\<lparr>afe_path = js ''/f'', afe_type = RegularFile, afe_size = of_whole 2\<rparr>]"
proof -
  have "entries_at demo_fs 0 = Some [(lit ''f'', 1)]" by (simp add: entries_at_def demo_fs_def)
  moreover have "Join (lit ''/'') (lit ''f'') = lit ''/f''"
    by (simp add: Join_def Clean_def Split_def lit_ascii ascii_def js_def slash_def rooted_def clean_step_def)
  ultimately show ?thesis
    using demo_root by (simp add: listing_def listEntries_def ReadDir_def shown_entry type_of_def inode_size_def is_dir_def)
      (simp add: demo_fs_def)
qed

lemma listing_end_to_end_witness:
  "\<exists>u. agent_listFiles (hosted demo_world demo_net demo_endpoint demo_host_pod (answering [])) demo_endpoint
      (js ''/'') False demo_state = (Inr (ListOk [\<lparr>afe_path = js ''/f'', afe_type = RegularFile, afe_size = of_whole 2\<rparr>]), u)"
proof -
  have "admitted demo_endpoint demo_host_pod" by (simp add: demo_host_pod_def demo_admitted)
  from listing_end_to_end[OF this, of "js ''/''" demo_fs demo_world demo_state demo_net "answering []" False]
  show ?thesis using demo_listing by (simp add: demo_pod_start lit_def)
qed

text \<open>
  A directory reached through a symbolic link lists differently in the two modes: \<open>os.ReadDir\<close> follows the
  link, \<open>filepath.WalkDir\<close> does not, so with \<open>recursive\<close> a full directory answers as an empty one.
\<close>

lemma linked_directory_lists_empty:
  assumes "Stat fs path = Inr i" and "is_dir fs i" and "Lstat fs path = Inr j" and "fs_inode fs j = Some (Link target)"
  shows "listing fs path True = ListOk []"
    and "listing fs path False =
      (case entries_at fs i of
         None \<Rightarrow> ListRefused (http_refusal 500 (path_error ''open'' path EACCES))
       | Some es \<Rightarrow> ListOk (map (shown \<circ> entry_at fs path) es))"
  using assms by (simp_all add: listing_def listEntries_def WalkDir_def ReadDir_def is_dir_def split: option.split)

subsection \<open>The depth of a walk is enough\<close>

text \<open>
  Directories form a tree: each has a height above those it lists, no more than there are inodes.  Then the
  walk never runs out of its depth, and its only error is a directory that may not be read.
\<close>

definition fs_tree :: "file_system \<Rightarrow> bool" where
  "fs_tree fs \<longleftrightarrow> (\<exists>height. \<forall>d entries parent. fs_inode fs d = Some (Folder entries parent) \<longrightarrow>
     0 < height d \<and> height d \<le> fs_next fs \<and> (\<forall>(n, i) \<in> set entries. is_dir fs i \<longrightarrow> height i < height d))"

lemma walk_depth:
  assumes "walk_entries depth fs dir es = Inl m" and "0 < depth"
    and "\<forall>e \<in> set es. is_dir fs (snd e) \<longrightarrow> height (snd e) < depth"
    and "\<And>d entries parent. fs_inode fs d = Some (Folder entries parent) \<Longrightarrow>
      0 < height d \<and> (\<forall>(n, i) \<in> set entries. is_dir fs i \<longrightarrow> height i < (height d :: nat))"
  shows "\<exists>path. m = path_error ''open'' path EACCES"
  using assms
proof (induction depth fs dir es arbitrary: m rule: walk_entries.induct)
  case (3 depth fs dir e es)
  show ?case
  proof (cases "is_dir fs (snd e)")
    case False
    then show ?thesis using 3(2)[of "[]" m] 3(3-6) by (auto split: sum.splits)
  next
    case True
    then obtain entries parent where d: "fs_inode fs (snd e) = Some (Folder entries parent)"
      by (auto simp: is_dir_def split: option.splits inode.splits)
    have low: "0 < depth" "\<forall>(n, i) \<in> set entries. is_dir fs i \<longrightarrow> height i < depth"
      using 3(6)[OF d] 3(5) True by fastforce+
    show ?thesis
    proof (cases "entries_at fs (snd e)")
      case None
      then show ?thesis using 3(3) True by auto
    next
      case (Some inner)
      then have "\<forall>e \<in> set inner. is_dir fs (snd e) \<longrightarrow> height (snd e) < depth"
        using low(2) d by (fastforce simp: entries_at_def split: if_splits)
      note below = 3(1)[OF True Some _ low(1) this 3(6)]
      then show ?thesis
        using 3(2)[of _ m] 3(3-6) True Some by (auto split: sum.splits)
    qed
  qed
qed auto

lemma WalkDir_enough:
  assumes "fs_tree fs" and "WalkDir fs base = Inl m"
  shows "\<exists>op path e. m = path_error op path e"
proof -
  from assms(1) obtain height :: "ino \<Rightarrow> nat" where h: "\<And>d entries parent. fs_inode fs d = Some (Folder entries parent) \<Longrightarrow>
     0 < height d \<and> height d \<le> fs_next fs \<and> (\<forall>(n, i) \<in> set entries. is_dir fs i \<longrightarrow> height i < height d)"
    unfolding fs_tree_def by blast
  consider (refused) op path e where "m = path_error op path e"
    | (walked) i entries parent where "fs_inode fs i = Some (Folder entries parent)"
        "walk_entries (fs_next fs) fs base (sort_key fst entries) = Inl m"
    using assms(2) by (auto simp: WalkDir_def entries_at_def is_dir_def split: sum.splits if_splits option.splits inode.splits)
  then show ?thesis
  proof cases
    case walked
    have "\<exists>path. m = path_error ''open'' path EACCES"
      by (rule walk_depth[OF walked(2), where height = height]) (use h[OF walked(1)] h in \<open>fastforce+\<close>)
    then show ?thesis by blast
  qed blast
qed

end
