(* ===== verification/Spec2Isabelle.thy ===== *)
theory Spec2Isabelle
  imports Overtaking JobKept Smoke Wire Changelog Shell AgentBoot AgentStorage
begin

text \<open>
  A verification of \<open>marimohub-compute-armada\<close>: the adapter that runs marimohub's notebook kernels as jobs
  of the Armada batch scheduler.

  \<^bold>\<open>The program.\<close>  At startup \<open>src/config.ts\<close> reads the environment into a configuration.  The provider
  (\<open>src/provider.ts\<close>) hands the host sandboxes, addressed by id (\<open>src/sandbox.ts\<close>).  On first use a sandbox
  resolves its queue (\<open>src/queues.ts\<close>), builds a pod (\<open>src/podspec.ts\<close>), submits it through the Armada client
  (\<open>src/armada.ts\<close>, request and response types in \<open>src/armada-types.ts\<close>, credentials in \<open>src/auth.ts\<close>), follows
  the job's event stream (\<open>src/ndjson.ts\<close>) until the pod runs, and polls the agent in it
  (\<open>src/channel.ts\<close>).  Commands, files and processes go to that agent, commands wrapped for a login shell by
  \<open>src/shell.ts\<close>; results have the types of \<open>src/types.ts\<close>.  The agent is a Go program of its own
  (\<open>agent/*.go\<close>), PID 1 of the container: an HTTP server that runs commands, keeps a table of detached processes,
  reads, writes and lists files, and reaps orphans.

  \<^bold>\<open>How it is modelled.\<close>  A string is its UTF-16 code units, a number a \<open>jsnum\<close> (NaN, the infinities, or an exact rational),
  bytes are words of 8 bits, an object an association list in insertion order.  A call that may
  throw returns a sum; an operation with effects is a function from the state before to the result and
  the state after (\<open>Prelude\<close>).  The world outside is a \<open>platform\<close> (\<open>Net\<close>): a function from the requests made so far and
  the next one to an answer and the time it took, with the answers of the file system, the lateness of timers
  and the wording of JSON syntax errors.  Theorems hold for every platform, so for every behaviour of
  Armada, Lookout, the agent and the network.  The state grows by record extension: requests, clock and
  log lines (\<open>net_state\<close>), queues remembered (\<open>queue_state\<close>), placements (\<open>world\<close>), the instance a method
  runs on (\<open>sandbox_state\<close>), all instances and processes (\<open>process_state\<close>).

  \<^bold>\<open>The theories.\<close>
  \<^item> \<open>Prelude\<close>: results, effects, the frame predicate \<open>keeps\<close> and a total-correctness triple with its rules.
  \<^item> \<open>JsText\<close>, \<open>JsNumber\<close>, \<open>Utf8\<close>, \<open>Json\<close>, \<open>Base64\<close>, \<open>Sha256\<close>: what the source uses of the language and of Node:
    string methods and regular expressions, number conversion, UTF-8 as a byte automaton with both round
    trips, JSON reading and writing, base64 with its round trip, SHA-256 and HMAC.
  \<^item> \<open>Shell\<close>: \<open>src/shell.ts\<close>, with a reference reading of the POSIX shell fragment it uses; quoting, the clone
    command and the environment prefix mean to the shell what they should.
  \<^item> \<open>HubTypes\<close>, \<open>ArmadaTypes\<close>: the data of \<open>src/types.ts\<close> and \<open>src/armada-types.ts\<close>.
  \<^item> \<open>Config\<close>: \<open>readConfig\<close> and every reader; what an accepted configuration satisfies.
  \<^item> \<open>PodSpec\<close>: \<open>buildPodSpec\<close>; quantities, ports, GPU placement and Armada's submission rules.
  \<^item> \<open>Ndjson\<close>: the line reader equals the split of the whole text, however it is cut; broken streams.
  \<^item> \<open>Net\<close>, \<open>Auth\<close>: requests, responses, percent encoding, and \<open>talks\<close>, what an operation may do to the state;
    the authorization header.
  \<^item> \<open>Queues\<close>: the queue directory over a lookup stated as the locale \<open>queue_lookup\<close>.
  \<^item> \<open>ArmadaClient\<close>: every method of the client; it interprets \<open>queue_lookup\<close> and the locale \<open>placement\<close> that sandboxes
    rely on; submission, the event stream, enumeration and attachment.
  \<^item> \<open>Channel\<close>: every method of the agent channel, the decoders of its answers, and the locale
    \<open>control_channel\<close> with its interpretation; polling ends, and commands deliver their output.
  \<^item> \<open>Sandbox\<close>: every method of \<open>ArmadaSandbox\<close> and of the processes it starts.
  \<^item> \<open>SandboxReach\<close>: the invariant of a sandbox and that each method stays within it.
  \<^item> \<open>SandboxSpec\<close>, \<open>SandboxData\<close>: the contracts of single methods.
  \<^item> \<open>Welcome\<close>: a concrete platform on which a sandbox becomes ready, for the witnesses.
  \<^item> \<open>Provider\<close>: the provider and the module's entry point, and the host's interface as a type of calls.
  \<^item> \<open>Process\<close>: the running adapter as a step relation over those calls, its reachable states, and the invariant
    that accounts for every request ever made.
  \<^item> \<open>Turns\<close>, \<open>SandboxTurns\<close>: asynchronous calls as tasks, which take turns from one \<open>await\<close> to the next; every method of a
    sandbox again as a task, and the lemmas that its turns taken alone are the method of \<open>Sandbox\<close>.
  \<^item> \<open>Interference\<close>, \<open>Steady\<close>: what a task may rely on and must keep while others take their turns, and that every method does.
  \<^item> \<open>Interleaving\<close>, \<open>Overtaking\<close>: the adapter with its calls interleaved, as a step relation with an invariant; what holds of
    every interleaving, that it refines the process with one call at a time, and the one thing that goes wrong.
  \<^item> \<open>JobKept\<close>: an instance that has a job keeps it and never submits again.
  \<^item> \<open>Smoke\<close>: \<open>dev/smoke.ts\<close>, the script that drives the adapter against a real Armada, as a composition of its operations.
  \<^item> \<open>ApiContract\<close>, \<open>Wire\<close>: \<open>scripts/check-armada-api.ts\<close> and what its verdict means; the JSON of the request bodies, and that
    they are well typed by every specification the check passes.
  \<^item> \<open>Changelog\<close>: \<open>scripts/changelog.ts\<close>, over the changelog parser as a parameter.
  \<^item> \<open>JsonText\<close>, \<open>GoText\<close>: JSON printed and read back, once for every way of quoting (the locale \<open>json_quoting\<close>, interpreted
    for \<open>JSON.stringify\<close> and for Go's encoder); Go's strings, its JSON and the decoding into its variables.
  \<^item> \<open>AgentServer\<close>: requests as the agent sees them, queries, errors, the token and who may pass
    (\<open>agent/server.go\<close>, \<open>agent/main.go\<close>).
  \<^item> \<open>AgentExec\<close>: the \<open>/exec\<close> endpoint, a run of a command being what its pipes deliver and how it ends.
  \<^item> \<open>OsFiles\<close>: the file system, path resolution and the functions of \<open>os\<close> and \<open>path/filepath\<close> the agent calls, with its
    well-formedness invariant and that what is written is what is read.
  \<^item> \<open>AgentFiles\<close>: \<open>agent/files.go\<close> and \<open>agent/files_linux.go\<close>; the bounded read with a file system that changes at every call.
  \<^item> \<open>AgentProcess\<close>: \<open>agent/process.go\<close>; waiting for a port ends, in time.
  \<^item> \<open>Agent\<close>: all endpoints behind the router, a request at a time, with what happens in the pod between two.
  \<^item> \<open>AgentLink\<close>: a \<open>platform\<close> whose answers from one address are the agent's, which joins the adapter's side to the agent's.
  \<^item> \<open>AgentCommands\<close>, \<open>AgentStorage\<close>, \<open>AgentJobs\<close>: commands, files and processes from the adapter's method through
    the agent and back; the invariant of the agent's table over every sequence of requests and events.
  \<^item> \<open>Reaper\<close>: \<open>agent/reaper_linux.go\<close>, its reading of \<open>/proc\<close> and its race with the agent's own waits as a step relation.
  \<^item> \<open>AgentBoot\<close>: the agent installed, started from the pod spec and stopped (\<open>agent/main.go\<close>, \<open>shutdown\<close>).
  \<^item> This theory: properties that join the configuration, the queues, the pods and teardown.

  \<^bold>\<open>Loops and bounds.\<close>  Polling the agent is total: each round that goes on sleeps a quarter second of the clock.
  Reading a body is total because a platform delivers finite bodies, every watch carrying a timer whose
  abort ends it.  Enumeration pages for as long as pages are full, which only the answers bound: it takes
  fuel, and \<open>listActive_complete\<close> shows that one unit per full page and one more is enough; the smoke run hands its fuel on to it.  JSON reading takes fuel
  from the length of its text, shown to be enough.  A recursive listing takes the number of inodes for its depth, enough
  for directories that form a tree (\<open>WalkDir_enough\<close>).  The agent's wait for a port and its shutdown end because every
  round rests; path resolution ends because each link spends one of forty.  Everything else is structural recursion or has a measure.

  \<^bold>\<open>Interleaving.\<close>  A task is finite by its type, so a call under way always comes to its end; a turn that asks another
  component asks in that turn and is told in the next.  What one operation of the client or the agent channel asks in several
  requests, a method of a started process, and enumeration count as one turn: between their requests they touch nothing
  that instances share.  The writes of one batch all run, and which of their errors comes first is left open.

  The agent answers requests one at a time, in any order: its handlers share only the table of processes, the slots of
  bounded reads and the files, and where that matters, in the bounded read and in the reaper, single system calls interleave.

  \<^bold>\<open>The agent's world.\<close>  What the operating system does is an argument, request by request (\<open>pod_world\<close>): how a command runs, which
  pid a process gets, what a probe finds, which files change.  The wording of decoding errors is one too.  The adapter's own
  theorems do not rely on the agent: they hold for every answer; the theorems that join the two say what follows when
  the address is the agent's and the token is the one its pod was given.

  \<^bold>\<open>Not modelled.\<close>  The \<open>cause\<close> chain of errors, releasing a response's reader, and cancelling a stream
  half way have no counterpart.  Rounding of doubles is not modelled: numbers are exact, and the
  definitions that divide or multiply stay within what doubles represent exactly.  Members of
  \<open>Object.prototype\<close> reached through plain objects are outside the model and noted where they matter.  Of the agent: the flags of \<open>main\<close> and the server's own
  limits, permission bits, the stubs for other systems than Linux, and a pid reused while the agent's mark on it stands.  Lines that only report progress, in the scripts, are left out.
\<close>

section \<open>Properties across components\<close>

subsection \<open>Configuration and queues\<close>

text \<open>Note: With a configuration startup accepted, a sandbox this process knows nothing of is never placed blindly: either
  there is only one queue it could be in, and that one is used without a request, or Lookout was asked
  exactly once before a queue was chosen.\<close>

theorem accepted_config_asks:
  assumes "readConfig h env compute = Inr config" and "remembered s sid = None"
    and "resolve config (Some (findQueue pf config)) sid owner s = (Inr queue, t)"
  shows "if queue_all config = [cfg_queue config] then queue = cfg_queue config \<and> t = s
    else length (log t) = Suc (length (log s))"
proof (cases "queue_mapped config")
  case False
  moreover have "queue_all config = [cfg_queue config]"
    using False by (auto simp: queue_mapped_def queue_all_def uniq_Cons)
  ultimately show ?thesis
    using assms(3) directory.resolve_unmapped[OF False assms(2), of pf owner] by simp
next
  case True
  have "valid_queues config" using readConfig_valid[OF assms(1)] by (simp add: valid_config_def)
  with True obtain lookout where lookout: "cfg_lookoutUrl config = Some lookout"
    by (cases "cfg_lookoutUrl config") (auto simp: valid_queues_def queue_mapped_iff)
  obtain r u where ask: "findQueue pf config sid s = (r, u)" by fastforce
  from assms(3)[unfolded directory.resolve_asks[OF True assms(2) ask]]
  obtain found where "r = Inr found" and "log t = log u" by (auto simp: Let_def split: sum.splits option.splits)
  moreover have "length (log u) = Suc (length (log s))" if "r = Inr found"
    using ask that lookout unfolding findQueue_def lookoutJobs_def
    by (auto elim!: bindIO_eqE simp: io_run Let_def dest: postJsonTo_Inr_log)
  moreover have "queue_all config \<noteq> [cfg_queue config]" using True by (auto simp: queue_mapped_def)
  ultimately show ?thesis by simp
qed

subsection \<open>Configuration and GPUs\<close>

lemma upper_unit_colon: "58 \<in> set (upper_unit c) \<Longrightarrow> c = 58"
  by (auto simp: upper_unit_def split: if_splits)

lemma pair_gpu_type:
  assumes "t \<in> set (pair_gpu_types pair)"
  shows "\<exists>v. t = toUpperCase (trim (hd (splitOn 58 v)))"
proof -
  define v where "v = (if 1 < length (splitOn 61 pair) then splitOn 61 pair ! 1 else [])"
  have "set (pair_gpu_types pair) \<subseteq> {toUpperCase (trim (hd (splitOn 58 v)))}"
    unfolding pair_gpu_types_def Let_def v_def[symmetric] by auto
  with assms show ?thesis by auto
qed

lemma profile_type_plain:
  assumes "t \<in> set (profileGpuTypes profiles)"
  shows "58 \<notin> set t" "toUpperCase t = t"
proof -
  from assms obtain v where t: "t = toUpperCase (trim (hd (splitOn 58 v)))"
    by (auto simp: profileGpuTypes_def dest: pair_gpu_type)
  have "58 \<notin> set (hd (splitOn 58 v))" using splitOn_no_sep splitOn_not_Nil hd_in_set by blast
  then show "58 \<notin> set t" by (auto simp: t toUpperCase_def dest!: upper_unit_colon set_trim_subset)
  show "toUpperCase t = t" by (simp add: t)
qed

text \<open>C38: A GPU type that the host's compute profiles offer can always be placed: with a configuration startup accepted,
  a session that asks for it, with any count, gets a pod on the nodes the type maps to, so a profile never
  fails at the first session that picks it.\<close>

theorem profile_gpus_build:
  assumes "readConfig h env compute = Inr config" and "cfg_gpuNodeSelectors config \<noteq> []"
    and "v \<in> set PROFILE_VARIABLES" and "type \<in> set (profileGpuTypes (env v))"
    and "type \<noteq> []" and "case count of None \<Rightarrow> True | Some n \<Rightarrow> 58 \<notin> set n"
    and "opt_resources options = Some \<lparr>res_cpu = cpu, res_memoryBytes = mem, res_gpu = Some (gpu_request type count)\<rparr>"
  shows "\<exists>spec selector. buildPodSpec config agent (Some options) = Inr spec
    \<and> obj_get (cfg_gpuNodeSelectors config) type = Some selector \<and> nodeSelector spec = Some selector"
proof -
  have "valid_gpus env config" using readConfig_valid[OF assms(1)] by (simp add: valid_config_def)
  then obtain selector where sel: "obj_get (cfg_gpuNodeSelectors config) type = Some selector"
    using assms(2-4) by (auto simp: valid_gpus_def list_all_iff)
  have "fst (parseGpu (gpu_request type count)) = type"
    using parseGpu_request[OF profile_type_plain(1)[OF assms(4)] assms(6)] profile_type_plain(2)[OF assms(4)] by simp
  moreover have "requested_gpu (Some \<lparr>res_cpu = cpu, res_memoryBytes = mem, res_gpu = Some (gpu_request type count)\<rparr>)
      = Some (gpu_request type count)"
    using assms(5) by (auto simp: requested_gpu_def gpu_request_def split: option.splits)
  ultimately show ?thesis
    using sel assms(7) by (simp add: buildPodSpec_def gpuNodeSelector_def Let_def)
qed

subsection \<open>Enumeration and teardown\<close>

lemma active_pages_keyed:
  "active_pages fuel pf config lookout skip acc s = Some (Inr jobs, t) \<Longrightarrow> keyed acc \<Longrightarrow>
     \<exists>m. keyed m \<and> jobs = obj_values m"
proof (induction fuel arbitrary: skip acc s)
  case (Suc fuel)
  obtain r u where page: "active_page pf config lookout skip s = (r, u)" by fastforce
  with Suc.prems obtain page' where r: "r = Inr page'" by (cases r) auto
  have keyed: "keyed (fold add_active page' acc)" using Suc.prems(2) by (rule keyed_fold)
  show ?case
  proof (cases "length page' < LIST_ACTIVE_PAGE")
    case True
    then show ?thesis using Suc.prems(1) page r keyed by (auto simp: Let_def)
  qed (use Suc.prems(1) page r Suc.IH[OF _ keyed] in \<open>auto simp: Let_def\<close>)
qed simp

lemma remember_all_other:
  "sid \<notin> act_id ` set jobs \<Longrightarrow> remembered (remember_all jobs s) sid = remembered s sid"
  by (induction jobs arbitrary: s) (auto simp: remember_def io_run)

lemma remember_all_job:
  "distinct (map act_id jobs) \<Longrightarrow> job \<in> set jobs \<Longrightarrow>
     remembered (remember_all jobs s) (act_id job) = Some (act_queue job)"
proof (induction jobs arbitrary: s)
  case (Cons j jobs)
  then show ?case by (auto simp: remember_all_other remember_def io_run)
qed simp

lemma postTo_request:
  assumes "postTo pf config base path body signal s = (r, t)"
  shows "log t = log s \<or> (\<exists>req. log t = log s @ [req] \<and> req_body req = Some body)"
  using postTo_log[OF assms] by auto


definition gpu_env :: env where
  "gpu_env = demo_env(js ''ARMADA_GPU_NODE_SELECTORS'' \<mapsto> jtext ''{`A100`:{`g`:`x`}}'',
     js ''MARIMOHUB_COMPUTE_PROFILES'' \<mapsto> js ''b:gpu=A100'')"

lemma gpu_profile: "profileGpuTypes (Some (js ''b:gpu=A100'')) = [js ''A100'']"
  by (simp add: profileGpuTypes_def pair_gpu_types_def Let_def js_def slice_from_def trim_no_space is_space_def
      toUpperCase_def upper_unit_def)

lemma gpu_selectors:
  "parse_object name (jtext ''{`A100`:{`g`:`x`}}'') = Inr [(js ''A100'', JObj [(js ''g'', JStr (js ''x''))])]"
  "read_selectors name [] [(js ''A100'', JObj [(js ''g'', JStr (js ''x''))])] = Inr [(js ''A100'', [(js ''g'', js ''x'')])]"
proof -
  have "JSON_parse (jtext ''{`A100`:{`g`:`x`}}'') = Some (JObj [(js ''A100'', JObj [(js ''g'', JStr (js ''x''))])])"
    by code_simp
  then show "parse_object name (jtext ''{`A100`:{`g`:`x`}}'') = Inr [(js ''A100'', JObj [(js ''g'', JStr (js ''x''))])]"
    by (simp add: parse_object_def)
  show "read_selectors name [] [(js ''A100'', JObj [(js ''g'', JStr (js ''x''))])] = Inr [(js ''A100'', [(js ''g'', js ''x'')])]"
    by (simp add: Let_def js_def trim_no_space is_space_def toUpperCase_def upper_unit_def obj_assign_def)
qed

lemma gpu_config: "\<exists>config. readConfig demo_host gpu_env None = Inr config \<and> cfg_gpuNodeSelectors config \<noteq> []"
proof -
  have "url_protocol demo_host (js ''https://a'') = Some (js ''https:'')"
    by (simp add: demo_host_def js_def startsWith_def)
  moreover have "profileGpuTypes None = []"
    by (simp add: profileGpuTypes_def pair_gpu_types_def slice_from_def Let_def trim_def js_def)
  ultimately show ?thesis
    by (simp add: config_eval minimal_env_def demo_env_def gpu_env_def Let_def marimo_only uniq_idle surfaces_default
        unmapped_types_def PROFILE_VARIABLES_def gpu_selectors gpu_profile del: read_selectors.simps)
qed

lemma profile_gpus_build_witness:
  "\<exists>config spec. readConfig demo_host gpu_env None = Inr config
     \<and> buildPodSpec config \<lparr>tokenSha256 = js ''ab''\<rparr> (Some \<lparr>opt_image = None,
         opt_resources = Some \<lparr>res_cpu = None, res_memoryBytes = None, res_gpu = Some (js ''A100:2'')\<rparr>, opt_owner = None\<rparr>) = Inr spec"
proof -
  obtain config where config: "readConfig demo_host gpu_env None = Inr config" "cfg_gpuNodeSelectors config \<noteq> []"
    using gpu_config by blast
  have v: "js ''MARIMOHUB_COMPUTE_PROFILES'' \<in> set PROFILE_VARIABLES" by (simp add: PROFILE_VARIABLES_def)
  have type: "js ''A100'' \<in> set (profileGpuTypes (gpu_env (js ''MARIMOHUB_COMPUTE_PROFILES'')))"
    using gpu_profile by (simp add: gpu_env_def)
  have gpu: "gpu_request (js ''A100'') (Some (js ''2'')) = js ''A100:2''" by (simp add: gpu_request_def js_def)
  have colon: "58 \<notin> set (js ''2'')" by (simp add: js_def)
  from profile_gpus_build[OF config v type, of "Some (js ''2'')" "\<lparr>opt_image = None,
         opt_resources = Some \<lparr>res_cpu = None, res_memoryBytes = None, res_gpu = Some (js ''A100:2'')\<rparr>, opt_owner = None\<rparr>"
         None None "\<lparr>tokenSha256 = js ''ab''\<rparr>"] config(1) show ?thesis
    by (auto simp: gpu colon)
qed

lemma accepted_config_asks_witness:
  "\<exists>config. readConfig demo_host demo_env None = Inr config
     \<and> resolve config (Some (findQueue quiet_platform config)) (js ''sb'') None demo_state = (Inr (js ''q''), demo_state)"
proof -
  obtain config where config: "readConfig demo_host demo_env None = Inr config"
    and q: "cfg_queue config = js ''q''" "cfg_queueByUser config = []" "cfg_queueByProject config = []"
    using readConfig_defaults[OF demo_url, of "js ''q''" "js ''agent''" "replicate 32 120"] by (auto simp: demo_env_def)
  have one: "queue_all config = [cfg_queue config]" by (simp add: queue_all_def q uniq_Cons obj_values_def)
  have none: "remembered demo_state (js ''sb'') = None" by (simp add: demo_state_def)
  have "\<not> queue_mapped config" by (simp add: queue_mapped_def one)
  from directory.resolve_unmapped[OF this none, of quiet_platform None]
  have run: "resolve config (Some (findQueue quiet_platform config)) (js ''sb'') None demo_state = (Inr (cfg_queue config), demo_state)" .
  from accepted_config_asks[OF config none run] run one config q show ?thesis by auto
qed


end
